(* ===== verification/Prelude.thy ===== *)
theory Prelude
  imports Main
begin

text \<open>
  Shared vocabulary of the postit library: the time and identifier types of the
  models, the result type of fallible code with its sequencing operator, and the table
  operations that SQL statements of the data crate are translated to.
  \<^item> A moment (\<^verbatim>\<open>DateTime<Utc>\<close>) is an integer number of nanoseconds since the Unix
    epoch, a \<^verbatim>\<open>std::time::Duration\<close> a natural number of nanoseconds.
  \<^item> A UUID is a natural number; only equality and order of UUIDs are used.
  \<^item> \<^verbatim>\<open>Result<T, E>\<close> is the sum \<open>'e + 'a\<close> with \<open>Inl\<close> for the error, and the
    \<^verbatim>\<open>?\<close> operator is \<open>bindE\<close>.
  \<^item> A database table is the list of its rows. \<^verbatim>\<open>UPDATE t SET f WHERE p\<close> is
    \<open>sql_update p f t\<close>, its \<^verbatim>\<open>RETURNING\<close> rows are \<open>sql_returning p f t\<close>, and a
    lookup by primary key is \<open>row_by key k t\<close>.
\<close>

section \<open>Names of the model's basic types\<close>

type_synonym timestamp = int
type_synonym duration = nat
type_synonym uuid = nat

named_theorems table_simps \<open>lookup and update laws of tables\<close>
named_theorems result_simps \<open>laws of the result type\<close>

section \<open>Results\<close>

fun bindE :: "'e + 'a \<Rightarrow> ('a \<Rightarrow> 'e + 'b) \<Rightarrow> 'e + 'b" where
  "bindE (Inl e) f = Inl e"
| "bindE (Inr a) f = f a"

definition ok_or :: "'e \<Rightarrow> 'a option \<Rightarrow> 'e + 'a" where
  "ok_or e x = (case x of None \<Rightarrow> Inl e | Some a \<Rightarrow> Inr a)"

definition map_err :: "('e \<Rightarrow> 'f) \<Rightarrow> 'e + 'a \<Rightarrow> 'f + 'a" where
  "map_err g r = (case r of Inl e \<Rightarrow> Inl (g e) | Inr a \<Rightarrow> Inr a)"

definition is_ok :: "'e + 'a \<Rightarrow> bool" where
  "is_ok r = (case r of Inl e \<Rightarrow> False | Inr a \<Rightarrow> True)"

lemma bindE_Inr_iff [result_simps]:
  "bindE m f = Inr b \<longleftrightarrow> (\<exists>a. m = Inr a \<and> f a = Inr b)"
  by (cases m) auto

lemma bindE_Inl_iff [result_simps]:
  "bindE m f = Inl e \<longleftrightarrow> m = Inl e \<or> (\<exists>a. m = Inr a \<and> f a = Inl e)"
  by (cases m) auto

lemma ok_or_simps [simp]:
  "ok_or e None = Inl e"
  "ok_or e (Some a) = Inr a"
  by (simp_all add: ok_or_def)

lemma ok_or_Inr_iff [result_simps]: "ok_or e x = Inr a \<longleftrightarrow> x = Some a"
  by (cases x) auto

lemma map_err_simps [simp]:
  "map_err g (Inl e) = Inl (g e)"
  "map_err g (Inr a) = Inr a"
  by (simp_all add: map_err_def)

lemma map_err_Inr_iff [result_simps]: "map_err g r = Inr a \<longleftrightarrow> r = Inr a"
  by (cases r) auto

lemma is_ok_simps [simp]:
  "\<not> is_ok (Inl e)"
  "is_ok (Inr a)"
  by (simp_all add: is_ok_def)

lemma ranE:
  assumes "case r of Inl e \<Rightarrow> False | Inr (a, b) \<Rightarrow> P a b"
  obtains a b where "r = Inr (a, b)" and "P a b"
  using assms by (cases r) auto

text \<open>A loop that stops at the first error, threading a state through its steps.\<close>

fun foldE :: "('s \<Rightarrow> 'x \<Rightarrow> 'e + 's) \<Rightarrow> 's \<Rightarrow> 'x list \<Rightarrow> 'e + 's" where
  "foldE f s [] = Inr s"
| "foldE f s (x # xs) = bindE (f s x) (\<lambda>s'. foldE f s' xs)"

lemma foldE_invariant:
  assumes "foldE f s xs = Inr t" and "I s"
    and "\<And>s x s'. x \<in> set xs \<Longrightarrow> I s \<Longrightarrow> f s x = Inr s' \<Longrightarrow> I s'"
  shows "I t"
  using assms
proof (induction xs arbitrary: s)
  case Nil
  then show ?case by simp
next
  case (Cons x xs)
  then obtain s' where "f s x = Inr s'" and "foldE f s' xs = Inr t"
    by (auto simp: result_simps)
  moreover from this Cons.prems have "I s'" by (meson list.set_intros(1))
  ultimately show ?case using Cons.IH Cons.prems(3) by (meson list.set_intros(2))
qed

section \<open>Tables\<close>

definition sql_update :: "('r \<Rightarrow> bool) \<Rightarrow> ('r \<Rightarrow> 'r) \<Rightarrow> 'r list \<Rightarrow> 'r list" where
  "sql_update p f rows = map (\<lambda>r. if p r then f r else r) rows"

definition sql_returning :: "('r \<Rightarrow> bool) \<Rightarrow> ('r \<Rightarrow> 'r) \<Rightarrow> 'r list \<Rightarrow> 'r list" where
  "sql_returning p f rows = map f (filter p rows)"

definition row_by :: "('r \<Rightarrow> 'k) \<Rightarrow> 'k \<Rightarrow> 'r list \<Rightarrow> 'r option" where
  "row_by key k rows = find (\<lambda>r. key r = k) rows"

lemma row_by_Nil [table_simps, simp]: "row_by key k [] = None"
  by (simp add: row_by_def)

lemma row_by_Cons [table_simps]:
  "row_by key k (r # rows) = (if key r = k then Some r else row_by key k rows)"
  by (simp add: row_by_def)

lemma row_by_key: "row_by key k rows = Some r \<Longrightarrow> key r = k"
  by (auto simp: row_by_def find_Some_iff)

lemma row_by_mem: "row_by key k rows = Some r \<Longrightarrow> r \<in> set rows"
  by (auto simp: row_by_def find_Some_iff)

lemma row_by_None_iff: "row_by key k rows = None \<longleftrightarrow> (\<forall>r \<in> set rows. key r \<noteq> k)"
  by (auto simp: row_by_def find_None_iff)

lemma row_by_unique:
  assumes "distinct (map key rows)" and "r \<in> set rows"
  shows "row_by key (key r) rows = Some r"
  using assms by (induction rows) (auto simp: row_by_Cons)

lemma sql_update_Nil [simp]: "sql_update p f [] = []"
  by (simp add: sql_update_def)

lemma length_sql_update [simp]: "length (sql_update p f rows) = length rows"
  by (simp add: sql_update_def)

lemma set_sql_update:
  "set (sql_update p f rows) = {r \<in> set rows. \<not> p r} \<union> f ` {r \<in> set rows. p r}"
  by (auto simp: sql_update_def)

lemma map_sql_update_same [table_simps]:
  assumes "\<And>r. p r \<Longrightarrow> g (f r) = g r"
  shows "map g (sql_update p f rows) = map g rows"
  using assms by (induction rows) (auto simp: sql_update_def)

lemma row_by_sql_update:
  assumes "\<And>r. p r \<Longrightarrow> key (f r) = key r"
  shows "row_by key k (sql_update p f rows)
       = map_option (\<lambda>r. if p r then f r else r) (row_by key k rows)"
  using assms by (induction rows) (auto simp: sql_update_def row_by_Cons)

lemma sql_update_none:
  assumes "\<And>r. r \<in> set rows \<Longrightarrow> \<not> p r"
  shows "sql_update p f rows = rows"
  using assms by (induction rows) (auto simp: sql_update_def)

lemma list_ex_sql_update_same:
  assumes "\<And>r. r \<in> set rows \<Longrightarrow> p r \<Longrightarrow> q (f r) = q r"
  shows "list_ex q (sql_update p f rows) = list_ex q rows"
  using assms by (induction rows) (auto simp: sql_update_def)

lemma list_all_sql_update_same:
  assumes "\<And>r. r \<in> set rows \<Longrightarrow> p r \<Longrightarrow> q (f r) = q r"
  shows "list_all q (sql_update p f rows) = list_all q rows"
  using assms by (induction rows) (auto simp: sql_update_def)

end
