(* ===== verification/Delivery.thy ===== *)
theory Delivery
  imports Prelude
begin

text \<open>
  The life of one delivery: the model of \<^verbatim>\<open>backend/crates/core/src/delivery.rs\<close>. The
  enums keep their variants (states carry the prefix \<open>S_\<close>, events \<open>E_\<close>, job statuses
  \<open>J_\<close>, resolved outcomes \<open>R_\<close>), \<open>transition\<close> is the table of that file, and
  \<open>derive_job_status\<close> the status a publish job rolls up to.
\<close>

section \<open>States, reasons and events\<close>

datatype ParkReason =
    OwnerDisabled
  | AccountNeedsReconnect
  | PlatformUnavailable
  | PlatformDisabled
  | LivePublishDisabled
  | QuotaExceeded
  | OutcomeUnresolvable

datatype DeliveryState =
    S_Pending
  | S_Claimed
  | S_InFlight
  | S_Processing
  | S_OutcomeUnknown
  | S_Parked ParkReason
  | S_Published
  | S_Failed
  | S_DeadLetter
  | S_Cancelled
  | S_Simulated

datatype ResolvedOutcome = R_Published | R_Failed

datatype DeliveryEvent =
    E_Claim
  | E_Cancel
  | E_StartRemote
  | E_Park ParkReason
  | E_RevalidationFailed
  | E_LeaseExpired
  | E_Published
  | E_Accepted
  | E_RetryableFailure
  | E_Shutdown
  | E_RetryBudgetExhausted
  | E_PermanentFailure
  | E_Ambiguous
  | E_Simulated
  | E_ProcessingTimeout
  | E_ReconcileFound
  | E_ReconcileAbsent
  | E_ReconcileUnresolvable
  | E_Unpark
  | E_UserRetry bool
  | E_UserResolve ResolvedOutcome

datatype TransitionError =
    NotAllowed DeliveryState DeliveryEvent
  | AcknowledgementRequired

text \<open>A stored enum string that matches no variant: the kind and the length of the value.\<close>

datatype ParseEnumError = ParseEnumError string nat

definition parse_enum_error :: "string \<Rightarrow> string \<Rightarrow> ParseEnumError" where
  "parse_enum_error kind v = ParseEnumError kind (length v)"

section \<open>Stored names\<close>

fun park_reason_str :: "ParkReason \<Rightarrow> string" where
  "park_reason_str OwnerDisabled = ''owner_disabled''"
| "park_reason_str AccountNeedsReconnect = ''account_needs_reconnect''"
| "park_reason_str PlatformUnavailable = ''platform_unavailable''"
| "park_reason_str PlatformDisabled = ''platform_disabled''"
| "park_reason_str LivePublishDisabled = ''live_publish_disabled''"
| "park_reason_str QuotaExceeded = ''quota_exceeded''"
| "park_reason_str OutcomeUnresolvable = ''outcome_unresolvable''"

definition park_reason_from_str :: "string \<Rightarrow> ParseEnumError + ParkReason" where
  "park_reason_from_str v =
     (if v = ''owner_disabled'' then Inr OwnerDisabled
      else if v = ''account_needs_reconnect'' then Inr AccountNeedsReconnect
      else if v = ''platform_unavailable'' then Inr PlatformUnavailable
      else if v = ''platform_disabled'' then Inr PlatformDisabled
      else if v = ''live_publish_disabled'' then Inr LivePublishDisabled
      else if v = ''quota_exceeded'' then Inr QuotaExceeded
      else if v = ''outcome_unresolvable'' then Inr OutcomeUnresolvable
      else Inl (parse_enum_error ''park reason'' v))"

fun is_terminal :: "DeliveryState \<Rightarrow> bool" where
  "is_terminal S_Published = True"
| "is_terminal S_Failed = True"
| "is_terminal S_DeadLetter = True"
| "is_terminal S_Cancelled = True"
| "is_terminal S_Simulated = True"
| "is_terminal _ = False"

fun state_str :: "DeliveryState \<Rightarrow> string" where
  "state_str S_Pending = ''pending''"
| "state_str S_Claimed = ''claimed''"
| "state_str S_InFlight = ''in_flight''"
| "state_str S_Processing = ''processing''"
| "state_str S_OutcomeUnknown = ''outcome_unknown''"
| "state_str (S_Parked _) = ''parked''"
| "state_str S_Published = ''published''"
| "state_str S_Failed = ''failed''"
| "state_str S_DeadLetter = ''dead_letter''"
| "state_str S_Cancelled = ''cancelled''"
| "state_str S_Simulated = ''simulated''"

definition from_parts :: "string \<Rightarrow> string option \<Rightarrow> ParseEnumError + DeliveryState" where
  "from_parts state reason =
     (if state = ''parked'' then
        bindE (ok_or (parse_enum_error ''delivery state'' state) reason)
          (\<lambda>r. bindE (park_reason_from_str r) (\<lambda>p. Inr (S_Parked p)))
      else (case reason of
          Some r \<Rightarrow> Inl (parse_enum_error ''park reason'' r)
        | None \<Rightarrow>
            (if state = ''pending'' then Inr S_Pending
             else if state = ''claimed'' then Inr S_Claimed
             else if state = ''in_flight'' then Inr S_InFlight
             else if state = ''processing'' then Inr S_Processing
             else if state = ''outcome_unknown'' then Inr S_OutcomeUnknown
             else if state = ''published'' then Inr S_Published
             else if state = ''failed'' then Inr S_Failed
             else if state = ''dead_letter'' then Inr S_DeadLetter
             else if state = ''cancelled'' then Inr S_Cancelled
             else if state = ''simulated'' then Inr S_Simulated
             else Inl (parse_enum_error ''delivery state'' state))))"

text \<open>The \<^verbatim>\<open>parked_reason\<close> column of a state (\<^verbatim>\<open>data/src/publishing/deliveries.rs\<close>).\<close>

fun parked_reason :: "DeliveryState \<Rightarrow> string option" where
  "parked_reason (S_Parked r) = Some (park_reason_str r)"
| "parked_reason _ = None"

fun resolved_state :: "ResolvedOutcome \<Rightarrow> DeliveryState" where
  "resolved_state R_Published = S_Published"
| "resolved_state R_Failed = S_Failed"

section \<open>The transition table\<close>

definition transition :: "DeliveryState \<Rightarrow> DeliveryEvent \<Rightarrow> TransitionError + DeliveryState" where
  "transition from event =
     (case from of
        S_Pending \<Rightarrow>
          (case event of
             E_Claim \<Rightarrow> Inr S_Claimed
           | E_Cancel \<Rightarrow> Inr S_Cancelled
           | _ \<Rightarrow> Inl (NotAllowed from event))
      | S_Claimed \<Rightarrow>
          (case event of
             E_StartRemote \<Rightarrow> Inr S_InFlight
           | E_Park r \<Rightarrow>
               if r \<noteq> OutcomeUnresolvable then Inr (S_Parked r) else Inl (NotAllowed from event)
           | E_RevalidationFailed \<Rightarrow> Inr S_Failed
           | E_LeaseExpired \<Rightarrow> Inr S_Pending
           | E_Shutdown \<Rightarrow> Inr S_Pending
           | E_Cancel \<Rightarrow> Inr S_Cancelled
           | _ \<Rightarrow> Inl (NotAllowed from event))
      | S_InFlight \<Rightarrow>
          (case event of
             E_Published \<Rightarrow> Inr S_Published
           | E_Park r \<Rightarrow>
               if r = QuotaExceeded \<or> r = AccountNeedsReconnect then Inr (S_Parked r)
               else Inl (NotAllowed from event)
           | E_Accepted \<Rightarrow> Inr S_Processing
           | E_RetryableFailure \<Rightarrow> Inr S_Pending
           | E_Shutdown \<Rightarrow> Inr S_Pending
           | E_RetryBudgetExhausted \<Rightarrow> Inr S_DeadLetter
           | E_PermanentFailure \<Rightarrow> Inr S_Failed
           | E_Ambiguous \<Rightarrow> Inr S_OutcomeUnknown
           | E_LeaseExpired \<Rightarrow> Inr S_OutcomeUnknown
           | E_Cancel \<Rightarrow> Inr S_Cancelled
           | E_Simulated \<Rightarrow> Inr S_Simulated
           | _ \<Rightarrow> Inl (NotAllowed from event))
      | S_Processing \<Rightarrow>
          (case event of
             E_Published \<Rightarrow> Inr S_Published
           | E_PermanentFailure \<Rightarrow> Inr S_Failed
           | E_ProcessingTimeout \<Rightarrow> Inr S_OutcomeUnknown
           | E_Cancel \<Rightarrow> Inr S_Cancelled
           | _ \<Rightarrow> Inl (NotAllowed from event))
      | S_OutcomeUnknown \<Rightarrow>
          (case event of
             E_ReconcileFound \<Rightarrow> Inr S_Published
           | E_ReconcileAbsent \<Rightarrow> Inr S_Pending
           | E_RetryBudgetExhausted \<Rightarrow> Inr S_DeadLetter
           | E_ReconcileUnresolvable \<Rightarrow> Inr (S_Parked OutcomeUnresolvable)
           | E_UserRetry ack \<Rightarrow> if ack then Inr S_Pending else Inl AcknowledgementRequired
           | E_UserResolve o1 \<Rightarrow> Inr (resolved_state o1)
           | _ \<Rightarrow> Inl (NotAllowed from event))
      | S_Parked r \<Rightarrow>
          (case event of
             E_UserRetry ack \<Rightarrow>
               if r = OutcomeUnresolvable \<and> \<not> ack then Inl AcknowledgementRequired
               else Inr S_Pending
           | E_UserResolve o1 \<Rightarrow>
               if r = OutcomeUnresolvable then Inr (resolved_state o1)
               else Inl (NotAllowed from event)
           | E_Unpark \<Rightarrow>
               if r \<noteq> OutcomeUnresolvable then Inr S_Pending else Inl (NotAllowed from event)
           | E_Cancel \<Rightarrow> Inr S_Cancelled
           | _ \<Rightarrow> Inl (NotAllowed from event))
      | S_DeadLetter \<Rightarrow>
          (case event of
             E_UserRetry ack \<Rightarrow> Inr S_Pending
           | E_UserResolve o1 \<Rightarrow> Inr (resolved_state o1)
           | _ \<Rightarrow> Inl (NotAllowed from event))
      | S_Failed \<Rightarrow>
          (case event of
             E_UserRetry ack \<Rightarrow> Inr S_Pending
           | _ \<Rightarrow> Inl (NotAllowed from event))
      | _ \<Rightarrow> Inl (NotAllowed from event))"

section \<open>Job status\<close>

datatype JobStatus =
    J_Scheduled
  | J_Publishing
  | J_Published
  | J_Cancelled
  | J_Failed
  | J_Partial

fun job_status_str :: "JobStatus \<Rightarrow> string" where
  "job_status_str J_Scheduled = ''scheduled''"
| "job_status_str J_Publishing = ''publishing''"
| "job_status_str J_Published = ''published''"
| "job_status_str J_Cancelled = ''cancelled''"
| "job_status_str J_Failed = ''failed''"
| "job_status_str J_Partial = ''partial''"

definition job_status_from_str :: "string \<Rightarrow> ParseEnumError + JobStatus" where
  "job_status_from_str v =
     (if v = ''scheduled'' then Inr J_Scheduled
      else if v = ''publishing'' then Inr J_Publishing
      else if v = ''published'' then Inr J_Published
      else if v = ''cancelled'' then Inr J_Cancelled
      else if v = ''failed'' then Inr J_Failed
      else if v = ''partial'' then Inr J_Partial
      else Inl (parse_enum_error ''job status'' v))"

record DeliveryView =
  dv_state :: DeliveryState
  dv_next_attempt_at :: timestamp
  dv_awaiting_native_publish :: bool

definition went_out :: "DeliveryView \<Rightarrow> bool" where
  "went_out d = (dv_state d = S_Published \<or> dv_state d = S_Simulated)"

definition waiting :: "timestamp \<Rightarrow> DeliveryView \<Rightarrow> bool" where
  "waiting now d =
     (case dv_state d of
        S_Pending \<Rightarrow> dv_next_attempt_at d > now
      | S_Processing \<Rightarrow> dv_awaiting_native_publish d
      | s \<Rightarrow> is_terminal s)"

definition derive_job_status :: "DeliveryView list \<Rightarrow> timestamp \<Rightarrow> JobStatus" where
  "derive_job_status deliveries now =
     (if deliveries = [] then J_Failed
      else if list_all (\<lambda>d. is_terminal (dv_state d)) deliveries then
        (if list_all went_out deliveries then J_Published
         else if list_all (\<lambda>d. dv_state d = S_Cancelled) deliveries then J_Cancelled
         else if \<not> list_ex went_out deliveries then J_Failed
         else J_Partial)
      else if list_all (waiting now) deliveries then J_Scheduled
      else J_Publishing)"

section \<open>Case rules for the table\<close>

lemmas delivery_splits = DeliveryState.splits DeliveryEvent.splits

lemma park_reason_from_str_iff:
  "park_reason_from_str v = Inr r \<longleftrightarrow> v = park_reason_str r"
  by (cases r) (auto simp: park_reason_from_str_def)

lemma job_status_from_str_iff:
  "job_status_from_str v = Inr s \<longleftrightarrow> v = job_status_str s"
  by (cases s) (auto simp: job_status_from_str_def)

lemma park_reason_str_inject [simp]: "park_reason_str r = park_reason_str q \<longleftrightarrow> r = q"
  by (metis park_reason_from_str_iff sum.inject(2))

lemma job_status_str_inject [simp]: "job_status_str r = job_status_str q \<longleftrightarrow> r = q"
  by (metis job_status_from_str_iff sum.inject(2))

lemma state_columns_inject:
  "state_str s = state_str t \<and> parked_reason s = parked_reason t \<longleftrightarrow> s = t"
  by (cases s; cases t) auto

lemma from_parts_iff:
  "from_parts st reason = Inr s \<longleftrightarrow> st = state_str s \<and> reason = parked_reason s"
proof (cases "st = ''parked''")
  case True
  then show ?thesis
    by (cases reason; cases s) (auto simp: from_parts_def park_reason_from_str_iff result_simps)
next
  case False
  then show ?thesis
    by (cases reason; cases s) (auto simp: from_parts_def)
qed

subsection \<open>The table as a step relation\<close>

text \<open>
  One rule per row of the table, without the refusals: the relational reading that the
  state machine proofs invert. \<open>transition_iff_move\<close> shows the executable table has
  exactly these rows.
\<close>

inductive move :: "DeliveryState \<Rightarrow> DeliveryEvent \<Rightarrow> DeliveryState \<Rightarrow> bool" where
  claim: "move S_Pending E_Claim S_Claimed"
| cancel: "s \<in> {S_Pending, S_Claimed, S_InFlight, S_Processing} \<union> range S_Parked
    \<Longrightarrow> move s E_Cancel S_Cancelled"
| start: "move S_Claimed E_StartRemote S_InFlight"
| park_claimed: "r \<noteq> OutcomeUnresolvable \<Longrightarrow> move S_Claimed (E_Park r) (S_Parked r)"
| park_in_flight: "r \<in> {QuotaExceeded, AccountNeedsReconnect}
    \<Longrightarrow> move S_InFlight (E_Park r) (S_Parked r)"
| revalidation: "move S_Claimed E_RevalidationFailed S_Failed"
| claim_expired: "move S_Claimed E_LeaseExpired S_Pending"
| shutdown: "s \<in> {S_Claimed, S_InFlight} \<Longrightarrow> move s E_Shutdown S_Pending"
| published: "s \<in> {S_InFlight, S_Processing} \<Longrightarrow> move s E_Published S_Published"
| accepted: "move S_InFlight E_Accepted S_Processing"
| retryable: "move S_InFlight E_RetryableFailure S_Pending"
| budget: "s \<in> {S_InFlight, S_OutcomeUnknown} \<Longrightarrow> move s E_RetryBudgetExhausted S_DeadLetter"
| permanent: "s \<in> {S_InFlight, S_Processing} \<Longrightarrow> move s E_PermanentFailure S_Failed"
| ambiguous: "e \<in> {E_Ambiguous, E_LeaseExpired} \<Longrightarrow> move S_InFlight e S_OutcomeUnknown"
| simulated: "move S_InFlight E_Simulated S_Simulated"
| timeout: "move S_Processing E_ProcessingTimeout S_OutcomeUnknown"
| found: "move S_OutcomeUnknown E_ReconcileFound S_Published"
| absent: "move S_OutcomeUnknown E_ReconcileAbsent S_Pending"
| unresolvable: "move S_OutcomeUnknown E_ReconcileUnresolvable (S_Parked OutcomeUnresolvable)"
| retry_acknowledged: "s \<in> {S_OutcomeUnknown, S_Parked OutcomeUnresolvable}
    \<Longrightarrow> move s (E_UserRetry True) S_Pending"
| resolve: "s \<in> {S_OutcomeUnknown, S_Parked OutcomeUnresolvable, S_DeadLetter}
    \<Longrightarrow> move s (E_UserResolve o1) (resolved_state o1)"
| unpark: "r \<noteq> OutcomeUnresolvable \<Longrightarrow> move (S_Parked r) E_Unpark S_Pending"
| retry_parked: "r \<noteq> OutcomeUnresolvable \<Longrightarrow> move (S_Parked r) (E_UserRetry a) S_Pending"
| retry_ended: "s \<in> {S_DeadLetter, S_Failed} \<Longrightarrow> move s (E_UserRetry a) S_Pending"

inductive_simps move_simps:
  "move S_Pending e t"
  "move S_Claimed e t"
  "move S_InFlight e t"
  "move S_Processing e t"
  "move S_OutcomeUnknown e t"
  "move (S_Parked r) e t"
  "move S_Published e t"
  "move S_Failed e t"
  "move S_DeadLetter e t"
  "move S_Cancelled e t"
  "move S_Simulated e t"

inductive_cases move_elim: "move s e t"

lemma resolved_state_neq [simp]:
  "resolved_state o1 \<noteq> S_OutcomeUnknown"
  "S_InFlight \<noteq> resolved_state o1"
  "S_Claimed \<noteq> resolved_state o1"
  "S_Pending \<noteq> resolved_state o1"
  "resolved_state o1 \<noteq> S_Parked r"
  "resolved_state o1 \<noteq> S_DeadLetter"
  "resolved_state o1 \<noteq> S_Pending"
  "resolved_state o1 \<noteq> S_Claimed"
  "resolved_state o1 \<noteq> S_InFlight"
  "resolved_state o1 \<noteq> S_Processing"
  by (cases o1; simp)+

lemma transition_iff_move: "transition s e = Inr t \<longleftrightarrow> move s e t"
  by (cases s; cases e) (auto simp: transition_def move_simps)

lemma move_not_self: "move s e t \<Longrightarrow> t \<noteq> s"
  by (auto elim: move_elim)

section \<open>The life of a delivery\<close>

text \<open>
  A delivery's life is a sequence of accepted events from \<open>S_Pending\<close>. The flag beside
  the state is a specification of what is known about the platform: it is set when a call
  may have changed the platform and its effect is unknown, and cleared by the events that
  settle the question (reconciliation answered, the retry budget ran out after it answered,
  the user settled it by hand or took the risk of a duplicate).
\<close>

definition unsettled_after :: "DeliveryState \<Rightarrow> DeliveryEvent \<Rightarrow> bool \<Rightarrow> bool" where
  "unsettled_after s e u =
     (case e of
        E_Ambiguous \<Rightarrow> s = S_InFlight \<or> u
      | E_LeaseExpired \<Rightarrow> s = S_InFlight \<or> u
      | E_ProcessingTimeout \<Rightarrow> s = S_Processing \<or> u
      | E_ReconcileFound \<Rightarrow> False
      | E_ReconcileAbsent \<Rightarrow> False
      | E_RetryBudgetExhausted \<Rightarrow> False
      | E_UserResolve o1 \<Rightarrow> False
      | E_UserRetry ack \<Rightarrow> u \<and> \<not> ack
      | _ \<Rightarrow> u)"

inductive life :: "DeliveryState \<Rightarrow> bool \<Rightarrow> bool" where
  life_start: "life S_Pending False"
| life_step: "life s u \<Longrightarrow> transition s e = Inr t \<Longrightarrow> life t (unsettled_after s e u)"

fun run_events :: "DeliveryState \<Rightarrow> DeliveryEvent list \<Rightarrow> TransitionError + DeliveryState" where
  "run_events s [] = Inr s"
| "run_events s (e # es) = bindE (transition s e) (\<lambda>t. run_events t es)"

fun automatic :: "DeliveryEvent \<Rightarrow> bool" where
  "automatic E_Cancel = False"
| "automatic (E_UserRetry a) = False"
| "automatic (E_UserResolve o1) = False"
| "automatic e = True"

lemma unsettled_after_move:
  assumes "move s e t"
    and "u \<longrightarrow> s \<in> {S_OutcomeUnknown, S_Parked OutcomeUnresolvable, S_Cancelled}"
    and "unsettled_after s e u"
  shows "t \<in> {S_OutcomeUnknown, S_Parked OutcomeUnresolvable, S_Cancelled}"
  using assms by (cases rule: move.cases) (auto simp: unsettled_after_def)

lemma life_unsettled:
  assumes "life s u"
  shows "u \<longrightarrow> s \<in> {S_OutcomeUnknown, S_Parked OutcomeUnresolvable, S_Cancelled}"
  using assms
proof (induction rule: life.induct)
  case life_start
  show ?case by simp
next
  case (life_step s u e t)
  then show ?case
    using unsettled_after_move [of s e t u] by (auto simp: transition_iff_move)
qed

section \<open>Properties\<close>

text \<open>
  C30: while the outcome of a delivery's last platform call is unsettled, the delivery is
  outcome-unknown, parked as unresolvable, or cancelled. So no delivery waits for a worker,
  is claimed, or is in flight again while an earlier call may have left a post on the
  platform that nobody has accounted for: a resend needs a reconcile that found nothing or
  the user's acknowledgement.
\<close>

theorem unsettled_never_resent:
  assumes "life s True"
  shows "s \<in> {S_OutcomeUnknown, S_Parked OutcomeUnresolvable, S_Cancelled}"
  using life_unsettled [OF assms] by simp

theorem unsettled_never_resent_witness:
  "life S_OutcomeUnknown True
   \<and> S_OutcomeUnknown \<in> {S_OutcomeUnknown, S_Parked OutcomeUnresolvable, S_Cancelled}"
proof -
  have "life S_Claimed False"
    using life_step [OF life_start, of E_Claim] by (simp add: transition_def unsettled_after_def)
  then have "life S_InFlight False"
    using life_step [of S_Claimed False E_StartRemote]
    by (simp add: transition_def unsettled_after_def)
  then have "life S_OutcomeUnknown True"
    using life_step [of S_InFlight False E_LeaseExpired]
    by (simp add: transition_def unsettled_after_def)
  then show ?thesis using unsettled_never_resent [of S_OutcomeUnknown] by blast
qed

text \<open>
  A terminal delivery never moves by itself. Published, cancelled and simulated
  deliveries accept no event at all; a failed one only a user retry, a dead letter only a
  user retry or the user's resolution.
\<close>

theorem terminal_states_are_final:
  assumes "is_terminal s" and "transition s e = Inr t"
  shows "(s = S_Failed \<or> s = S_DeadLetter) \<and> (\<exists>a. e = E_UserRetry a) \<and> t = S_Pending
       \<or> s = S_DeadLetter \<and> (\<exists>o1. e = E_UserResolve o1 \<and> t = resolved_state o1)"
  using assms by (cases s) (auto simp: transition_iff_move move_simps)

theorem terminal_states_are_final_witness:
  "is_terminal S_DeadLetter \<and> transition S_DeadLetter (E_UserResolve R_Failed) = Inr S_Failed
   \<and> ((S_DeadLetter = S_Failed \<or> S_DeadLetter = S_DeadLetter)
        \<and> (\<exists>a. E_UserResolve R_Failed = E_UserRetry a) \<and> S_Failed = S_Pending
      \<or> S_DeadLetter = S_DeadLetter
        \<and> (\<exists>o1. E_UserResolve R_Failed = E_UserResolve o1 \<and> S_Failed = resolved_state o1))"
proof -
  have 1: "is_terminal S_DeadLetter" by simp
  have 2: "transition S_DeadLetter (E_UserResolve R_Failed) = Inr S_Failed"
    by (simp add: transition_def)
  show ?thesis using 1 2 terminal_states_are_final [OF 1 2] by blast
qed

text \<open>
  C31: the acknowledgement is asked for exactly when an unacknowledged user retry meets a
  delivery whose post may already be live, and every other refusal names the pair it
  refused.
\<close>

theorem refusals_are_exact:
  "(transition s e = Inl AcknowledgementRequired \<longleftrightarrow>
      (s = S_OutcomeUnknown \<or> s = S_Parked OutcomeUnresolvable) \<and> e = E_UserRetry False)
   \<and> (transition s e = Inl (NotAllowed s' e') \<longleftrightarrow>
      s' = s \<and> e' = e \<and> transition s e \<noteq> Inl AcknowledgementRequired \<and> (\<nexists>t. move s e t))"
  by (cases s; cases e) (auto simp: transition_def move_simps)

text \<open>
  C32: no delivery can get stuck: from every state that has not ended, except the parked one
  that only the user settles, at most four automatic events lead to an ended state.
\<close>

theorem every_delivery_can_end:
  assumes "\<not> is_terminal s" and "s \<noteq> S_Parked OutcomeUnresolvable"
  shows "\<exists>es t. length es \<le> 4 \<and> list_all automatic es \<and> run_events s es = Inr t \<and> is_terminal t"
proof -
  have go: "\<exists>es t. length es \<le> 4 \<and> list_all automatic es \<and> run_events s es = Inr t \<and> is_terminal t"
    if "length es \<le> 4" "list_all automatic es" "run_events s es = Inr S_Published" for es
    using that by (intro exI [of _ es] exI [of _ S_Published]) simp
  show ?thesis
  proof (cases s)
    case S_Pending
    then show ?thesis
      by (intro go [of "[E_Claim, E_StartRemote, E_Published]"]) (simp_all add: transition_def)
  next
    case S_Claimed
    then show ?thesis
      by (intro go [of "[E_StartRemote, E_Published]"]) (simp_all add: transition_def)
  next
    case S_InFlight
    then show ?thesis by (intro go [of "[E_Published]"]) (simp_all add: transition_def)
  next
    case S_Processing
    then show ?thesis by (intro go [of "[E_Published]"]) (simp_all add: transition_def)
  next
    case S_OutcomeUnknown
    then show ?thesis by (intro go [of "[E_ReconcileFound]"]) (simp_all add: transition_def)
  next
    case (S_Parked r)
    with assms(2) show ?thesis
      by (intro go [of "[E_Unpark, E_Claim, E_StartRemote, E_Published]"])
        (simp_all add: transition_def)
  qed (use assms(1) in simp_all)
qed

theorem every_delivery_can_end_witness:
  "\<not> is_terminal (S_Parked QuotaExceeded) \<and> S_Parked QuotaExceeded \<noteq> S_Parked OutcomeUnresolvable
   \<and> (\<exists>es t. length es \<le> 4 \<and> list_all automatic es
        \<and> run_events (S_Parked QuotaExceeded) es = Inr t \<and> is_terminal t)"
  using every_delivery_can_end [of "S_Parked QuotaExceeded"] by simp

text \<open>
  C33: the two stored columns and the state determine each other. A stored pair decodes to a
  state exactly when it is that state's own pair, so every state survives the round trip, no
  two states share a pair, a parked state needs a reason and no other state may carry one.
\<close>

theorem stored_state_round_trip:
  "(from_parts st reason = Inr s) = (st = state_str s \<and> reason = parked_reason s)"
  by (rule from_parts_iff)

lemma derive_job_status_ended:
  "derive_job_status ds now \<in> {J_Scheduled, J_Publishing}
   \<longleftrightarrow> list_ex (\<lambda>d. \<not> is_terminal (dv_state d)) ds"
  by (auto simp: derive_job_status_def list_all_iff list_ex_iff)

lemma went_out_terminal: "went_out d \<Longrightarrow> is_terminal (dv_state d)"
  by (auto simp: went_out_def)

lemma cancelled_not_out: "dv_state d = S_Cancelled \<Longrightarrow> \<not> went_out d"
  by (simp add: went_out_def)

text \<open>
  C34: what each job status says of the job's deliveries. A job is published when every
  delivery went out, cancelled when every one was cancelled, partial when all ended and some
  but not all went out, failed when all ended and none went out without all being cancelled
  (or there are none), scheduled when some delivery has not ended and all of these wait for
  their time, and publishing otherwise.
\<close>

theorem derive_job_status_meaning:
  "derive_job_status ds now = st \<longleftrightarrow>
   (case st of
      J_Published \<Rightarrow> ds \<noteq> [] \<and> list_all went_out ds
    | J_Cancelled \<Rightarrow> ds \<noteq> [] \<and> list_all (\<lambda>d. dv_state d = S_Cancelled) ds
    | J_Partial \<Rightarrow> list_all (\<lambda>d. is_terminal (dv_state d)) ds
        \<and> list_ex went_out ds \<and> list_ex (\<lambda>d. \<not> went_out d) ds
    | J_Failed \<Rightarrow> list_all (\<lambda>d. is_terminal (dv_state d)) ds \<and> \<not> list_ex went_out ds
        \<and> (ds = [] \<or> list_ex (\<lambda>d. dv_state d \<noteq> S_Cancelled) ds)
    | J_Scheduled \<Rightarrow> list_ex (\<lambda>d. \<not> is_terminal (dv_state d)) ds \<and> list_all (waiting now) ds
    | J_Publishing \<Rightarrow> list_ex (\<lambda>d. \<not> is_terminal (dv_state d)) ds
        \<and> list_ex (\<lambda>d. \<not> waiting now d) ds)"
proof (cases "ds = []")
  case True
  then show ?thesis by (cases st) (simp_all add: derive_job_status_def)
next
  case False
  then obtain d where d: "d \<in> set ds" by (cases ds) auto
  have 1: "list_all went_out ds \<Longrightarrow> list_all (\<lambda>d. is_terminal (dv_state d)) ds"
    by (auto simp: list_all_iff went_out_terminal)
  have 2: "list_all (\<lambda>d. dv_state d = S_Cancelled) ds \<Longrightarrow>
      list_all (\<lambda>d. is_terminal (dv_state d)) ds \<and> \<not> list_ex went_out ds"
    by (auto simp: list_all_iff list_ex_iff cancelled_not_out)
  show ?thesis
    using False d 1 2
    by (cases st) (auto simp: derive_job_status_def list_all_iff list_ex_iff)
qed

end
