(* ===== verification/Agent_Error.thy ===== *)
theory Agent_Error
  imports Text
begin

text \<open>
  What can go wrong when talking to a platform and how the engine reacts: the model of
  \<^verbatim>\<open>backend/crates/core/src/error.rs\<close>, with the violation data of
  \<^verbatim>\<open>core/src/validation/violation.rs\<close> and the receipts of \<^verbatim>\<open>core/src/receipt.rs\<close> that
  agent calls carry.
\<close>

section \<open>Violations\<close>

datatype ViolationCode =
    ScheduleInPast | NativeScheduleOutsideWindow | FormatUnsupported | TextRequired
  | TextTooLong | MediaRequired | MediaCount | MediaMissing | MediaKindNotAllowed
  | MediaTypeNotAllowed | MediaTooLarge | MediaDimensions | MediaAspectRatio
  | MediaDuration | MediaNotReady | ReplyToRequired | ReplyToNotAllowed
  | OverrideMediaNotInPost | OverrideMediaDuplicate | EmailDocumentRequired
  | EmailSubjectRequired | EmailTooLarge | EmailPostalAddressRequired
  | EmailMergeTagInvalid | OptionUnknown | OptionRequired | OptionType
  | OptionNotAllowed | OptionTooShort | OptionTooLong | OptionOutOfRange
  | OptionConsentRequired | AgentRule

fun violation_code_str :: "ViolationCode \<Rightarrow> string" where
  "violation_code_str ScheduleInPast = ''schedule_in_past''"
| "violation_code_str NativeScheduleOutsideWindow = ''native_schedule_outside_window''"
| "violation_code_str FormatUnsupported = ''format_unsupported''"
| "violation_code_str TextRequired = ''text_required''"
| "violation_code_str TextTooLong = ''text_too_long''"
| "violation_code_str MediaRequired = ''media_required''"
| "violation_code_str MediaCount = ''media_count''"
| "violation_code_str MediaMissing = ''media_missing''"
| "violation_code_str MediaKindNotAllowed = ''media_kind_not_allowed''"
| "violation_code_str MediaTypeNotAllowed = ''media_type_not_allowed''"
| "violation_code_str MediaTooLarge = ''media_too_large''"
| "violation_code_str MediaDimensions = ''media_dimensions''"
| "violation_code_str MediaAspectRatio = ''media_aspect_ratio''"
| "violation_code_str MediaDuration = ''media_duration''"
| "violation_code_str MediaNotReady = ''media_not_ready''"
| "violation_code_str ReplyToRequired = ''reply_to_required''"
| "violation_code_str ReplyToNotAllowed = ''reply_to_not_allowed''"
| "violation_code_str OverrideMediaNotInPost = ''override_media_not_in_post''"
| "violation_code_str OverrideMediaDuplicate = ''override_media_duplicate''"
| "violation_code_str EmailDocumentRequired = ''email_document_required''"
| "violation_code_str EmailSubjectRequired = ''email_subject_required''"
| "violation_code_str EmailTooLarge = ''email_too_large''"
| "violation_code_str EmailPostalAddressRequired = ''email_postal_address_required''"
| "violation_code_str EmailMergeTagInvalid = ''email_merge_tag_invalid''"
| "violation_code_str OptionUnknown = ''option_unknown''"
| "violation_code_str OptionRequired = ''option_required''"
| "violation_code_str OptionType = ''option_type''"
| "violation_code_str OptionNotAllowed = ''option_not_allowed''"
| "violation_code_str OptionTooShort = ''option_too_short''"
| "violation_code_str OptionTooLong = ''option_too_long''"
| "violation_code_str OptionOutOfRange = ''option_out_of_range''"
| "violation_code_str OptionConsentRequired = ''option_consent_required''"
| "violation_code_str AgentRule = ''agent_rule''"

record AspectRatio =
  ar_width :: nat
  ar_height :: nat

datatype SuggestedFix =
    Fit AspectRatio
  | Trim nat
  | RemoveMedia "nat option"
  | ShortenText nat

record Violation =
  v_code :: ViolationCode
  v_path :: "string option"
  v_params :: "(string \<times> json) list"
  v_fix :: "SuggestedFix option"

section \<open>Agent errors\<close>

datatype AgentCapability =
    Commenter | InboxReader | MetricsReader | DirectSender | NativeScheduler | SenderDomainCheck

fun capability_debug :: "AgentCapability \<Rightarrow> string" where
  "capability_debug Commenter = ''Commenter''"
| "capability_debug InboxReader = ''InboxReader''"
| "capability_debug MetricsReader = ''MetricsReader''"
| "capability_debug DirectSender = ''DirectSender''"
| "capability_debug NativeScheduler = ''NativeScheduler''"
| "capability_debug SenderDomainCheck = ''SenderDomainCheck''"

datatype AgentError =
    Authentication string
  | AccountUnreachable string
  | Authorization "string list"
  | InvalidCredentials "string option"
  | Validation "Violation list"
  | RateLimited "duration option"
  | Quota string "timestamp option"
  | Transport string
  | Unsupported AgentCapability
  | Remote "nat option" "string option" string
  | OutcomeUnknown string
  | AgentCancelled

datatype RetryClass =
    RC_Retryable
  | RC_RetryAfter duration
  | RC_Permanent
  | RC_NeedsReconnect
  | RC_QuotaExceeded
  | RC_Ambiguous
  | RC_Cancelled

fun retry_class_str :: "RetryClass \<Rightarrow> string" where
  "retry_class_str RC_Retryable = ''retryable''"
| "retry_class_str (RC_RetryAfter _) = ''retry_after''"
| "retry_class_str RC_Permanent = ''permanent''"
| "retry_class_str RC_NeedsReconnect = ''needs_reconnect''"
| "retry_class_str RC_QuotaExceeded = ''quota_exceeded''"
| "retry_class_str RC_Ambiguous = ''ambiguous''"
| "retry_class_str RC_Cancelled = ''cancelled''"

fun error_code :: "AgentError \<Rightarrow> string" where
  "error_code (Authentication _) = ''authentication''"
| "error_code (AccountUnreachable _) = ''account_unreachable''"
| "error_code (Authorization _) = ''authorization''"
| "error_code (InvalidCredentials _) = ''invalid_credentials''"
| "error_code (Validation _) = ''validation''"
| "error_code (RateLimited _) = ''rate_limited''"
| "error_code (Quota _ _) = ''quota''"
| "error_code (Transport _) = ''transport''"
| "error_code (Unsupported _) = ''unsupported''"
| "error_code (Remote _ _ _) = ''remote''"
| "error_code (OutcomeUnknown _) = ''outcome_unknown''"
| "error_code AgentCancelled = ''cancelled''"

fun retry_class :: "AgentError \<Rightarrow> RetryClass" where
  "retry_class (Authentication _) = RC_NeedsReconnect"
| "retry_class (AccountUnreachable _) = RC_NeedsReconnect"
| "retry_class (Authorization _) = RC_Permanent"
| "retry_class (InvalidCredentials _) = RC_Permanent"
| "retry_class (Validation _) = RC_Permanent"
| "retry_class (Unsupported _) = RC_Permanent"
| "retry_class (RateLimited (Some after)) = RC_RetryAfter after"
| "retry_class (RateLimited None) = RC_Retryable"
| "retry_class (Transport _) = RC_Retryable"
| "retry_class (Quota _ _) = RC_QuotaExceeded"
| "retry_class (Remote status _ _) =
     (case status of
        None \<Rightarrow> RC_Retryable
      | Some code \<Rightarrow>
          if code = 501 \<or> code = 505 then RC_Permanent
          else if code = 429 \<or> 500 \<le> code then RC_Retryable
          else RC_Permanent)"
| "retry_class (OutcomeUnknown _) = RC_Ambiguous"
| "retry_class AgentCancelled = RC_Cancelled"

text \<open>The text of an error (its \<^verbatim>\<open>Display\<close>).\<close>

fun agent_error_display :: "AgentError \<Rightarrow> string" where
  "agent_error_display (Authentication m) = ''authentication failed: '' @ m"
| "agent_error_display (AccountUnreachable m) = ''account unreachable: '' @ m"
| "agent_error_display (Authorization scopes) = ''missing permissions: '' @ join '', '' scopes"
| "agent_error_display (InvalidCredentials f) =
     ''invalid credentials'' @ (case f of None \<Rightarrow> [] | Some x \<Rightarrow> '' ('' @ x @ '')'')"
| "agent_error_display (Validation vs) =
     ''validation failed with '' @ decimal (length vs) @ '' violation(s)''"
| "agent_error_display (RateLimited _) = ''rate limited''"
| "agent_error_display (Quota b _) = ''quota exhausted: '' @ b"
| "agent_error_display (Transport m) = ''transport error: '' @ m"
| "agent_error_display (Unsupported c) = capability_debug c @ '' is not supported''"
| "agent_error_display (Remote status _ m) =
     ''remote error'' @ (case status of None \<Rightarrow> [] | Some s \<Rightarrow> '' '' @ decimal s) @ '': '' @ m"
| "agent_error_display (OutcomeUnknown m) = ''outcome unknown: '' @ m"
| "agent_error_display AgentCancelled = ''cancelled at a safe checkpoint''"

definition after_send :: "AgentError \<Rightarrow> AgentError" where
  "after_send e =
     (let refused = (case e of
            RateLimited _ \<Rightarrow> True
          | Remote status _ _ \<Rightarrow> status = Some 429
          | _ \<Rightarrow> False)
      in if refused \<or> retry_class e \<noteq> RC_Retryable then e
         else OutcomeUnknown (agent_error_display e))"

section \<open>Receipts and outcomes\<close>

record PublishReceipt =
  pr_remote_id :: "string option"
  pr_remote_url :: "string option"
  pr_container_ref :: "string option"
  pr_remote_publish_at :: "timestamp option"

datatype PublishOutcome =
    PO_Published PublishReceipt
  | PO_Processing PublishReceipt
  | PO_Simulated "string list"

datatype ReconcileOutcome =
    RO_Found PublishReceipt
  | RO_Absent
  | RO_Unresolvable

text \<open>
  C35: once a request may have reached the platform, no error is retried blindly. An error
  mapped by \<open>after_send\<close> is only retryable when the platform itself refused the request by
  rate limiting; every other retryable failure becomes an unknown outcome, which the engine
  reconciles, and errors that are not retryable are returned unchanged.
\<close>

theorem after_send_never_blindly_retryable:
  "(retry_class (after_send e) = RC_Retryable \<longleftrightarrow>
      e = RateLimited None \<or> (\<exists>c m. e = Remote (Some 429) c m))
   \<and> (after_send e = e \<or> retry_class e = RC_Retryable \<and> retry_class (after_send e) = RC_Ambiguous)"
  by (cases e rule: retry_class.cases)
    (auto simp: after_send_def Let_def split: option.splits if_splits)

end
