(* ===== verification/Backoff.thy ===== *)
theory Backoff
  imports Prelude
begin

text \<open>
  How long the engine waits before trying a delivery again or asking the platform again: the
  model of \<^verbatim>\<open>backend/crates/publishing/src/backoff.rs\<close>. Durations are nanoseconds. The random
  generator of the \<^verbatim>\<open>rand\<close> crate is the parameter \<open>pick\<close>: \<open>pick c\<close> is what
  \<^verbatim>\<open>random_range(1..=c)\<close> returned.
\<close>

section \<open>Durations of the standard library\<close>

definition ns_per_ms :: nat where "ns_per_ms = 1000000"
definition ns_per_sec :: nat where "ns_per_sec = 1000000000"

abbreviation from_secs :: "nat \<Rightarrow> duration" where "from_secs n \<equiv> n * ns_per_sec"
abbreviation from_mins :: "nat \<Rightarrow> duration" where "from_mins n \<equiv> n * (60 * ns_per_sec)"
abbreviation from_hours :: "nat \<Rightarrow> duration" where "from_hours n \<equiv> n * (3600 * ns_per_sec)"

definition duration_max :: duration where
  "duration_max = (2 ^ 64 - 1) * 1000000000 + 999999999"

definition saturating_mul :: "duration \<Rightarrow> nat \<Rightarrow> duration" where
  "saturating_mul d k = min (d * k) duration_max"

definition u64_max :: nat where "u64_max = 2 ^ 64 - 1"

section \<open>The delays\<close>

definition RETRY_BASE :: duration where "RETRY_BASE = from_secs 30"
definition RETRY_MAX :: duration where "RETRY_MAX = from_mins 30"
definition POLL_BASE :: duration where "POLL_BASE = from_secs 15"
definition POLL_MAX :: duration where "POLL_MAX = from_mins 15"

definition doubled :: "duration \<Rightarrow> int \<Rightarrow> duration \<Rightarrow> duration" where
  "doubled base n mx =
     (let exponent = min (nat (max n 0)) 31
      in min (saturating_mul base (2 ^ exponent)) mx)"

definition retry_ceiling :: "int \<Rightarrow> duration" where
  "retry_ceiling attempt = doubled RETRY_BASE attempt RETRY_MAX"

definition retry_delay :: "(nat \<Rightarrow> nat) \<Rightarrow> int \<Rightarrow> duration" where
  "retry_delay pick attempt =
     (let ceiling = max (min (retry_ceiling attempt div ns_per_ms) u64_max) 1
      in pick ceiling * ns_per_ms)"

definition poll_delay :: "int \<Rightarrow> duration" where
  "poll_delay poll = doubled POLL_BASE poll POLL_MAX"

text \<open>What the documentation of \<^verbatim>\<open>random_range\<close> promises of a pick.\<close>

definition picks_in_range :: "(nat \<Rightarrow> nat) \<Rightarrow> bool" where
  "picks_in_range pick = (\<forall>c \<ge> 1. 1 \<le> pick c \<and> pick c \<le> c)"

lemmas backoff_consts =
  RETRY_BASE_def RETRY_MAX_def POLL_BASE_def POLL_MAX_def ns_per_sec_def ns_per_ms_def
  duration_max_def u64_max_def

section \<open>Properties\<close>

lemma doubled_closed_form:
  assumes "0 < base" and "base \<le> duration_max" and "mx \<le> duration_max" and "mx \<le> base * 2 ^ 31"
  shows "doubled base n mx = min mx (base * 2 ^ nat n)"
proof (cases "nat n \<le> 31")
  case True
  then have "min (nat (max n 0)) 31 = nat n" by auto
  then show ?thesis
    using assms(3) by (auto simp: doubled_def saturating_mul_def Let_def)
next
  case False
  then have "min (nat (max n 0)) 31 = 31" by auto
  then have "doubled base n mx = min (min (base * 2 ^ 31) duration_max) mx"
    by (simp add: doubled_def saturating_mul_def Let_def)
  moreover have "base * 2 ^ 31 \<le> base * 2 ^ nat n"
    using False by (intro mult_le_mono2 power_increasing) auto
  ultimately show ?thesis
    using assms(3,4) by linarith
qed

text \<open>
  The delays are what their documentation says, for every attempt number the type can
  hold: the retry ceiling is the smaller of thirty minutes and thirty seconds doubled once per
  attempt, a poll waits the smaller of fifteen minutes and fifteen seconds doubled once per
  poll, neither the shift cap of 31 nor the saturating product is ever visible, and both grow
  monotonically.
\<close>

theorem delays_double_up_to_their_cap:
  "retry_ceiling n = min (from_mins 30) (from_secs 30 * 2 ^ nat n)
   \<and> poll_delay n = min (from_mins 15) (from_secs 15 * 2 ^ nat n)
   \<and> retry_ceiling n \<le> retry_ceiling (n + int k)
   \<and> poll_delay n \<le> poll_delay (n + int k)"
proof -
  have r: "retry_ceiling m = min (from_mins 30) (from_secs 30 * 2 ^ nat m)" for m
    unfolding retry_ceiling_def
    by (subst doubled_closed_form) (simp_all add: backoff_consts)
  have p: "poll_delay m = min (from_mins 15) (from_secs 15 * 2 ^ nat m)" for m
    unfolding poll_delay_def
    by (subst doubled_closed_form) (simp_all add: backoff_consts)
  have mono: "(2::nat) ^ nat n \<le> 2 ^ nat (n + int k)"
    by (rule power_increasing) auto
  have m1: "min a (c * 2 ^ nat n) \<le> min a (c * 2 ^ nat (n + int k))" for a c :: nat
    using mult_le_mono2 [OF mono, of c] by linarith
  show ?thesis unfolding r p using m1 by blast
qed

lemma doubled_range:
  assumes "base \<le> mx" and "base \<le> duration_max"
  shows "base \<le> doubled base n mx" and "doubled base n mx \<le> mx"
proof -
  have "base \<le> base * 2 ^ k" for k :: nat by simp
  then show "base \<le> doubled base n mx"
    using assms by (auto simp: doubled_def saturating_mul_def Let_def)
  show "doubled base n mx \<le> mx" by (simp add: doubled_def Let_def)
qed

lemma retry_ceiling_range:
  "from_secs 30 \<le> retry_ceiling n" "retry_ceiling n \<le> from_mins 30"
  unfolding retry_ceiling_def
  using doubled_range [of RETRY_BASE RETRY_MAX n] by (simp_all add: backoff_consts)

lemma retry_delay_bounds:
  assumes "picks_in_range pick"
  shows "ns_per_ms \<le> retry_delay pick n \<and> retry_delay pick n \<le> retry_ceiling n"
proof -
  let ?c = "max (min (retry_ceiling n div ns_per_ms) u64_max) 1"
  have le: "?c \<le> retry_ceiling n div ns_per_ms"
    using retry_ceiling_range [of n] by (simp add: backoff_consts)
  have pick: "1 \<le> pick ?c" "pick ?c \<le> ?c"
    using assms by (simp_all add: picks_in_range_def)
  have "pick ?c * ns_per_ms \<le> (retry_ceiling n div ns_per_ms) * ns_per_ms"
    using pick(2) le by (meson le_trans mult_le_mono1)
  also have "\<dots> \<le> retry_ceiling n" by simp
  finally show ?thesis
    using pick(1) by (simp add: retry_delay_def Let_def)
qed

text \<open>
  A retry is strictly later than the failure that caused it and never later than its
  ceiling: for a generator that keeps its documented range, the delay lies between one
  millisecond and the ceiling of that attempt.
\<close>

theorem retry_delay_in_range:
  assumes "picks_in_range pick"
  shows "ns_per_ms \<le> retry_delay pick n \<and> retry_delay pick n \<le> retry_ceiling n"
  using assms by (rule retry_delay_bounds)

theorem retry_delay_in_range_witness:
  "picks_in_range (\<lambda>c. c) \<and> ns_per_ms \<le> retry_delay (\<lambda>c. c) 6
   \<and> retry_delay (\<lambda>c. c) 6 \<le> retry_ceiling 6"
proof -
  have "picks_in_range (\<lambda>c. c)" by (simp add: picks_in_range_def)
  then show ?thesis using retry_delay_in_range [of "\<lambda>c. c" 6] by simp
qed

end
