(* ===== verification/Scope.thy ===== *)
theory Scope
  imports Delivery
begin

text \<open>
  Who may act in whose workspace: the model of \<^verbatim>\<open>backend/crates/data/src/scope.rs\<close>. A
  delegation has a level and an account limit; \<open>require\<close> checks the level, and the account
  limit is applied both by queries (\<open>account_filter\<close>) and in memory (\<open>allows_account\<close>).
\<close>

datatype Level = L_View | L_Edit | L_Publish

fun level_rank :: "Level \<Rightarrow> nat" where
  "level_rank L_View = 0"
| "level_rank L_Edit = 1"
| "level_rank L_Publish = 2"

lemma level_rank_inject [simp]: "level_rank a = level_rank b \<longleftrightarrow> a = b"
  by (cases a; cases b) simp_all

text \<open>The derived order of the enum: the declaration order of its variants.\<close>

instantiation Level :: linorder
begin

definition less_eq_Level :: "Level \<Rightarrow> Level \<Rightarrow> bool" where
  "less_eq_Level a b = (level_rank a \<le> level_rank b)"

definition less_Level :: "Level \<Rightarrow> Level \<Rightarrow> bool" where
  "less_Level a b = (level_rank a < level_rank b)"

instance
  by standard (auto simp: less_eq_Level_def less_Level_def)

end

fun level_str :: "Level \<Rightarrow> string" where
  "level_str L_View = ''view''"
| "level_str L_Edit = ''edit''"
| "level_str L_Publish = ''publish''"

definition level_from_str :: "string \<Rightarrow> string + Level" where
  "level_from_str v =
     (if v = ''view'' then Inr L_View
      else if v = ''edit'' then Inr L_Edit
      else if v = ''publish'' then Inr L_Publish
      else Inl v)"

datatype AccountLimit = AllAccounts | OnlyAccounts "uuid list"

definition account_limit_only :: "uuid list \<Rightarrow> AccountLimit" where
  "account_limit_only ids = OnlyAccounts (remdups_adj (sort ids))"

datatype Access = Access_Owner | Access_Delegated uuid Level AccountLimit

datatype Capability = Cap_View | Cap_Edit | Cap_Publish | Cap_OwnerOnly

datatype ScopeError = InsufficientAccess | OwnerOnly

record OwnerScope =
  actor :: uuid
  owner :: uuid
  access :: Access

definition own :: "uuid \<Rightarrow> OwnerScope" where
  "own user = \<lparr>actor = user, owner = user, access = Access_Owner\<rparr>"

definition delegated :: "uuid \<Rightarrow> uuid \<Rightarrow> uuid \<Rightarrow> Level \<Rightarrow> AccountLimit \<Rightarrow> OwnerScope" where
  "delegated a o1 delegation level accounts =
     \<lparr>actor = a, owner = o1, access = Access_Delegated delegation level accounts\<rparr>"

definition require :: "OwnerScope \<Rightarrow> Capability \<Rightarrow> ScopeError + unit" where
  "require scope capability =
     (case access scope of
        Access_Owner \<Rightarrow> Inr ()
      | Access_Delegated d level accounts \<Rightarrow>
          (case capability of
             Cap_OwnerOnly \<Rightarrow> Inl OwnerOnly
           | Cap_View \<Rightarrow> if level \<ge> L_View then Inr () else Inl InsufficientAccess
           | Cap_Edit \<Rightarrow> if level \<ge> L_Edit then Inr () else Inl InsufficientAccess
           | Cap_Publish \<Rightarrow> if level \<ge> L_Publish then Inr () else Inl InsufficientAccess))"

definition account_filter :: "OwnerScope \<Rightarrow> uuid list option" where
  "account_filter scope =
     (case access scope of
        Access_Delegated d level (OnlyAccounts ids) \<Rightarrow> Some ids
      | _ \<Rightarrow> None)"

definition allows_account :: "OwnerScope \<Rightarrow> uuid \<Rightarrow> bool" where
  "allows_account scope account =
     (case access scope of
        Access_Delegated d level (OnlyAccounts ids) \<Rightarrow> account \<in> set ids
      | _ \<Rightarrow> True)"

text \<open>The \<^verbatim>\<open>($n::uuid[] IS NULL OR account_id = ANY($n))\<close> clause every scoped query carries.\<close>

definition filter_admits :: "uuid list option \<Rightarrow> uuid \<Rightarrow> bool" where
  "filter_admits ids account = (case ids of None \<Rightarrow> True | Some xs \<Rightarrow> account \<in> set xs)"

lemma filter_admits_iff [simp]:
  "filter_admits (account_filter scope) account = allows_account scope account"
  by (auto simp: filter_admits_def account_filter_def allows_account_def
      split: Access.splits AccountLimit.splits)

lemma level_from_str_iff: "level_from_str v = Inr l \<longleftrightarrow> v = level_str l"
  by (cases l) (auto simp: level_from_str_def)

lemma less_eq_Level_simps [simp]:
  "L_View \<le> l"
  "L_Publish \<le> l \<longleftrightarrow> l = L_Publish"
  "L_Edit \<le> l \<longleftrightarrow> l \<noteq> L_View"
  by (cases l; simp add: less_eq_Level_def)+

text \<open>
  C40: what a scope permits. The owner may do everything in every account. A delegate may do
  what its level reaches and nothing reserved for the owner, each refusal names its reason,
  permissions only grow with the level, and the account limit that queries apply is the one
  checked in memory: the deduplicated list admits exactly the accounts it was built from.
\<close>

theorem scope_permissions:
  "(require (own u) cap = Inr ())
   \<and> (require (delegated a u d l accs) cap =
        (if cap = Cap_OwnerOnly then Inl OwnerOnly
         else if (cap = Cap_Edit \<and> l = L_View) \<or> (cap = Cap_Publish \<and> l \<noteq> L_Publish)
         then Inl InsufficientAccess else Inr ()))
   \<and> allows_account (own u) acc
   \<and> allows_account (delegated a u d l (account_limit_only ids)) acc = (acc \<in> set ids)
   \<and> filter_admits (account_filter s) acc = allows_account s acc"
  by (cases cap; cases l)
    (auto simp: require_def own_def delegated_def allows_account_def account_limit_only_def
      less_eq_Level_def)

end
