(* ===== verification/Data_Error.thy ===== *)
theory Data_Error
  imports Scope Text
begin

text \<open>
  The errors of the data crate (\<^verbatim>\<open>backend/crates/data/src/error.rs\<close>) and the integer ranges of
  its columns. A database failure keeps a short text, which no code branches on.
\<close>

datatype DataError =
    DE_Sql string
  | DE_NotFound
  | DE_Conflict string
  | DE_VersionConflict
  | DE_PostLocked
  | DE_JobActive
  | DE_AccountConnectedElsewhere
  | DE_SendingMethodExists
  | DE_AccountNotInScope
  | DE_StorageQuotaExceeded int int
  | DE_Scope ScopeError
  | DE_VaultKeyBehind nat nat
  | DE_VaultKeyMissing nat
  | DE_RotationInProgress

definition i32_ok :: "int \<Rightarrow> bool" where
  "i32_ok n = (- (2 ^ 31) \<le> n \<and> n < 2 ^ 31)"

definition i64_ok :: "int \<Rightarrow> bool" where
  "i64_ok n = (- (2 ^ 63) \<le> n \<and> n < 2 ^ 63)"

text \<open>\<^verbatim>\<open>Value::as_i64\<close>.\<close>

definition as_i64 :: "json \<Rightarrow> int option" where
  "as_i64 v = (case v of JNumber n \<Rightarrow> if i64_ok n then Some n else None | _ \<Rightarrow> None)"

end
