(* ===== verification/Quota_Store.thy ===== *)
theory Quota_Store
  imports Data_Error
begin

text \<open>
  Usage buckets: the model of \<^verbatim>\<open>backend/crates/data/src/publishing/quota.rs\<close>. The account
  table has one row per account, platform, bucket and period, the deployment-wide table one per
  platform, bucket and period. A day is an integer. The columns \<^verbatim>\<open>id\<close> and \<^verbatim>\<open>updated_at\<close>
  are left out: nothing reads them. The two repositories share one contract, the locale
  \<open>quota_bucket\<close>, which is interpreted on both.
\<close>

section \<open>Tables\<close>

record AccountQuotaKey =
  qk_owner :: uuid
  qk_account :: uuid
  qk_platform :: string
  qk_bucket :: string
  qk_period_start :: int

record AppQuotaKey =
  ak_platform :: string
  ak_bucket :: string
  ak_period_start :: int

record quota_row =
  q_owner_id :: uuid
  q_account_id :: uuid
  q_platform_id :: string
  q_bucket :: string
  q_period_start :: int
  q_units_used :: int

record app_quota_row =
  aq_platform_id :: string
  aq_bucket :: string
  aq_period_start :: int
  aq_units_used :: int

record quota_db =
  platform_quota_usage :: "quota_row list"
  platform_app_quota_usage :: "app_quota_row list"

definition quota_key_matches :: "AccountQuotaKey \<Rightarrow> quota_row \<Rightarrow> bool" where
  "quota_key_matches k r =
     (q_account_id r = qk_account k \<and> q_platform_id r = qk_platform k
      \<and> q_bucket r = qk_bucket k \<and> q_period_start r = qk_period_start k)"

definition app_key_matches :: "AppQuotaKey \<Rightarrow> app_quota_row \<Rightarrow> bool" where
  "app_key_matches k r =
     (aq_platform_id r = ak_platform k \<and> aq_bucket r = ak_bucket k
      \<and> aq_period_start r = ak_period_start k)"

definition quota_row_of :: "AccountQuotaKey \<Rightarrow> int \<Rightarrow> quota_row" where
  "quota_row_of k n = \<lparr>q_owner_id = qk_owner k, q_account_id = qk_account k,
     q_platform_id = qk_platform k, q_bucket = qk_bucket k, q_period_start = qk_period_start k,
     q_units_used = n\<rparr>"

definition app_row_of :: "AppQuotaKey \<Rightarrow> int \<Rightarrow> app_quota_row" where
  "app_row_of k n = \<lparr>aq_platform_id = ak_platform k, aq_bucket = ak_bucket k,
     aq_period_start = ak_period_start k, aq_units_used = n\<rparr>"

section \<open>Operations\<close>

text \<open>
  \<^verbatim>\<open>INSERT ... SELECT ... WHERE cost <= limit ON CONFLICT DO UPDATE ... WHERE used + cost <= limit\<close>:
  no row is proposed when the cost alone is over the limit, a proposed row without a conflict is
  inserted, and one with a conflict updates the row in place when that stays within the limit.
\<close>

definition quota_reserve ::
  "('a quota_db_scheme) \<Rightarrow> AccountQuotaKey \<Rightarrow> int \<Rightarrow> int \<Rightarrow> DataError + bool \<times> ('a quota_db_scheme)" where
  "quota_reserve s k cost limit =
     (if limit = 0 \<or> cost \<le> 0 then Inr (True, s)
      else if \<not> cost \<le> limit then Inr (False, s)
      else (case find (quota_key_matches k) (platform_quota_usage s) of
          None \<Rightarrow> Inr (True,
            s\<lparr>platform_quota_usage := platform_quota_usage s @ [quota_row_of k cost]\<rparr>)
        | Some r \<Rightarrow>
            if \<not> i64_ok (q_units_used r + cost) then Inl (DE_Sql ''bigint out of range'')
            else if q_units_used r + cost \<le> limit
            then Inr (True, s\<lparr>platform_quota_usage := sql_update (quota_key_matches k)
                   (\<lambda>r. r\<lparr>q_units_used := q_units_used r + cost\<rparr>) (platform_quota_usage s)\<rparr>)
            else Inr (False, s)))"

definition quota_release :: "('a quota_db_scheme) \<Rightarrow> AccountQuotaKey \<Rightarrow> int \<Rightarrow> 'a quota_db_scheme" where
  "quota_release s k cost =
     s\<lparr>platform_quota_usage := sql_update (quota_key_matches k)
         (\<lambda>r. r\<lparr>q_units_used := max (q_units_used r - max cost 0) 0\<rparr>) (platform_quota_usage s)\<rparr>"

definition reserve_up_to ::
  "('a quota_db_scheme) \<Rightarrow> AccountQuotaKey \<Rightarrow> int \<Rightarrow> int \<Rightarrow> int \<times> ('a quota_db_scheme)" where
  "reserve_up_to s k want limit =
     (if limit = 0 \<or> want \<le> 0 then (max want 0, s)
      else
        let rows = (case find (quota_key_matches k) (platform_quota_usage s) of
              None \<Rightarrow> platform_quota_usage s @ [quota_row_of k 0]
            | Some r \<Rightarrow> platform_quota_usage s)
        in (case find (quota_key_matches k) rows of
              None \<Rightarrow> (0, s\<lparr>platform_quota_usage := rows\<rparr>)
            | Some o1 \<Rightarrow>
                let granted = min want (max (limit - q_units_used o1) 0)
                in (granted, s\<lparr>platform_quota_usage := sql_update (quota_key_matches k)
                      (\<lambda>r. r\<lparr>q_units_used := q_units_used o1 + granted\<rparr>) rows\<rparr>)))"

definition app_quota_reserve ::
  "('a quota_db_scheme) \<Rightarrow> AppQuotaKey \<Rightarrow> int \<Rightarrow> int \<Rightarrow> DataError + bool \<times> ('a quota_db_scheme)" where
  "app_quota_reserve s k cost limit =
     (if limit = 0 \<or> cost \<le> 0 then Inr (True, s)
      else if \<not> cost \<le> limit then Inr (False, s)
      else (case find (app_key_matches k) (platform_app_quota_usage s) of
          None \<Rightarrow> Inr (True,
            s\<lparr>platform_app_quota_usage := platform_app_quota_usage s @ [app_row_of k cost]\<rparr>)
        | Some r \<Rightarrow>
            if \<not> i64_ok (aq_units_used r + cost) then Inl (DE_Sql ''bigint out of range'')
            else if aq_units_used r + cost \<le> limit
            then Inr (True, s\<lparr>platform_app_quota_usage := sql_update (app_key_matches k)
                   (\<lambda>r. r\<lparr>aq_units_used := aq_units_used r + cost\<rparr>) (platform_app_quota_usage s)\<rparr>)
            else Inr (False, s)))"

definition app_quota_release :: "('a quota_db_scheme) \<Rightarrow> AppQuotaKey \<Rightarrow> int \<Rightarrow> 'a quota_db_scheme" where
  "app_quota_release s k cost =
     s\<lparr>platform_app_quota_usage := sql_update (app_key_matches k)
         (\<lambda>r. r\<lparr>aq_units_used := max (aq_units_used r - max cost 0) 0\<rparr>)
         (platform_app_quota_usage s)\<rparr>"

section \<open>The contract of a bucket\<close>

definition quota_used :: "('a quota_db_scheme) \<Rightarrow> AccountQuotaKey \<Rightarrow> int" where
  "quota_used s k = (case find (quota_key_matches k) (platform_quota_usage s) of
     None \<Rightarrow> 0 | Some r \<Rightarrow> q_units_used r)"

definition app_quota_used :: "('a quota_db_scheme) \<Rightarrow> AppQuotaKey \<Rightarrow> int" where
  "app_quota_used s k = (case find (app_key_matches k) (platform_app_quota_usage s) of
     None \<Rightarrow> 0 | Some r \<Rightarrow> aq_units_used r)"

text \<open>The check \<^verbatim>\<open>units_used >= 0\<close> of both tables.\<close>

definition quota_ok :: "('a quota_db_scheme) \<Rightarrow> bool" where
  "quota_ok s = (list_all (\<lambda>r. 0 \<le> q_units_used r) (platform_quota_usage s)
     \<and> list_all (\<lambda>r. 0 \<le> aq_units_used r) (platform_app_quota_usage s))"

text \<open>Two account keys name one bucket whatever their owner field: the unique key has no owner.\<close>

definition same_bucket :: "AccountQuotaKey \<Rightarrow> AccountQuotaKey \<Rightarrow> bool" where
  "same_bucket a b = (qk_account a = qk_account b \<and> qk_platform a = qk_platform b
     \<and> qk_bucket a = qk_bucket b \<and> qk_period_start a = qk_period_start b)"

definition same_app_bucket :: "AppQuotaKey \<Rightarrow> AppQuotaKey \<Rightarrow> bool" where
  "same_app_bucket a b = (ak_platform a = ak_platform b
     \<and> ak_bucket a = ak_bucket b \<and> ak_period_start a = ak_period_start b)"

datatype quota_op = Reserve int | Release int

text \<open>
  Any sequence of reservations and releases of one bucket under one limit, with the answers of
  the reservations. A failed statement leaves the tables as they were.
\<close>

fun quota_run ::
  "('s \<Rightarrow> 'k \<Rightarrow> int \<Rightarrow> int \<Rightarrow> 'e + bool \<times> 's) \<Rightarrow> ('s \<Rightarrow> 'k \<Rightarrow> int \<Rightarrow> 's)
   \<Rightarrow> 'k \<Rightarrow> int \<Rightarrow> 's \<Rightarrow> quota_op list \<Rightarrow> 's" where
  "quota_run res rel k limit s [] = s"
| "quota_run res rel k limit s (Reserve c # ops) =
     (case res s k c limit of
        Inl e \<Rightarrow> quota_run res rel k limit s ops
      | Inr (b, t) \<Rightarrow> quota_run res rel k limit t ops)"
| "quota_run res rel k limit s (Release c # ops) = quota_run res rel k limit (rel s k c) ops"

locale quota_bucket =
  fixes res :: "'s \<Rightarrow> 'k \<Rightarrow> int \<Rightarrow> int \<Rightarrow> DataError + bool \<times> 's"
    and rel :: "'s \<Rightarrow> 'k \<Rightarrow> int \<Rightarrow> 's"
    and used :: "'s \<Rightarrow> 'k \<Rightarrow> int"
    and same :: "'k \<Rightarrow> 'k \<Rightarrow> bool"
    and ok :: "'s \<Rightarrow> bool"
  assumes nonneg: "ok s \<Longrightarrow> 0 \<le> used s k"
    and free: "limit = 0 \<or> cost \<le> 0 \<Longrightarrow> res s k cost limit = Inr (True, s)"
    and granted: "res s k cost limit = Inr (True, t) \<Longrightarrow> limit \<noteq> 0 \<Longrightarrow> 0 < cost
      \<Longrightarrow> used t k = used s k + cost \<and> used t k \<le> limit"
    and refused: "ok s \<Longrightarrow> res s k cost limit = Inr (False, t) \<Longrightarrow> t = s \<and> limit < used s k + cost"
    and res_other: "res s k cost limit = Inr (b, t) \<Longrightarrow> \<not> same k j \<Longrightarrow> used t j = used s j"
    and res_ok: "ok s \<Longrightarrow> res s k cost limit = Inr (b, t) \<Longrightarrow> ok t"
    and released: "used (rel s k cost) k = (if used s k = 0 then 0 else max (used s k - max cost 0) 0)"
    and rel_other: "\<not> same k j \<Longrightarrow> used (rel s k cost) j = used s j"
    and rel_ok: "ok s \<Longrightarrow> ok (rel s k cost)"
begin

lemma reserve_then_release:
  assumes "ok s" and "res s k cost limit = Inr (True, t)" and "limit \<noteq> 0" and "0 < cost"
  shows "used (rel t k cost) k = used s k"
  using granted [OF assms(2-4)] nonneg [OF assms(1), of k] assms(4) by (simp add: released)

lemma release_le: "ok s \<Longrightarrow> used (rel s k c) k \<le> used s k"
  using nonneg [of s k] by (auto simp: released)

lemma reserve_le:
  assumes "ok s" and "0 < limit" and "used s k \<le> limit" and "res s k c limit = Inr (b, t)"
  shows "used t k \<le> limit"
proof (cases "c \<le> 0")
  case True
  then show ?thesis using free [of limit c s k] assms by auto
next
  case False
  then show ?thesis using granted [of s k c limit t] refused [of s k c limit t] assms by (cases b) auto
qed

lemma run_within_limit:
  assumes "ok s" and "0 < limit" and "used s k \<le> limit"
  shows "ok (quota_run res rel k limit s ops) \<and> 0 \<le> used (quota_run res rel k limit s ops) k
    \<and> used (quota_run res rel k limit s ops) k \<le> limit"
  using assms
proof (induction ops arbitrary: s)
  case Nil
  then show ?case using nonneg by simp
next
  case (Cons op ops)
  show ?case
  proof (cases op)
    case (Reserve c)
    then show ?thesis
      using Cons reserve_le [OF Cons.prems] res_ok [OF Cons.prems(1)]
      by (auto split: sum.splits)
  next
    case (Release c)
    then show ?thesis
      using Cons.IH [OF rel_ok [OF Cons.prems(1)]] Cons.prems release_le [OF Cons.prems(1), of k c]
      by simp
  qed
qed

lemma run_other:
  assumes "\<not> same k j"
  shows "used (quota_run res rel k limit s ops) j = used s j"
proof (induction ops arbitrary: s)
  case (Cons op ops)
  then show ?case
    using res_other [OF _ assms] rel_other [OF assms]
    by (cases op) (auto split: sum.splits)
qed simp

end

lemma find_SomeD: "find p xs = Some x \<Longrightarrow> x \<in> set xs \<and> p x"
  by (auto simp: find_Some_iff)

lemma find_append_None: "find p xs = None \<Longrightarrow> find p (xs @ ys) = find p ys"
  by (induction xs) (auto split: if_splits)

lemma find_append_Some: "find p xs = Some x \<Longrightarrow> find p (xs @ ys) = Some x"
  by (induction xs) (auto split: if_splits)

lemma find_append_other: "\<not> q y \<Longrightarrow> find q (xs @ [y]) = find q xs"
  by (induction xs) auto

lemma find_sql_update:
  assumes "\<And>r. p r \<Longrightarrow> q (f r) = q r"
  shows "find q (sql_update p f rows) = map_option (\<lambda>r. if p r then f r else r) (find q rows)"
  using assms by (induction rows) (auto simp: sql_update_def)

lemma quota_key_matches_row [simp]: "quota_key_matches j (quota_row_of k n) = same_bucket k j"
  by (auto simp: quota_key_matches_def quota_row_of_def same_bucket_def)

lemma row_of_used [simp]:
  "q_units_used (quota_row_of k n) = n"
  "aq_units_used (app_row_of j n) = n"
  by (simp_all add: quota_row_of_def app_row_of_def)

lemma quota_key_matches_upd [simp]:
  "quota_key_matches k (r\<lparr>q_units_used := n\<rparr>) = quota_key_matches k r"
  by (simp add: quota_key_matches_def)

lemma quota_keys_apart: "quota_key_matches k r \<Longrightarrow> quota_key_matches j r \<Longrightarrow> same_bucket k j"
  by (simp add: quota_key_matches_def same_bucket_def)

lemma same_bucket_refl [simp]: "same_bucket k k" "same_app_bucket j j"
  by (simp_all add: same_bucket_def same_app_bucket_def)

lemma app_key_matches_row [simp]: "app_key_matches j (app_row_of k n) = same_app_bucket k j"
  by (auto simp: app_key_matches_def app_row_of_def same_app_bucket_def)

lemma app_key_matches_upd [simp]:
  "app_key_matches k (r\<lparr>aq_units_used := n\<rparr>) = app_key_matches k r"
  by (simp add: app_key_matches_def)

lemma app_keys_apart: "app_key_matches k r \<Longrightarrow> app_key_matches j r \<Longrightarrow> same_app_bucket k j"
  by (simp add: app_key_matches_def same_app_bucket_def)

lemma quota_found_apart:
  "find (quota_key_matches j) rows = Some r \<Longrightarrow> quota_key_matches k r \<Longrightarrow> same_bucket k j"
  by (metis find_SomeD quota_keys_apart)

lemma app_found_apart:
  "find (app_key_matches j) rows = Some r \<Longrightarrow> app_key_matches k r \<Longrightarrow> same_app_bucket k j"
  by (metis find_SomeD app_keys_apart)

lemmas find_simps = find_append_None find_append_Some find_append_other find_sql_update

section \<open>Both repositories keep the contract\<close>

lemma quota_used_nonneg: "quota_ok s \<Longrightarrow> 0 \<le> quota_used s k"
  by (auto simp: quota_ok_def quota_used_def list_all_iff find_Some_iff split: option.splits)

lemma app_quota_used_nonneg: "quota_ok s \<Longrightarrow> 0 \<le> app_quota_used s k"
  by (auto simp: quota_ok_def app_quota_used_def list_all_iff find_Some_iff split: option.splits)

interpretation acct: quota_bucket quota_reserve quota_release quota_used same_bucket quota_ok
proof
  fix s t :: "'a quota_db_scheme" and k j :: AccountQuotaKey and limit cost :: int and b :: bool
  show "quota_ok s \<Longrightarrow> 0 \<le> quota_used s k" by (rule quota_used_nonneg)
  show "limit = 0 \<or> cost \<le> 0 \<Longrightarrow> quota_reserve s k cost limit = Inr (True, s)"
    by (simp add: quota_reserve_def)
  show "quota_reserve s k cost limit = Inr (True, t) \<Longrightarrow> limit \<noteq> 0 \<Longrightarrow> 0 < cost
      \<Longrightarrow> quota_used t k = quota_used s k + cost \<and> quota_used t k \<le> limit"
    by (auto simp: quota_reserve_def quota_used_def find_simps
        dest: find_SomeD split: if_splits option.splits)
  show "quota_ok s \<Longrightarrow> quota_reserve s k cost limit = Inr (False, t)
      \<Longrightarrow> t = s \<and> limit < quota_used s k + cost"
    using quota_used_nonneg [of s k]
    by (auto simp: quota_reserve_def quota_used_def split: if_splits option.splits)
  show "quota_reserve s k cost limit = Inr (b, t) \<Longrightarrow> \<not> same_bucket k j
      \<Longrightarrow> quota_used t j = quota_used s j"
    by (auto simp: quota_reserve_def quota_used_def find_simps dest: quota_found_apart
        split: if_splits option.splits)
  show "quota_ok s \<Longrightarrow> quota_reserve s k cost limit = Inr (b, t) \<Longrightarrow> quota_ok t"
    by (auto simp: quota_reserve_def quota_ok_def list_all_iff set_sql_update
        split: if_splits option.splits)
  show "quota_used (quota_release s k cost) k
      = (if quota_used s k = 0 then 0 else max (quota_used s k - max cost 0) 0)"
    by (auto simp: quota_release_def quota_used_def find_sql_update dest: find_SomeD
        split: option.splits)
  show "\<not> same_bucket k j \<Longrightarrow> quota_used (quota_release s k cost) j = quota_used s j"
    by (auto simp: quota_release_def quota_used_def find_sql_update dest: quota_found_apart
        split: option.splits)
  show "quota_ok s \<Longrightarrow> quota_ok (quota_release s k cost)"
    by (auto simp: quota_release_def quota_ok_def list_all_iff set_sql_update)
qed

interpretation app: quota_bucket app_quota_reserve app_quota_release app_quota_used same_app_bucket
  quota_ok
proof
  fix s t :: "'a quota_db_scheme" and k j :: AppQuotaKey and limit cost :: int and b :: bool
  show "quota_ok s \<Longrightarrow> 0 \<le> app_quota_used s k" by (rule app_quota_used_nonneg)
  show "limit = 0 \<or> cost \<le> 0 \<Longrightarrow> app_quota_reserve s k cost limit = Inr (True, s)"
    by (simp add: app_quota_reserve_def)
  show "app_quota_reserve s k cost limit = Inr (True, t) \<Longrightarrow> limit \<noteq> 0 \<Longrightarrow> 0 < cost
      \<Longrightarrow> app_quota_used t k = app_quota_used s k + cost \<and> app_quota_used t k \<le> limit"
    by (auto simp: app_quota_reserve_def app_quota_used_def find_simps
        dest: find_SomeD split: if_splits option.splits)
  show "quota_ok s \<Longrightarrow> app_quota_reserve s k cost limit = Inr (False, t)
      \<Longrightarrow> t = s \<and> limit < app_quota_used s k + cost"
    using app_quota_used_nonneg [of s k]
    by (auto simp: app_quota_reserve_def app_quota_used_def split: if_splits option.splits)
  show "app_quota_reserve s k cost limit = Inr (b, t) \<Longrightarrow> \<not> same_app_bucket k j
      \<Longrightarrow> app_quota_used t j = app_quota_used s j"
    by (auto simp: app_quota_reserve_def app_quota_used_def find_simps
        dest: app_found_apart split: if_splits option.splits)
  show "quota_ok s \<Longrightarrow> app_quota_reserve s k cost limit = Inr (b, t) \<Longrightarrow> quota_ok t"
    by (auto simp: app_quota_reserve_def quota_ok_def list_all_iff set_sql_update
        split: if_splits option.splits)
  show "app_quota_used (app_quota_release s k cost) k
      = (if app_quota_used s k = 0 then 0 else max (app_quota_used s k - max cost 0) 0)"
    by (auto simp: app_quota_release_def app_quota_used_def find_sql_update dest: find_SomeD
        split: option.splits)
  show "\<not> same_app_bucket k j \<Longrightarrow> app_quota_used (app_quota_release s k cost) j = app_quota_used s j"
    by (auto simp: app_quota_release_def app_quota_used_def find_sql_update
        dest: app_found_apart split: option.splits)
  show "quota_ok s \<Longrightarrow> quota_ok (app_quota_release s k cost)"
    by (auto simp: app_quota_release_def quota_ok_def list_all_iff set_sql_update)
qed

section \<open>Properties\<close>

text \<open>
  C37: no interleaving of reservations and releases takes an account's bucket over its limit, or
  below zero, and none touches another bucket.
\<close>

theorem account_quota_never_exceeded:
  assumes "quota_ok s" and "0 < limit" and "quota_used s k \<le> limit" and "\<not> same_bucket k j"
  shows "0 \<le> quota_used (quota_run quota_reserve quota_release k limit s ops) k
    \<and> quota_used (quota_run quota_reserve quota_release k limit s ops) k \<le> limit
    \<and> quota_used (quota_run quota_reserve quota_release k limit s ops) j = quota_used s j"
  using acct.run_within_limit [OF assms(1-3)] acct.run_other [OF assms(4)] by simp

lemma reserve_up_to_charge:
  assumes "quota_ok s" and "0 < limit" and "0 < want" and run: "reserve_up_to s k want limit = (n, t)"
  shows "n = min want (max (limit - quota_used s k) 0) \<and> quota_used t k = quota_used s k + n
    \<and> quota_ok t"
proof (cases "find (quota_key_matches k) (platform_quota_usage s)")
  case None
  have n: "n = min want limit"
    and t: "t = s\<lparr>platform_quota_usage := sql_update (quota_key_matches k)
              (\<lambda>r. r\<lparr>q_units_used := min want limit\<rparr>)
              (platform_quota_usage s @ [quota_row_of k 0])\<rparr>"
    using assms(2,3) run None by (auto simp: reserve_up_to_def Let_def find_simps)
  have "quota_ok t"
    using assms(1-3) by (auto simp: t quota_ok_def list_all_iff set_sql_update)
  then show ?thesis
    using None assms(2) by (simp add: n quota_used_def) (simp add: t find_simps)
next
  case (Some r)
  let ?n = "min want (max (limit - q_units_used r) 0)"
  have n: "n = ?n"
    and t: "t = s\<lparr>platform_quota_usage := sql_update (quota_key_matches k)
              (\<lambda>q. q\<lparr>q_units_used := q_units_used r + ?n\<rparr>) (platform_quota_usage s)\<rparr>"
    using assms(2,3) run Some by (auto simp: reserve_up_to_def Let_def)
  have used: "quota_used s k = q_units_used r" using Some by (simp add: quota_used_def)
  have "quota_used t k = q_units_used r + ?n"
    using Some find_SomeD [OF Some] by (simp add: t quota_used_def find_simps)
  moreover have "quota_ok t"
    using assms(1,3) quota_used_nonneg [OF assms(1), of k]
    by (auto simp: t used quota_ok_def list_all_iff set_sql_update)
  ultimately show ?thesis by (simp add: n used)
qed

theorem account_quota_never_exceeded_witness:
  "let k = \<lparr>qk_owner = 1, qk_account = 2, qk_platform = ''x'', qk_bucket = ''posts'', qk_period_start = 5\<rparr>;
       s = \<lparr>platform_quota_usage = [quota_row_of k 2], platform_app_quota_usage = []\<rparr>;
       t = quota_run quota_reserve quota_release k 3 s [Reserve 1, Reserve 1, Release 2, Reserve 1]
   in quota_used t k = 2 \<and> 0 \<le> quota_used t k \<and> quota_used t k \<le> 3
      \<and> quota_used t (k\<lparr>qk_account := 7\<rparr>) = quota_used s (k\<lparr>qk_account := 7\<rparr>)"
proof -
  let ?k = "\<lparr>qk_owner = 1, qk_account = 2, qk_platform = ''x'', qk_bucket = ''posts'', qk_period_start = 5\<rparr>"
  let ?s = "\<lparr>platform_quota_usage = [quota_row_of ?k 2], platform_app_quota_usage = []\<rparr> :: quota_db"
  have "quota_used (quota_run quota_reserve quota_release ?k 3 ?s
      [Reserve 1, Reserve 1, Release 2, Reserve 1]) ?k = 2"
    by (simp add: quota_reserve_def quota_release_def quota_used_def sql_update_def i64_ok_def)
  then show ?thesis
    unfolding Let_def
    using account_quota_never_exceeded [of ?s 3 ?k "?k\<lparr>qk_account := 7\<rparr>"
        "[Reserve 1, Reserve 1, Release 2, Reserve 1]"]
    by (simp add: quota_ok_def quota_used_def same_bucket_def)
qed

text \<open>
  A partial reservation grants a number of units between none and what was asked, charges
  exactly those, never takes the bucket over its limit, and stops short of the request only when
  the bucket is then used up.
\<close>

theorem reserve_up_to_grants_what_is_left:
  assumes "quota_ok s" and "0 < limit" and "0 \<le> want" and "reserve_up_to s k want limit = (n, t)"
  shows "0 \<le> n \<and> n \<le> want \<and> quota_used t k = quota_used s k + n
    \<and> quota_used t k \<le> max limit (quota_used s k) \<and> (n < want \<longrightarrow> limit \<le> quota_used t k) \<and> quota_ok t"
proof (cases "want = 0")
  case True
  then show ?thesis using assms quota_used_nonneg by (auto simp: reserve_up_to_def)
next
  case False
  then show ?thesis
    using reserve_up_to_charge [OF assms(1,2) _ assms(4)] assms(3) by auto
qed

theorem reserve_up_to_grants_what_is_left_witness:
  "let k = \<lparr>qk_owner = 1, qk_account = 2, qk_platform = ''x'', qk_bucket = ''cap'', qk_period_start = 5\<rparr>;
       s = \<lparr>platform_quota_usage = [quota_row_of k 7], platform_app_quota_usage = []\<rparr>;
       (n, t) = reserve_up_to s k 50 10
   in n = 3 \<and> quota_used t k = 10 \<and> quota_ok t"
proof -
  let ?k = "\<lparr>qk_owner = 1, qk_account = 2, qk_platform = ''x'', qk_bucket = ''cap'', qk_period_start = 5\<rparr>"
  let ?s = "\<lparr>platform_quota_usage = [quota_row_of ?k 7], platform_app_quota_usage = []\<rparr> :: quota_db"
  obtain n t where run: "reserve_up_to ?s ?k 50 10 = (n, t)" by (metis surj_pair)
  have "n = 3" using run by (auto simp: reserve_up_to_def Let_def)
  moreover have "quota_used ?s ?k = 7" by (simp add: quota_used_def)
  ultimately show ?thesis
    using reserve_up_to_grants_what_is_left [OF _ _ _ run] run by (simp add: quota_ok_def)
qed

end
