(* ===== verification/Json.thy ===== *)
theory Json
  imports Data_Error Agent_Error
begin

text \<open>
  JSON objects and printed JSON as the core crate uses them. A \<^verbatim>\<open>serde_json::Map\<close> is an ordered
  map: its model is the list of its entries in the order of their keys, \<open>obj_insert\<close> keeps that
  order, and \<open>obj_remove\<close> takes an entry out. \<open>json_text\<close> is the compact form a value prints as.
  The builder of violations (\<^verbatim>\<open>Violation::new\<close>, \<^verbatim>\<open>at\<close>, \<^verbatim>\<open>param\<close>, \<^verbatim>\<open>fix\<close> of
  \<^verbatim>\<open>core/src/validation/violation.rs\<close>) and the messages of \<^verbatim>\<open>core/src/message.rs\<close> are here too.
\<close>

section \<open>Objects\<close>

type_synonym obj = "(string \<times> json) list"

text \<open>The byte order of strings.\<close>

fun str_less :: "string \<Rightarrow> string \<Rightarrow> bool" where
  "str_less [] ys = (ys \<noteq> [])"
| "str_less (x # xs) [] = False"
| "str_less (x # xs) (y # ys) =
     ((of_char x :: nat) < of_char y \<or> x = y \<and> str_less xs ys)"

fun obj_insert :: "string \<Rightarrow> 'v \<Rightarrow> (string \<times> 'v) list \<Rightarrow> (string \<times> 'v) list" where
  "obj_insert k v [] = [(k, v)]"
| "obj_insert k v ((a, x) # m) =
     (if k = a then (k, v) # m
      else if str_less k a then (k, v) # (a, x) # m
      else (a, x) # obj_insert k v m)"

definition obj_remove :: "string \<Rightarrow> obj \<Rightarrow> obj" where
  "obj_remove k m = filter (\<lambda>(a, x). a \<noteq> k) m"

definition insert_opt :: "string \<Rightarrow> ('a \<Rightarrow> json) \<Rightarrow> 'a option \<Rightarrow> obj \<Rightarrow> obj" where
  "insert_opt k f v m = (case v of None \<Rightarrow> m | Some x \<Rightarrow> obj_insert k (f x) m)"

lemma map_of_obj_insert [simp]: "map_of (obj_insert k v m) = (map_of m)(k \<mapsto> v)"
  by (induction k v m rule: obj_insert.induct) auto

lemma map_of_obj_remove [simp]: "map_of (obj_remove k m) = (map_of m)(k := None)"
  by (induction m) (auto simp: obj_remove_def)

lemma map_of_insert_opt:
  "map_of (insert_opt k f v m) = (case v of None \<Rightarrow> map_of m | Some x \<Rightarrow> (map_of m)(k \<mapsto> f x))"
  by (simp add: insert_opt_def split: option.split)

lemma map_of_insert_fresh:
  "map_of m k = None \<Longrightarrow> map_of (insert_opt k f v m) = (map_of m)(k := map_option f v)"
  by (auto simp: insert_opt_def fun_eq_iff split: option.split)

lemma obj_empty_iff: "m = [] \<longleftrightarrow> (\<forall>k. map_of m k = None)"
  by (cases m) auto

lemma keys_of: "fst ` set m = {k. map_of m k \<noteq> None}"
  by (induction m) (auto split: if_splits)

section \<open>Printed values\<close>

definition hex_digit :: "nat \<Rightarrow> char" where
  "hex_digit d = (if d < 10 then digit_char d else char_of (87 + d))"

definition json_escape :: "char \<Rightarrow> string" where
  "json_escape c =
     (let n = (of_char c :: nat)
      in if n = 34 then [char_of (92 :: nat), c]
         else if n = 92 then [c, c]
         else if n = 8 then [char_of (92 :: nat), CHR ''b'']
         else if n = 9 then [char_of (92 :: nat), CHR ''t'']
         else if n = 10 then [char_of (92 :: nat), CHR ''n'']
         else if n = 12 then [char_of (92 :: nat), CHR ''f'']
         else if n = 13 then [char_of (92 :: nat), CHR ''r'']
         else if n < 32 then [char_of (92 :: nat)] @ ''u00'' @ [hex_digit (n div 16), hex_digit (n mod 16)]
         else [c])"

definition json_quote :: "string \<Rightarrow> string" where
  "json_quote s = [char_of (34 :: nat)] @ concat (map json_escape s) @ [char_of (34 :: nat)]"

definition int_text :: "int \<Rightarrow> string" where
  "int_text n = (if n < 0 then ''-'' @ decimal (nat (- n)) else decimal (nat n))"

fun json_text :: "json \<Rightarrow> string" where
  "json_text JNull = ''null''"
| "json_text (JBool b) = (if b then ''true'' else ''false'')"
| "json_text (JNumber n) = int_text n"
| "json_text (JString s) = json_quote s"
| "json_text (JArray vs) = ''['' @ join '','' (map json_text vs) @ '']''"
| "json_text (JObject m) =
     ''{'' @ join '','' (map (\<lambda>(k, v). json_quote k @ '':'' @ json_text v) m) @ ''}''"

section \<open>Reading values\<close>

definition json_str :: "json \<Rightarrow> string option" where
  "json_str v = (case v of JString s \<Rightarrow> Some s | _ \<Rightarrow> None)"

definition json_bool :: "json \<Rightarrow> bool option" where
  "json_bool v = (case v of JBool b \<Rightarrow> Some b | _ \<Rightarrow> None)"

text \<open>\<^verbatim>\<open>Value::as_u64\<close>.\<close>

definition json_u64 :: "json \<Rightarrow> nat option" where
  "json_u64 v = (case v of JNumber n \<Rightarrow> if 0 \<le> n \<and> n < 2 ^ 64 then Some (nat n) else None | _ \<Rightarrow> None)"

definition json_num :: "nat \<Rightarrow> json" where
  "json_num n = JNumber (int n)"

section \<open>Messages\<close>

record Message =
  msg_key :: string
  msg_en :: string

definition message_json :: "Message \<Rightarrow> json" where
  "message_json m = JObject (obj_insert ''key'' (JString (msg_key m)) (obj_insert ''en'' (JString (msg_en m)) []))"

text \<open>A derived \<^verbatim>\<open>Deserialize\<close> reads an object, or an array of the fields in order.\<close>

definition message_of :: "json \<Rightarrow> Message option" where
  "message_of v =
     (case v of
        JObject m \<Rightarrow>
          Option.bind (Option.bind (map_of m ''key'') json_str) (\<lambda>k.
          Option.bind (Option.bind (map_of m ''en'') json_str) (\<lambda>e.
            Some \<lparr>msg_key = k, msg_en = e\<rparr>))
      | JArray [JString k, JString e] \<Rightarrow> Some \<lparr>msg_key = k, msg_en = e\<rparr>
      | _ \<Rightarrow> None)"

lemma message_of_json [simp]: "message_of (message_json m) = Some m"
  by (simp add: message_of_def message_json_def json_str_def)

section \<open>Building violations\<close>

definition violation_new :: "ViolationCode \<Rightarrow> Violation" where
  "violation_new code = \<lparr>v_code = code, v_path = None, v_params = [], v_fix = None\<rparr>"

definition at_path :: "string \<Rightarrow> Violation \<Rightarrow> Violation" where
  "at_path path v = v\<lparr>v_path := Some path\<rparr>"

definition param :: "string \<Rightarrow> json \<Rightarrow> Violation \<Rightarrow> Violation" where
  "param key value v = v\<lparr>v_params := obj_insert key value (v_params v)\<rparr>"

definition with_fix :: "SuggestedFix \<Rightarrow> Violation \<Rightarrow> Violation" where
  "with_fix f v = v\<lparr>v_fix := Some f\<rparr>"

lemma violation_simps [simp]:
  "v_code (violation_new c) = c" "v_path (violation_new c) = None"
  "v_params (violation_new c) = []" "v_fix (violation_new c) = None"
  "v_code (at_path p v) = v_code v" "v_path (at_path p v) = Some p"
  "v_params (at_path p v) = v_params v" "v_fix (at_path p v) = v_fix v"
  "v_code (param k x v) = v_code v" "v_path (param k x v) = v_path v"
  "v_params (param k x v) = obj_insert k x (v_params v)" "v_fix (param k x v) = v_fix v"
  "v_code (with_fix f v) = v_code v" "v_path (with_fix f v) = v_path v"
  "v_params (with_fix f v) = v_params v" "v_fix (with_fix f v) = Some f"
  by (simp_all add: violation_new_def at_path_def param_def with_fix_def)

end
