(* ===== verification/Schema.thy ===== *)
theory Schema
  imports Json
begin

text \<open>
  The subset of JSON Schema that agents describe options and credentials in: the model of
  \<^verbatim>\<open>backend/crates/core/src/schema/mod.rs\<close> (the types and the printer), \<^verbatim>\<open>parse.rs\<close> (the parser),
  \<^verbatim>\<open>validate.rs\<close> (checking values) and \<^verbatim>\<open>credentials.rs\<close> (splitting them).

  The text of a schema is read by \<^verbatim>\<open>serde_json\<close>: the model starts at what it hands to the visitor
  of \<^verbatim>\<open>parse.rs\<close>, the entries of the root in the order they are written, with the properties in
  order too and every other value a \<^verbatim>\<open>Value\<close>. Grapheme clusters belong to
  \<^verbatim>\<open>unicode-segmentation\<close> and RFC 3339 times to \<^verbatim>\<open>chrono\<close>: they are the parameters \<open>gr\<close> and
  \<open>rfc\<close>.
\<close>

section \<open>Schemas\<close>

datatype SchemaError =
    UnsupportedKeyword string string
  | UnsupportedType string string
  | Invalid string string

record EnumValue =
  ev_value :: string
  ev_label :: Message

record DependsOn =
  dep_field :: string
  dep_equals :: json

datatype FieldKind =
    FK_String "nat option" "nat option" "string option"
  | FK_MultilineText "nat option" "string option"
  | FK_Enum "EnumValue list" "string option"
  | FK_Boolean "bool option"
  | FK_Integer "int option" "int option" "int option"
  | FK_DateTime

record SchemaField =
  sf_name :: string
  sf_label :: Message
  sf_help :: "Message option"
  sf_required :: bool
  sf_kind :: FieldKind
  sf_no_default :: bool
  sf_secret :: bool
  sf_consent_text :: "Message option"
  sf_depends_on :: "DependsOn option"

type_synonym OptionsSchema = "SchemaField list"

definition field_named :: "OptionsSchema \<Rightarrow> string \<Rightarrow> SchemaField option" where
  "field_named s name = find (\<lambda>f. sf_name f = name) s"

definition default_value :: "SchemaField \<Rightarrow> json option" where
  "default_value f =
     (case sf_kind f of
        FK_String _ _ d \<Rightarrow> map_option JString d
      | FK_MultilineText _ d \<Rightarrow> map_option JString d
      | FK_Enum _ d \<Rightarrow> map_option JString d
      | FK_Boolean d \<Rightarrow> map_option JBool d
      | FK_Integer _ _ d \<Rightarrow> map_option JNumber d
      | FK_DateTime \<Rightarrow> None)"

section \<open>Printing\<close>

definition depends_json :: "DependsOn \<Rightarrow> json" where
  "depends_json d =
     JObject (obj_insert ''field'' (JString (dep_field d)) (obj_insert ''equals'' (dep_equals d) []))"

definition kind_json :: "FieldKind \<Rightarrow> obj \<Rightarrow> obj" where
  "kind_json kind m =
     (case kind of
        FK_String mn mx _ \<Rightarrow>
          insert_opt ''maxLength'' json_num mx (insert_opt ''minLength'' json_num mn
            (obj_insert ''type'' (JString ''string'') m))
      | FK_MultilineText mx _ \<Rightarrow>
          insert_opt ''maxLength'' json_num mx (obj_insert ''x-postit-multiline'' (JBool True)
            (obj_insert ''type'' (JString ''string'') m))
      | FK_Enum values _ \<Rightarrow>
          obj_insert ''x-postit-enum-labels'' (JArray (map (\<lambda>v. message_json (ev_label v)) values))
            (obj_insert ''enum'' (JArray (map (\<lambda>v. JString (ev_value v)) values))
              (obj_insert ''type'' (JString ''string'') m))
      | FK_Boolean _ \<Rightarrow> obj_insert ''type'' (JString ''boolean'') m
      | FK_Integer mn mx _ \<Rightarrow>
          insert_opt ''maximum'' JNumber mx (insert_opt ''minimum'' JNumber mn
            (obj_insert ''type'' (JString ''integer'') m))
      | FK_DateTime \<Rightarrow>
          obj_insert ''format'' (JString ''date-time'') (obj_insert ''type'' (JString ''string'') m))"

definition field_json :: "SchemaField \<Rightarrow> json" where
  "field_json f =
     (let m = obj_insert ''x-postit-label'' (message_json (sf_label f)) [];
          m = insert_opt ''x-postit-help'' message_json (sf_help f) m;
          m = (if sf_no_default f then obj_insert ''x-postit-no-default'' (JBool True) m else m);
          m = (if sf_secret f then obj_insert ''x-postit-secret'' (JBool True) m else m);
          m = insert_opt ''x-postit-consent-text'' message_json (sf_consent_text f) m;
          m = insert_opt ''x-postit-depends-on'' depends_json (sf_depends_on f) m;
          m = kind_json (sf_kind f) m
      in JObject (insert_opt ''default'' (\<lambda>v. v) (default_value f) m))"

text \<open>The entries of the printed root, in the order they are written.\<close>

definition schema_entries :: "OptionsSchema \<Rightarrow> (string \<times> json) list" where
  "schema_entries s =
     (let required = map sf_name (filter sf_required s)
      in [(''type'', JString ''object''),
          (''properties'', JObject (map (\<lambda>f. (sf_name f, field_json f)) s))]
         @ (if required = [] then [] else [(''required'', JArray (map JString required))])
         @ [(''additionalProperties'', JBool False)])"

section \<open>Parsing\<close>

definition PROPERTY_KEYWORDS :: "string list" where
  "PROPERTY_KEYWORDS =
     [''type'', ''format'', ''enum'', ''default'', ''minLength'', ''maxLength'', ''minimum'', ''maximum'',
      ''x-postit-label'', ''x-postit-help'', ''x-postit-enum-labels'', ''x-postit-multiline'',
      ''x-postit-no-default'', ''x-postit-secret'', ''x-postit-consent-text'', ''x-postit-depends-on'']"

record Root =
  root_properties :: "(string \<times> json) list option"
  root_rest :: obj

definition visit_ordered :: "(string \<times> json) list \<Rightarrow> SchemaError + (string \<times> json) list" where
  "visit_ordered entries =
     foldE (\<lambda>pairs (k, v).
       if list_ex (\<lambda>(a, x). a = k) pairs then Inl (Invalid ''$'' (''duplicate property `'' @ k @ ''`''))
       else Inr (pairs @ [(k, v)])) [] entries"

definition visit_root :: "(string \<times> json) list \<Rightarrow> SchemaError + Root" where
  "visit_root entries =
     foldE (\<lambda>root (k, v).
       if (k = ''properties'' \<and> root_properties root \<noteq> None) \<or> map_of (root_rest root) k \<noteq> None
       then Inl (Invalid ''$'' (''duplicate key `'' @ k @ ''`''))
       else if k = ''properties''
       then (case v of
               JObject props \<Rightarrow>
                 bindE (visit_ordered props) (\<lambda>props. Inr (root\<lparr>root_properties := Some props\<rparr>))
             | _ \<Rightarrow> Inl (Invalid ''$'' ''expected an object''))
       else Inr (root\<lparr>root_rest := obj_insert k v (root_rest root)\<rparr>))
       \<lparr>root_properties = None, root_rest = []\<rparr> entries"

definition type_text :: "json \<Rightarrow> string" where
  "type_text v = (case v of JString s \<Rightarrow> s | other \<Rightarrow> json_text other)"

definition must_be :: "string \<Rightarrow> string \<Rightarrow> string" where
  "must_be key what = ''`'' @ key @ ''` must be '' @ what"

definition take_bool :: "string \<Rightarrow> string \<Rightarrow> obj \<Rightarrow> SchemaError + bool \<times> obj" where
  "take_bool key path m =
     (case map_of m key of
        None \<Rightarrow> Inr (False, obj_remove key m)
      | Some (JBool b) \<Rightarrow> Inr (b, obj_remove key m)
      | Some _ \<Rightarrow> Inl (Invalid path (must_be key ''a boolean'')))"

definition take_u32 :: "string \<Rightarrow> string \<Rightarrow> obj \<Rightarrow> SchemaError + nat option \<times> obj" where
  "take_u32 key path m =
     (case map_of m key of
        None \<Rightarrow> Inr (None, obj_remove key m)
      | Some v \<Rightarrow>
          (case json_u64 v of
             Some n \<Rightarrow>
               if n < 2 ^ 32 then Inr (Some n, obj_remove key m)
               else Inl (Invalid path (must_be key ''a non-negative integer''))
           | None \<Rightarrow> Inl (Invalid path (must_be key ''a non-negative integer''))))"

definition take_i64 :: "string \<Rightarrow> string \<Rightarrow> obj \<Rightarrow> SchemaError + int option \<times> obj" where
  "take_i64 key path m =
     (case map_of m key of
        None \<Rightarrow> Inr (None, obj_remove key m)
      | Some v \<Rightarrow>
          (case as_i64 v of
             Some n \<Rightarrow> Inr (Some n, obj_remove key m)
           | None \<Rightarrow> Inl (Invalid path (must_be key ''an integer''))))"

definition schema_message :: "json \<Rightarrow> string \<Rightarrow> string \<Rightarrow> SchemaError + Message" where
  "schema_message v key path =
     ok_or (Invalid path (must_be key ''an object with `key` and `en`'')) (message_of v)"

definition take_message :: "string \<Rightarrow> string \<Rightarrow> obj \<Rightarrow> SchemaError + Message option \<times> obj" where
  "take_message key path m =
     (case map_of m key of
        None \<Rightarrow> Inr (None, obj_remove key m)
      | Some v \<Rightarrow> bindE (schema_message v key path) (\<lambda>msg. Inr (Some msg, obj_remove key m)))"

definition parse_depends_on :: "json \<Rightarrow> string \<Rightarrow> SchemaField list \<Rightarrow> SchemaError + DependsOn" where
  "parse_depends_on value path earlier =
     (case value of
        JObject m \<Rightarrow>
          (case map_of m ''field'' of
             Some (JString field) \<Rightarrow>
               (case map_of m ''equals'' of
                  None \<Rightarrow> Inl (Invalid path ''`x-postit-depends-on.equals` is missing'')
                | Some equals \<Rightarrow>
                    (case obj_remove ''equals'' (obj_remove ''field'' m) of
                       (extra, _) # _ \<Rightarrow>
                         Inl (Invalid path (''`x-postit-depends-on.'' @ extra @ ''` is not supported''))
                     | [] \<Rightarrow>
                         if \<not> list_ex (\<lambda>f. sf_name f = field) earlier
                         then Inl (Invalid path (''`x-postit-depends-on` names `'' @ field
                                @ ''`, which is not an earlier property''))
                         else Inr \<lparr>dep_field = field, dep_equals = equals\<rparr>))
           | _ \<Rightarrow> Inl (Invalid path ''`x-postit-depends-on.field` must be a string''))
      | _ \<Rightarrow> Inl (Invalid path ''`x-postit-depends-on` must be an object with `field` and `equals`''))"

definition str_item :: "string \<Rightarrow> string \<Rightarrow> json \<Rightarrow> SchemaError + string" where
  "str_item path reason v = (case v of JString s \<Rightarrow> Inr s | _ \<Rightarrow> Inl (Invalid path reason))"

fun mapE :: "('a \<Rightarrow> 'e + 'b) \<Rightarrow> 'a list \<Rightarrow> 'e + 'b list" where
  "mapE f [] = Inr []"
| "mapE f (x # xs) = bindE (f x) (\<lambda>y. bindE (mapE f xs) (\<lambda>ys. Inr (y # ys)))"

definition enum_kind ::
  "json \<Rightarrow> json option \<Rightarrow> string option \<Rightarrow> string \<Rightarrow> SchemaError + FieldKind" where
  "enum_kind values labels dflt path =
     (case values of
        JArray items \<Rightarrow>
          bindE (mapE (str_item path ''`enum` entries must be strings'') items) (\<lambda>values.
            if values = [] then Inl (Invalid path ''`enum` must not be empty'')
            else if \<not> distinct values then Inl (Invalid path ''`enum` values must be unique'')
            else
              (case labels of
                 Some (JArray labels) \<Rightarrow>
                   if length labels \<noteq> length values
                   then Inl (Invalid path ''`x-postit-enum-labels` must be as long as `enum`'')
                   else if (case dflt of None \<Rightarrow> False | Some d \<Rightarrow> d \<notin> set values)
                   then Inl (Invalid path ''`default` is not one of `enum`'')
                   else
                     bindE (mapE (\<lambda>(value, label).
                              bindE (schema_message label ''x-postit-enum-labels'' path) (\<lambda>msg.
                                Inr \<lparr>ev_value = value, ev_label = msg\<rparr>)) (zip values labels))
                       (\<lambda>values. Inr (FK_Enum values dflt))
               | _ \<Rightarrow> Inl (Invalid path ''`enum` needs `x-postit-enum-labels` (an array)'')))
      | _ \<Rightarrow> Inl (Invalid path ''`enum` must be an array''))"

definition outside :: "'n::ord option \<Rightarrow> 'n option \<Rightarrow> 'n \<Rightarrow> bool" where
  "outside mn mx n = ((case mn of None \<Rightarrow> False | Some a \<Rightarrow> n < a) \<or> (case mx of None \<Rightarrow> False | Some b \<Rightarrow> b < n))"

definition crossed :: "'n::ord option \<Rightarrow> 'n option \<Rightarrow> bool" where
  "crossed mn mx = (case (mn, mx) of (Some a, Some b) \<Rightarrow> b < a | _ \<Rightarrow> False)"

definition grapheme_len :: "(string \<Rightarrow> string list) \<Rightarrow> string \<Rightarrow> nat" where
  "grapheme_len gr s = length (gr s)"

definition string_default :: "string \<Rightarrow> json option \<Rightarrow> SchemaError + string option" where
  "string_default path dflt =
     (case dflt of
        None \<Rightarrow> Inr None
      | Some v \<Rightarrow>
          (case json_str v of
             Some s \<Rightarrow> Inr (Some s)
           | None \<Rightarrow> Inl (Invalid path ''`default` must be a string'')))"

definition boolean_default :: "string \<Rightarrow> json option \<Rightarrow> SchemaError + bool option" where
  "boolean_default path dflt =
     (case dflt of
        None \<Rightarrow> Inr None
      | Some v \<Rightarrow>
          (case json_bool v of
             Some b \<Rightarrow> Inr (Some b)
           | None \<Rightarrow> Inl (Invalid path ''`default` must be a boolean'')))"

definition integer_default :: "string \<Rightarrow> json option \<Rightarrow> SchemaError + int option" where
  "integer_default path dflt =
     (case dflt of
        None \<Rightarrow> Inr None
      | Some v \<Rightarrow>
          (case as_i64 v of
             Some n \<Rightarrow> Inr (Some n)
           | None \<Rightarrow> Inl (Invalid path ''`default` must be an integer'')))"

text \<open>The kind of a string property, once its keywords are read and its default is checked.\<close>

definition string_shape ::
  "string \<Rightarrow> json option \<Rightarrow> json option \<Rightarrow> json option \<Rightarrow> bool \<Rightarrow> nat option \<Rightarrow> nat option \<Rightarrow> string option
   \<Rightarrow> SchemaError + FieldKind" where
  "string_shape path fmt values labels multiline mn mx dflt =
     (case fmt of
        Some fmt \<Rightarrow>
          if fmt \<noteq> JString ''date-time'' then Inl (Invalid path ''`format` must be `date-time`'')
          else if values \<noteq> None \<or> labels \<noteq> None \<or> multiline \<or> mn \<noteq> None \<or> mx \<noteq> None \<or> dflt \<noteq> None
          then Inl (Invalid path ''a date-time takes no enum, multiline, length, or default'')
          else Inr FK_DateTime
      | None \<Rightarrow>
          (case values of
             Some values \<Rightarrow>
               if multiline \<or> mn \<noteq> None \<or> mx \<noteq> None
               then Inl (Invalid path ''an enum takes no multiline or length keywords'')
               else enum_kind values labels dflt path
           | None \<Rightarrow>
               if labels \<noteq> None then Inl (Invalid path ''`x-postit-enum-labels` needs `enum`'')
               else if multiline
               then if mn \<noteq> None then Inl (Invalid path ''a multiline text takes no `minLength`'')
                    else Inr (FK_MultilineText mx dflt)
               else Inr (FK_String mn mx dflt)))"

definition string_kind_of ::
  "(string \<Rightarrow> string list) \<Rightarrow> string \<Rightarrow> json option \<Rightarrow> json option \<Rightarrow> json option \<Rightarrow> bool \<Rightarrow> nat option \<Rightarrow> nat option
   \<Rightarrow> json option \<Rightarrow> SchemaError + FieldKind" where
  "string_kind_of gr path fmt values labels multiline mn mx dflt =
     (if crossed mn mx then Inl (Invalid path ''`minLength` is greater than `maxLength`'')
      else
        bindE (string_default path dflt) (\<lambda>dflt.
          if (case dflt of None \<Rightarrow> False | Some d \<Rightarrow> outside mn mx (grapheme_len gr d))
          then Inl (Invalid path ''`default` is outside `minLength`..`maxLength`'')
          else string_shape path fmt values labels multiline mn mx dflt))"

definition string_kind ::
  "(string \<Rightarrow> string list) \<Rightarrow> obj \<Rightarrow> string \<Rightarrow> json option \<Rightarrow> SchemaError + FieldKind \<times> obj" where
  "string_kind gr m path dflt =
     (let fmt = map_of m ''format''; m = obj_remove ''format'' m;
          values = map_of m ''enum''; m = obj_remove ''enum'' m;
          labels = map_of m ''x-postit-enum-labels''; m = obj_remove ''x-postit-enum-labels'' m
      in bindE (take_bool ''x-postit-multiline'' path m) (\<lambda>(multiline, m).
         bindE (take_u32 ''minLength'' path m) (\<lambda>(mn, m).
         bindE (take_u32 ''maxLength'' path m) (\<lambda>(mx, m).
         bindE (string_kind_of gr path fmt values labels multiline mn mx dflt) (\<lambda>kind. Inr (kind, m))))))"

definition boolean_kind :: "obj \<Rightarrow> string \<Rightarrow> json option \<Rightarrow> SchemaError + (FieldKind \<times> Message option) \<times> obj" where
  "boolean_kind m path dflt =
     bindE (take_message ''x-postit-consent-text'' path m) (\<lambda>(consent, m).
     bindE (boolean_default path dflt) (\<lambda>dflt. Inr ((FK_Boolean dflt, consent), m)))"

definition integer_kind :: "obj \<Rightarrow> string \<Rightarrow> json option \<Rightarrow> SchemaError + FieldKind \<times> obj" where
  "integer_kind m path dflt =
     bindE (take_i64 ''minimum'' path m) (\<lambda>(mn, m).
     bindE (take_i64 ''maximum'' path m) (\<lambda>(mx, m).
       if crossed mn mx then Inl (Invalid path ''`minimum` is greater than `maximum`'')
       else
         bindE (integer_default path dflt) (\<lambda>dflt.
           if (case dflt of None \<Rightarrow> False | Some d \<Rightarrow> outside mn mx d)
           then Inl (Invalid path ''`default` is outside `minimum`..`maximum`'')
           else Inr (FK_Integer mn mx dflt, m))))"

definition field_type :: "string \<Rightarrow> json option \<Rightarrow> SchemaError + string" where
  "field_type path v =
     (case v of
        Some (JString s) \<Rightarrow>
          if s = ''string'' \<or> s = ''boolean'' \<or> s = ''integer'' then Inr s else Inl (UnsupportedType path s)
      | Some other \<Rightarrow> Inl (UnsupportedType path (json_text other))
      | None \<Rightarrow> Inl (Invalid path ''missing `type`''))"

definition field_kind ::
  "(string \<Rightarrow> string list) \<Rightarrow> string \<Rightarrow> obj \<Rightarrow> string \<Rightarrow> json option
   \<Rightarrow> SchemaError + (FieldKind \<times> Message option) \<times> obj" where
  "field_kind gr ty m path dflt =
     (if ty = ''string'' then bindE (string_kind gr m path dflt) (\<lambda>(kind, m). Inr ((kind, None), m))
      else if ty = ''boolean'' then boolean_kind m path dflt
      else bindE (integer_kind m path dflt) (\<lambda>(kind, m). Inr ((kind, None), m)))"

definition property_path :: "string \<Rightarrow> string" where
  "property_path name = ''properties.'' @ name"

definition take_depends_on ::
  "string \<Rightarrow> SchemaField list \<Rightarrow> obj \<Rightarrow> SchemaError + DependsOn option \<times> obj" where
  "take_depends_on path earlier m =
     (case map_of m ''x-postit-depends-on'' of
        None \<Rightarrow> Inr (None, obj_remove ''x-postit-depends-on'' m)
      | Some v \<Rightarrow> bindE (parse_depends_on v path earlier) (\<lambda>d. Inr (Some d, obj_remove ''x-postit-depends-on'' m)))"

definition no_more_keys :: "string \<Rightarrow> string \<Rightarrow> obj \<Rightarrow> SchemaError + unit" where
  "no_more_keys path ty m =
     (case m of
        (k, v) # _ \<Rightarrow> Inl (Invalid path (''`'' @ k @ ''` does not apply to a '' @ ty @ '' property''))
      | [] \<Rightarrow> Inr ())"

definition known_keywords :: "string \<Rightarrow> obj \<Rightarrow> SchemaError + unit" where
  "known_keywords path m =
     (case find (\<lambda>(k, v). k \<notin> set PROPERTY_KEYWORDS) m of
        Some (k, v) \<Rightarrow> Inl (UnsupportedKeyword path k)
      | None \<Rightarrow> Inr ())"

definition parse_field ::
  "(string \<Rightarrow> string list) \<Rightarrow> string \<Rightarrow> json \<Rightarrow> bool \<Rightarrow> SchemaField list \<Rightarrow> SchemaError + SchemaField" where
  "parse_field gr name value required earlier =
     (let path = property_path name
      in case value of
           JObject m \<Rightarrow>
             bindE (known_keywords path m) (\<lambda>_.
             bindE (field_type path (map_of m ''type'')) (\<lambda>ty.
             bindE (take_message ''x-postit-label'' path (obj_remove ''type'' m)) (\<lambda>(label, m).
             bindE (ok_or (Invalid path ''missing `x-postit-label`'') label) (\<lambda>label.
             bindE (take_message ''x-postit-help'' path m) (\<lambda>(help, m).
             bindE (take_bool ''x-postit-no-default'' path m) (\<lambda>(no_default, m).
             bindE (take_bool ''x-postit-secret'' path m) (\<lambda>(secret, m).
             bindE (take_depends_on path earlier m) (\<lambda>(depends_on, m).
             let dflt = map_of m ''default'';
                 m = obj_remove ''default'' m
             in if no_default \<and> dflt \<noteq> None
                then Inl (Invalid path ''`x-postit-no-default` forbids `default`'')
                else
                  bindE (field_kind gr ty m path dflt) (\<lambda>((kind, consent), m).
                  bindE (no_more_keys path ty m) (\<lambda>_.
                    Inr \<lparr>sf_name = name, sf_label = label, sf_help = help, sf_required = required,
                         sf_kind = kind, sf_no_default = no_default, sf_secret = secret,
                         sf_consent_text = consent, sf_depends_on = depends_on\<rparr>))))))))))
         | _ \<Rightarrow> Inl (Invalid path ''a property must be an object''))"

definition required_names :: "json option \<Rightarrow> SchemaError + string list" where
  "required_names v =
     (case v of
        None \<Rightarrow> Inr []
      | Some (JArray items) \<Rightarrow> mapE (str_item ''$.required'' ''entries must be strings'') items
      | Some _ \<Rightarrow> Inl (Invalid ''$.required'' ''must be an array''))"

definition build :: "(string \<Rightarrow> string list) \<Rightarrow> Root \<Rightarrow> SchemaError + OptionsSchema" where
  "build gr root =
     (case map_of (root_rest root) ''type'' of
        None \<Rightarrow> Inl (Invalid ''$'' ''missing `type`'')
      | Some ty \<Rightarrow>
          if ty \<noteq> JString ''object'' then Inl (UnsupportedType ''$'' (type_text ty))
          else
            let rest = obj_remove ''type'' (root_rest root)
            in bindE (ok_or (Invalid ''$'' ''missing `properties`'') (root_properties root)) (\<lambda>properties.
               bindE (required_names (map_of rest ''required'')) (\<lambda>required.
               let rest = obj_remove ''required'' rest
               in if \<not> (map_of rest ''additionalProperties'' = None
                        \<or> map_of rest ''additionalProperties'' = Some (JBool False))
                  then Inl (Invalid ''$.additionalProperties'' ''only `false` is supported'')
                  else
                    (case obj_remove ''additionalProperties'' rest of
                       (k, v) # _ \<Rightarrow> Inl (UnsupportedKeyword ''$'' k)
                     | [] \<Rightarrow>
                         (case find (\<lambda>r. \<not> list_ex (\<lambda>(n, v). n = r) properties) required of
                            Some ghost \<Rightarrow> Inl (Invalid ''$.required'' (''`'' @ ghost @ ''` is not a property''))
                          | None \<Rightarrow>
                              foldE (\<lambda>fields1 (name, value).
                                bindE (parse_field gr name value (name \<in> set required) fields1) (\<lambda>field.
                                  Inr (fields1 @ [field]))) [] properties)))))"

definition parse_schema ::
  "(string \<Rightarrow> string list) \<Rightarrow> (string \<times> json) list \<Rightarrow> SchemaError + OptionsSchema" where
  "parse_schema gr entries = bindE (visit_root entries) (build gr)"

section \<open>Checking values\<close>

definition applies :: "OptionsSchema \<Rightarrow> SchemaField \<Rightarrow> obj \<Rightarrow> bool" where
  "applies s f values =
     (case sf_depends_on f of
        None \<Rightarrow> True
      | Some dep \<Rightarrow>
          (case map_of values (dep_field dep) of
             Some v \<Rightarrow> Some v
           | None \<Rightarrow> Option.bind (field_named s (dep_field dep)) default_value) = Some (dep_equals dep))"

definition option_violation :: "ViolationCode \<Rightarrow> SchemaField \<Rightarrow> Violation" where
  "option_violation code f =
     param ''name'' (JString (sf_name f)) (at_path (''options.'' @ sf_name f) (violation_new code))"

definition wrong_type :: "SchemaField \<Rightarrow> string \<Rightarrow> Violation" where
  "wrong_type f expected = param ''expected'' (JString expected) (option_violation OptionType f)"

definition param_opt :: "string \<Rightarrow> json option \<Rightarrow> Violation \<Rightarrow> Violation" where
  "param_opt k x v = (case x of None \<Rightarrow> v | Some x \<Rightarrow> param k x v)"

definition check_option_text ::
  "(string \<Rightarrow> string list) \<Rightarrow> SchemaField \<Rightarrow> json \<Rightarrow> nat option \<Rightarrow> nat option \<Rightarrow> Violation list" where
  "check_option_text gr f value mn mx =
     (case json_str value of
        None \<Rightarrow> [wrong_type f ''string'']
      | Some t \<Rightarrow>
          (case mn of
             Some a \<Rightarrow>
               if grapheme_len gr t < a then [param ''min'' (json_num a) (option_violation OptionTooShort f)] else []
           | None \<Rightarrow> [])
          @ (case mx of
               Some b \<Rightarrow>
                 if b < grapheme_len gr t then [param ''max'' (json_num b) (option_violation OptionTooLong f)] else []
             | None \<Rightarrow> []))"

definition check_value ::
  "(string \<Rightarrow> string list) \<Rightarrow> (string \<Rightarrow> bool) \<Rightarrow> SchemaField \<Rightarrow> json \<Rightarrow> Violation list" where
  "check_value gr rfc f value =
     (case sf_kind f of
        FK_String mn mx _ \<Rightarrow> check_option_text gr f value mn mx
      | FK_MultilineText mx _ \<Rightarrow> check_option_text gr f value None mx
      | FK_Enum values _ \<Rightarrow>
          (case json_str value of
             None \<Rightarrow> [wrong_type f ''string'']
           | Some t \<Rightarrow>
               if list_ex (\<lambda>v. ev_value v = t) values then []
               else [param ''allowed'' (JArray (map (\<lambda>v. JString (ev_value v)) values))
                       (option_violation OptionNotAllowed f)])
      | FK_Boolean _ \<Rightarrow>
          (case json_bool value of
             None \<Rightarrow> [wrong_type f ''boolean'']
           | Some b \<Rightarrow>
               if sf_consent_text f \<noteq> None \<and> \<not> b then [option_violation OptionConsentRequired f] else [])
      | FK_Integer mn mx _ \<Rightarrow>
          (case as_i64 value of
             None \<Rightarrow> [wrong_type f ''integer'']
           | Some n \<Rightarrow>
               if outside mn mx n
               then [param_opt ''max'' (map_option JNumber mx)
                       (param_opt ''min'' (map_option JNumber mn) (option_violation OptionOutOfRange f))]
               else [])
      | FK_DateTime \<Rightarrow>
          (case json_str value of
             Some t \<Rightarrow> if rfc t then [] else [wrong_type f ''date-time'']
           | None \<Rightarrow> [wrong_type f ''date-time'']))"

definition accepts :: "(string \<Rightarrow> string list) \<Rightarrow> (string \<Rightarrow> bool) \<Rightarrow> SchemaField \<Rightarrow> json \<Rightarrow> bool" where
  "accepts gr rfc f value = (check_value gr rfc f value = [])"

definition check_field ::
  "(string \<Rightarrow> string list) \<Rightarrow> (string \<Rightarrow> bool) \<Rightarrow> OptionsSchema \<Rightarrow> obj \<Rightarrow> SchemaField \<Rightarrow> Violation list" where
  "check_field gr rfc s values f =
     (if \<not> applies s f values then []
      else
        (case map_of values (sf_name f) of
           None \<Rightarrow> if sf_required f \<or> sf_no_default f then [option_violation OptionRequired f] else []
         | Some value \<Rightarrow> check_value gr rfc f value))"

definition validate_options ::
  "(string \<Rightarrow> string list) \<Rightarrow> (string \<Rightarrow> bool) \<Rightarrow> OptionsSchema \<Rightarrow> obj \<Rightarrow> Violation list" where
  "validate_options gr rfc s values =
     concat (map (check_field gr rfc s values) s)
     @ map (\<lambda>key. param ''name'' (JString key) (at_path (''options.'' @ key) (violation_new OptionUnknown)))
         (filter (\<lambda>key. field_named s key = None) (map fst values))"

text \<open>\<^verbatim>\<open>collect\<close> into an ordered map.\<close>

definition obj_of :: "(string \<times> json) list \<Rightarrow> obj" where
  "obj_of entries = foldl (\<lambda>m (k, v). obj_insert k v m) [] entries"

definition applicable :: "OptionsSchema \<Rightarrow> obj \<Rightarrow> obj" where
  "applicable s values =
     obj_of (List.map_filter (\<lambda>f. map_option (Pair (sf_name f)) (map_of values (sf_name f)))
       (filter (\<lambda>f. applies s f values) s))"

section \<open>Credentials\<close>

datatype CredentialValue = Plain json | Secret string

type_synonym CredentialFields = "(string \<times> CredentialValue) list"

definition credential :: "SchemaField \<Rightarrow> json \<Rightarrow> CredentialValue" where
  "credential f value = (if sf_secret f then Secret (type_text value) else Plain value)"

definition parse_credentials ::
  "(string \<Rightarrow> string list) \<Rightarrow> (string \<Rightarrow> bool) \<Rightarrow> OptionsSchema \<Rightarrow> obj \<Rightarrow> Violation list + CredentialFields" where
  "parse_credentials gr rfc s values =
     (let violations = validate_options gr rfc s values
      in if violations \<noteq> [] then Inl violations
         else Inr (List.map_filter (\<lambda>f. map_option (\<lambda>v. (sf_name f, credential f v)) (map_of values (sf_name f)))
                (filter (\<lambda>f. applies s f values) s)))"

definition split_credentials :: "CredentialFields \<Rightarrow> obj \<times> (string \<times> string) list" where
  "split_credentials entries =
     foldl (\<lambda>(plain, secret) (name, value).
       case value of
         Plain v \<Rightarrow> (obj_insert name v plain, secret)
       | Secret t \<Rightarrow> (plain, obj_insert name t secret)) ([], []) entries"

definition credentials_from_parts :: "obj \<Rightarrow> (string \<times> string) list \<Rightarrow> CredentialFields" where
  "credentials_from_parts plain secret =
     map (\<lambda>(k, v). (k, Plain v)) plain @ map (\<lambda>(k, t). (k, Secret t)) secret"

definition get_plain :: "CredentialFields \<Rightarrow> string \<Rightarrow> json option" where
  "get_plain entries name = (case map_of entries name of Some (Plain v) \<Rightarrow> Some v | _ \<Rightarrow> None)"

definition get_secret :: "CredentialFields \<Rightarrow> string \<Rightarrow> string option" where
  "get_secret entries name = (case map_of entries name of Some (Secret t) \<Rightarrow> Some t | _ \<Rightarrow> None)"

text \<open>\<^verbatim>\<open>str::parse::<i64>\<close>: an optional sign, then digits.\<close>

definition parse_i64 :: "string \<Rightarrow> int option" where
  "parse_i64 s =
     (let (negative, digits) = (case s of
          c # cs \<Rightarrow> if c = CHR ''-'' then (True, cs) else if c = CHR ''+'' then (False, cs) else (False, s)
        | [] \<Rightarrow> (False, []))
      in if digits = [] \<or> \<not> list_all is_ascii_digit digits then None
         else let n = (if negative then - int (decimal_value digits) else int (decimal_value digits))
              in if i64_ok n then Some n else None)"

definition ascii_lower :: "char \<Rightarrow> char" where
  "ascii_lower c = (let n = (of_char c :: nat) in if 65 \<le> n \<and> n \<le> 90 then char_of (n + 32) else c)"

definition cell_value :: "OptionsSchema \<Rightarrow> string \<Rightarrow> string \<Rightarrow> json" where
  "cell_value s name cell =
     (case Option.bind (field_named s name) (\<lambda>f.
        case sf_kind f of
          FK_Integer _ _ _ \<Rightarrow> map_option JNumber (parse_i64 cell)
        | FK_Boolean _ \<Rightarrow>
            (let low = map ascii_lower cell
             in if low = ''true'' then Some (JBool True)
                else if low = ''false'' then Some (JBool False)
                else None)
        | _ \<Rightarrow> None) of
        Some v \<Rightarrow> v
      | None \<Rightarrow> JString cell)"

end
