(* ===== verification/Unicode.thy ===== *)
theory Unicode
  imports Schema
begin

text \<open>
  Text as Rust reads it: a string is the list of its UTF-8 bytes, \<open>char_slices\<close> cuts it into the
  bytes of one \<^verbatim>\<open>char\<close> each and \<open>code_point\<close> decodes them. What needs the tables of the Unicode
  standard (grapheme clusters, NFC, lower case, the alphanumeric characters) and the reading of
  RFC 3339 times is the parameter \<open>uc\<close>, a record of the functions the source calls. White space is
  a short list and is written out.

  The second half is the model of \<^verbatim>\<open>backend/crates/core/src/validation/text.rs\<close>: how long a text is
  in the measure a platform counts in. The weights of one run are added without the bound of
  \<^verbatim>\<open>u32\<close>, which no text of less than two gigabytes reaches.
\<close>

section \<open>Characters\<close>

record unicode =
  uc_graphemes :: "string \<Rightarrow> string list"
  uc_nfc :: "string \<Rightarrow> string"
  uc_lowercase :: "string \<Rightarrow> string"
  uc_alphanumeric :: "nat \<Rightarrow> bool"
  uc_rfc3339 :: "string \<Rightarrow> bool"

definition byte :: "char \<Rightarrow> nat" where
  "byte c = of_char c"

text \<open>How many bytes follow a first byte.\<close>

definition more_bytes :: "char \<Rightarrow> nat" where
  "more_bytes c = (if byte c < 192 then 0 else if byte c < 224 then 1 else if byte c < 240 then 2 else 3)"

fun char_slices :: "string \<Rightarrow> string list" where
  "char_slices [] = []"
| "char_slices (c # s) = (c # take (more_bytes c) s) # char_slices (drop (more_bytes c) s)"

definition code_point :: "string \<Rightarrow> nat" where
  "code_point slice =
     (case slice of
        [] \<Rightarrow> 0
      | c # s \<Rightarrow>
          foldl (\<lambda>n b. n * 64 + byte b mod 64)
            (if byte c < 192 then byte c else if byte c < 224 then byte c mod 32
             else if byte c < 240 then byte c mod 16 else byte c mod 8) s)"

definition chars :: "string \<Rightarrow> nat list" where
  "chars s = map code_point (char_slices s)"

definition is_whitespace :: "nat \<Rightarrow> bool" where
  "is_whitespace n =
     (9 \<le> n \<and> n \<le> 13 \<or> n = 32 \<or> n = 133 \<or> n = 160 \<or> n = 5760 \<or> 8192 \<le> n \<and> n \<le> 8202
      \<or> n = 8232 \<or> n = 8233 \<or> n = 8239 \<or> n = 8287 \<or> n = 12288)"

lemma is_whitespace_code [code]:
  "is_whitespace n =
     (let i = int n in 9 \<le> i \<and> i \<le> 13 \<or> i = 32 \<or> i = 133 \<or> i = 160 \<or> i = 5760 \<or> 8192 \<le> i \<and> i \<le> 8202
      \<or> i = 8232 \<or> i = 8233 \<or> i = 8239 \<or> i = 8287 \<or> i = 12288)"
  by (simp add: is_whitespace_def Let_def)

text \<open>\<^verbatim>\<open>s.trim().is_empty()\<close>.\<close>

definition blank :: "string \<Rightarrow> bool" where
  "blank s = list_all is_whitespace (chars s)"

lemma concat_char_slices [simp]: "concat (char_slices s) = s"
  by (induction s rule: char_slices.induct) simp_all

lemma char_slices_nonempty: "x \<in> set (char_slices s) \<Longrightarrow> x \<noteq> []"
  by (induction s rule: char_slices.induct) auto

section \<open>Measures\<close>

datatype TextMeasure = Graphemes | XWeighted | Utf16Units | Bytes

fun measure_str :: "TextMeasure \<Rightarrow> string" where
  "measure_str Graphemes = ''graphemes''"
| "measure_str XWeighted = ''x_weighted''"
| "measure_str Utf16Units = ''utf16_units''"
| "measure_str Bytes = ''bytes''"

definition X_URL_WEIGHT :: nat where
  "X_URL_WEIGHT = 23"

definition u32_max :: nat where
  "u32_max = 2 ^ 32 - 1"

text \<open>\<^verbatim>\<open>u32::try_from(n).unwrap_or(u32::MAX)\<close>, and what saturating sums of \<^verbatim>\<open>u32\<close> give.\<close>

definition sat32 :: "nat \<Rightarrow> nat" where
  "sat32 n = min n u32_max"

lemma sat32_code [code]: "sat32 n = (if int n \<le> 4294967295 then n else u32_max)"
  by (auto simp: sat32_def u32_max_def)

definition utf16_len :: "nat \<Rightarrow> nat" where
  "utf16_len n = (if n < 65536 then 1 else 2)"

definition has_url_scheme :: "string \<Rightarrow> bool" where
  "has_url_scheme run =
     (list_ex (\<lambda>scheme. map ascii_lower (take (length scheme) run) = scheme) [''http://'', ''https://''])"

definition is_url_trailing :: "char \<Rightarrow> bool" where
  "is_url_trailing c = (c \<in> set ''.,;:!?)]}'' \<or> byte c = 39 \<or> byte c = 34)"

definition trim_end :: "(char \<Rightarrow> bool) \<Rightarrow> string \<Rightarrow> string" where
  "trim_end p s = rev (dropWhile p (rev s))"

definition char_weight :: "nat \<Rightarrow> nat" where
  "char_weight c =
     (if c \<le> 4351 \<or> 8192 \<le> c \<and> c \<le> 8205 \<or> 8208 \<le> c \<and> c \<le> 8223 \<or> 8242 \<le> c \<and> c \<le> 8247 then 1 else 2)"

definition is_emoji_sequence :: "string \<Rightarrow> bool" where
  "is_emoji_sequence g =
     (1 < length (chars g)
      \<and> list_ex (\<lambda>c. c = 8205 \<or> c = 65039 \<or> c = 8419 \<or> 127462 \<le> c \<and> c \<le> 127487 \<or> 127995 \<le> c \<and> c \<le> 127999)
          (chars g))"

definition grapheme_weight :: "string \<Rightarrow> nat" where
  "grapheme_weight g = (if is_emoji_sequence g then 2 else sum_list (map char_weight (chars g)))"

definition text_weight :: "unicode \<Rightarrow> string \<Rightarrow> nat" where
  "text_weight uc s = sum_list (map grapheme_weight (uc_graphemes uc s))"

definition run_weight :: "unicode \<Rightarrow> bool \<Rightarrow> string \<Rightarrow> nat" where
  "run_weight uc whitespace run =
     (if \<not> whitespace \<and> has_url_scheme run
      then let trimmed = trim_end is_url_trailing run
           in sat32 (X_URL_WEIGHT + text_weight uc (drop (length trimmed) run))
      else text_weight uc run)"

text \<open>The loop over runs of white space and of other characters.\<close>

function weigh_runs :: "unicode \<Rightarrow> nat \<Rightarrow> string list \<Rightarrow> nat" where
  "weigh_runs uc sum1 [] = sum1"
| "weigh_runs uc sum1 (c # cs) =
     (let whitespace = is_whitespace (code_point c);
          same = (\<lambda>d. is_whitespace (code_point d) = whitespace);
          run = concat (c # takeWhile same cs)
      in weigh_runs uc (sat32 (sum1 + run_weight uc whitespace run)) (dropWhile same cs))"
  by pat_completeness auto

termination
  by (relation "measure (\<lambda>(uc, sum1, cs). length cs)") (auto simp: less_Suc_eq_le length_dropWhile_le)

definition x_weighted :: "unicode \<Rightarrow> string \<Rightarrow> nat" where
  "x_weighted uc s = weigh_runs uc 0 (char_slices (uc_nfc uc s))"

fun measure_text :: "unicode \<Rightarrow> string \<Rightarrow> TextMeasure \<Rightarrow> nat" where
  "measure_text uc s Graphemes = sat32 (length (uc_graphemes uc s))"
| "measure_text uc s Utf16Units = sat32 (sum_list (map utf16_len (chars s)))"
| "measure_text uc s Bytes = sat32 (length s)"
| "measure_text uc s XWeighted = x_weighted uc s"

end
