(* ===== verification/Post.thy ===== *)
theory Post
  imports Unicode
begin

text \<open>
  Posts, what an account changes in them, and the variants that get published: the model of
  \<^verbatim>\<open>backend/crates/core/src/post.rs\<close>, the document of \<^verbatim>\<open>email.rs\<close> and the one-string form of
  \<^verbatim>\<open>compose.rs\<close>. A \<^verbatim>\<open>Url\<close> is its text.
\<close>

section \<open>Posts and variants\<close>

datatype PostKind = PK_Post | PK_Comment

fun post_kind_str :: "PostKind \<Rightarrow> string" where
  "post_kind_str PK_Post = ''post''"
| "post_kind_str PK_Comment = ''comment''"

definition post_kind_from_str :: "string \<Rightarrow> string + PostKind" where
  "post_kind_from_str s =
     (if s = ''post'' then Inr PK_Post else if s = ''comment'' then Inr PK_Comment else Inl s)"

record ReplyTo =
  rt_remote_post_id :: string
  rt_remote_comment_id :: "string option"
  rt_url :: "string option"

record MediaItem =
  mi_asset :: uuid
  mi_alt_text :: "string option"

record Post =
  po_kind :: PostKind
  po_text :: string
  po_media :: "MediaItem list"
  po_link :: "string option"
  po_tags :: "string list"
  po_disclose_ai_generated :: bool
  po_reply_to :: "ReplyTo option"

datatype HeadingLevel = H1 | H2

datatype EmailBlock =
    EB_Heading string HeadingLevel
  | EB_Text string
  | EB_Image uuid string "string option"
  | EB_Button string string
  | EB_Divider

datatype EmailLanguage = EnUs

record EmailDocument =
  ed_subject :: string
  ed_preheader :: "string option"
  ed_language :: EmailLanguage
  ed_blocks :: "EmailBlock list"

definition block_asset :: "EmailBlock \<Rightarrow> uuid option" where
  "block_asset b = (case b of EB_Image asset _ _ \<Rightarrow> Some asset | _ \<Rightarrow> None)"

definition email_media_ids :: "EmailDocument \<Rightarrow> uuid list" where
  "email_media_ids d = List.map_filter block_asset (ed_blocks d)"

record PostOverride =
  ov_text :: "string option"
  ov_link :: "string option option"
  ov_tags :: "string list option"
  ov_media :: "uuid list option"
  ov_email :: "EmailDocument option"
  ov_options :: obj

record AccountRef =
  acr_platform :: string
  acr_account :: uuid
  acr_remote_id :: string

record Variant =
  va_target :: AccountRef
  va_kind :: PostKind
  va_text :: string
  va_media :: "MediaItem list"
  va_link :: "string option"
  va_tags :: "string list"
  va_disclose_ai_generated :: bool
  va_reply_to :: "ReplyTo option"
  va_email :: "EmailDocument option"
  va_options :: obj

definition kind_violations :: "PostKind \<Rightarrow> ReplyTo option \<Rightarrow> Violation list" where
  "kind_violations kind reply_to =
     (case (kind, reply_to) of
        (PK_Comment, None) \<Rightarrow> [at_path ''reply_to'' (violation_new ReplyToRequired)]
      | (PK_Post, Some _) \<Rightarrow> [at_path ''reply_to'' (violation_new ReplyToNotAllowed)]
      | _ \<Rightarrow> [])"

text \<open>The loop that lists an id once, at its first place.\<close>

definition first_uses :: "uuid list \<Rightarrow> uuid list" where
  "first_uses ids = foldl (\<lambda>seen i. if i \<in> set seen then seen else seen @ [i]) [] ids"

definition variant_media_ids :: "Variant \<Rightarrow> uuid list" where
  "variant_media_ids v =
     first_uses (map mi_asset (va_media v)
       @ (case va_email v of None \<Rightarrow> [] | Some d \<Rightarrow> email_media_ids d))"

fun position :: "('a \<Rightarrow> bool) \<Rightarrow> 'a list \<Rightarrow> nat option" where
  "position p [] = None"
| "position p (x # xs) = (if p x then Some 0 else map_option Suc (position p xs))"

definition indexed :: "string \<Rightarrow> nat \<Rightarrow> string" where
  "indexed name i = name @ ''['' @ decimal i @ '']''"

definition media_path :: "Variant \<Rightarrow> uuid \<Rightarrow> string option" where
  "media_path v asset =
     (case position (\<lambda>item. mi_asset item = asset) (va_media v) of
        Some i \<Rightarrow> Some (indexed ''media'' i)
      | None \<Rightarrow>
          Option.bind (va_email v) (\<lambda>d.
            map_option (indexed ''email.blocks'') (position (\<lambda>b. block_asset b = Some asset) (ed_blocks d))))"

text \<open>A UUID prints as its 32 hexadecimal digits in five groups.\<close>

definition uuid_text :: "uuid \<Rightarrow> string" where
  "uuid_text u =
     (let h = map (\<lambda>i. hex_digit ((u div 16 ^ (31 - i)) mod 16)) [0..<32]
      in join ''-'' [take 8 h, take 4 (drop 8 h), take 4 (drop 12 h), take 4 (drop 16 h), drop 20 h])"

section \<open>Applying an override\<close>

definition override_item ::
  "Post \<Rightarrow> AccountRef \<Rightarrow> uuid list \<Rightarrow> nat \<Rightarrow> Violation + MediaItem" where
  "override_item post target ids i =
     (let asset = ids ! i;
          refused = (\<lambda>code. param ''id'' (JString (uuid_text asset))
            (at_path (''overrides.'' @ uuid_text (acr_account target) @ indexed ''.media'' i) (violation_new code)))
      in if asset \<in> set (take i ids) then Inl (refused OverrideMediaDuplicate)
         else
           (case find (\<lambda>item. mi_asset item = asset) (po_media post) of
              Some item \<Rightarrow> Inr item
            | None \<Rightarrow> Inl (refused OverrideMediaNotInPost)))"

definition lefts :: "('a + 'b) list \<Rightarrow> 'a list" where
  "lefts xs = List.map_filter (\<lambda>x. case x of Inl a \<Rightarrow> Some a | Inr b \<Rightarrow> None) xs"

definition rights :: "('a + 'b) list \<Rightarrow> 'b list" where
  "rights xs = List.map_filter (\<lambda>x. case x of Inl a \<Rightarrow> None | Inr b \<Rightarrow> Some b) xs"

definition variant_of :: "Post \<Rightarrow> AccountRef \<Rightarrow> Variant" where
  "variant_of post target =
     \<lparr>va_target = target, va_kind = po_kind post, va_text = po_text post, va_media = po_media post,
      va_link = po_link post, va_tags = po_tags post,
      va_disclose_ai_generated = po_disclose_ai_generated post, va_reply_to = po_reply_to post,
      va_email = None, va_options = []\<rparr>"

definition resolve_variant ::
  "Post \<Rightarrow> AccountRef \<Rightarrow> PostOverride option \<Rightarrow> Violation list + Variant" where
  "resolve_variant post target override =
     (let v = variant_of post target
      in case override of
           None \<Rightarrow> Inr v
         | Some over \<Rightarrow>
             let v = v\<lparr>va_text := (case ov_text over of None \<Rightarrow> va_text v | Some t \<Rightarrow> t),
                       va_link := (case ov_link over of None \<Rightarrow> va_link v | Some l \<Rightarrow> l),
                       va_tags := (case ov_tags over of None \<Rightarrow> va_tags v | Some ts \<Rightarrow> ts),
                       va_email := ov_email over, va_options := ov_options over\<rparr>
             in case ov_media over of
                  None \<Rightarrow> Inr v
                | Some ids \<Rightarrow>
                    let items = map (override_item post target ids) [0..<length ids]
                    in if lefts items \<noteq> [] then Inl (lefts items)
                       else Inr (v\<lparr>va_media := rights items\<rparr>))"

section \<open>The snapshot\<close>

record PublishSnapshot =
  sn_post_id :: uuid
  sn_post_version :: int
  sn_variants :: "Variant list"

definition variant_for :: "PublishSnapshot \<Rightarrow> uuid \<Rightarrow> Variant option" where
  "variant_for snap account = find (\<lambda>v. acr_account (va_target v) = account) (sn_variants snap)"

section \<open>The post as one string\<close>

definition AROUND_A_LINK :: "nat list" where
  "AROUND_A_LINK = [46, 44, 59, 58, 33, 63, 40, 41, 91, 93, 60, 62, 34, 39, 1548, 1563, 1567]"

definition trim_chars :: "nat list \<Rightarrow> string \<Rightarrow> string" where
  "trim_chars cs s =
     (let p = (\<lambda>c. code_point c \<in> set cs)
      in concat (rev (dropWhile p (rev (dropWhile p (char_slices s))))))"

function words :: "string list \<Rightarrow> string list" where
  "words [] = []"
| "words (c # cs) =
     (if is_whitespace (code_point c) then words cs
      else concat (c # takeWhile (\<lambda>d. \<not> is_whitespace (code_point d)) cs)
             # words (dropWhile (\<lambda>d. \<not> is_whitespace (code_point d)) cs))"
  by pat_completeness auto

termination
  by (relation "measure length") (auto simp: less_Suc_eq_le length_dropWhile_le)

definition split_whitespace :: "string \<Rightarrow> string list" where
  "split_whitespace s = words (char_slices s)"

definition trim_slashes :: "string \<Rightarrow> string" where
  "trim_slashes s = trim_end (\<lambda>c. c = CHR ''/'') s"

definition holds_link :: "string \<Rightarrow> string \<Rightarrow> bool" where
  "holds_link txt link =
     list_ex (\<lambda>word. trim_slashes (trim_chars AROUND_A_LINK word) = trim_slashes link) (split_whitespace txt)"

text \<open>What follows each match of a non-empty needle, matches not overlapping.\<close>

function after_matches :: "string \<Rightarrow> string \<Rightarrow> string list" where
  "after_matches needle s =
     (if s = [] \<or> needle = [] then []
      else if take (length needle) s = needle
      then drop (length needle) s # after_matches needle (drop (length needle) s)
      else after_matches needle (tl s))"
  by pat_completeness auto

termination
  by (relation "measure (\<lambda>(needle, s). length s)") auto

declare after_matches.simps [simp del]

definition holds_tag :: "unicode \<Rightarrow> string \<Rightarrow> string \<Rightarrow> bool" where
  "holds_tag uc lowered hashtag =
     list_ex (\<lambda>rest.
       case char_slices rest of
         [] \<Rightarrow> True
       | c # _ \<Rightarrow> \<not> uc_alphanumeric uc (code_point c) \<and> c \<noteq> ''_'') (after_matches hashtag lowered)"

definition add_tag :: "unicode \<Rightarrow> string \<Rightarrow> string list \<Rightarrow> string \<Rightarrow> string list" where
  "add_tag uc lowered tags tag =
     (let hashtag = ''#'' @ tag; key = uc_lowercase uc hashtag
      in if \<not> holds_tag uc lowered key \<and> \<not> list_ex (\<lambda>t. uc_lowercase uc t = key) tags
         then tags @ [hashtag] else tags)"

definition newline :: string where
  "newline = [char_of (10 :: nat)]"

definition post_text :: "unicode \<Rightarrow> Variant \<Rightarrow> string" where
  "post_text uc v =
     (let lowered = uc_lowercase uc (va_text v);
          parts = (if va_text v = [] then [] else [va_text v]);
          parts = parts @ (case va_link v of
                     Some link \<Rightarrow> if holds_link (va_text v) link then [] else [link]
                   | None \<Rightarrow> []);
          tags = foldl (add_tag uc lowered) [] (va_tags v);
          parts = parts @ (if tags = [] then [] else [join '' '' tags])
      in join (newline @ newline) parts)"

end
