(* ===== verification/Store.thy ===== *)
theory Store
  imports Delivery Scope Text Quota_Store Post
begin

text \<open>
  The publishing tables and the writes to them: the model of
  \<^verbatim>\<open>backend/crates/data/src/publishing/deliveries.rs\<close> up to the scoped actions. A table is
  the list of its rows in primary key order of insertion, a row a record with the columns of
  \<^verbatim>\<open>data/migrations/0001_init.sql\<close>. The two text columns \<^verbatim>\<open>state\<close> and \<^verbatim>\<open>parked_reason\<close> are
  kept as the state they encode: \<open>from_parts_iff\<close> shows a pair and a state determine
  each other, and where a statement compares the columns the model compares the texts.

  A function that runs in a transaction returns the new database with its result; an error
  leaves the database of the caller as it was, because the transaction is rolled back. Integer
  columns are the 32-bit \<^verbatim>\<open>INTEGER\<close> of the schema: an update that leaves that range is the
  database error it is there.
\<close>

section \<open>Rows\<close>

datatype Operation = Op_Publish | Op_Comment | Op_Direct

fun operation_str :: "Operation \<Rightarrow> string" where
  "operation_str Op_Publish = ''publish''"
| "operation_str Op_Comment = ''comment''"
| "operation_str Op_Direct = ''direct''"

record delivery_row =
  d_id :: uuid
  d_owner_id :: uuid
  d_job_id :: uuid
  d_post_id :: uuid
  d_account_id :: uuid
  d_operation :: Operation
  d_idempotency_key :: "nat list"
  d_state :: DeliveryState
  d_dispatch_gen :: int
  d_lease_expires_at :: "timestamp option"
  d_cancel_requested_at :: "timestamp option"
  d_attempt_count :: int
  d_next_attempt_at :: "timestamp option"
  d_remote_id :: "string option"
  d_remote_url :: "string option"
  d_container_ref :: "string option"
  d_remote_publish_at :: "timestamp option"
  d_direct_counts :: "json option"
  d_last_error :: "json option"
  d_parked_notified_at :: "timestamp option"
  d_parked_until :: "timestamp option"
  d_check_seq :: int
  d_check_due_at :: "timestamp option"
  d_state_changed_at :: timestamp
  d_created_at :: timestamp
  d_updated_at :: timestamp
  d_created_by :: "uuid option"
  d_updated_by :: "uuid option"

record job_row =
  j_id :: uuid
  j_owner_id :: uuid
  j_post_id :: uuid
  j_post_version :: int
  j_recurrence_id :: "uuid option"
  j_snapshot :: PublishSnapshot
  j_scheduled_at :: timestamp
  j_native_schedule :: bool
  j_dry_run :: bool
  j_status :: JobStatus
  j_version :: int
  j_cancelled_at :: "timestamp option"
  j_created_at :: timestamp
  j_updated_at :: timestamp
  j_created_by :: "uuid option"
  j_updated_by :: "uuid option"

record post_row =
  p_id :: uuid
  p_owner_id :: uuid
  p_version :: int
  p_status :: string

record attempt_row =
  a_id :: uuid
  a_owner_id :: uuid
  a_delivery_id :: uuid
  a_started_at :: timestamp
  a_finished_at :: "timestamp option"
  a_outcome :: "string option"
  a_error :: "json option"
  a_request_summary :: "json option"
  a_updated_at :: timestamp

datatype SendState = DS_Queued | DS_Sent | DS_Failed | DS_Suppressed | DS_Bounced

record send_row =
  s_id :: uuid
  s_owner_id :: uuid
  s_delivery_id :: uuid
  s_contact_id :: "uuid option"
  s_email_hash :: "nat list"
  s_state :: SendState
  s_batch :: "uuid option"
  s_lease_expires_at :: "timestamp option"
  s_tries :: int
  s_sent_at :: "timestamp option"
  s_provider_message_id :: "string option"
  s_error_code :: "string option"
  s_updated_at :: timestamp

text \<open>
  Columns the engine reads of tables that other parts of the system write: users, accounts,
  platforms, contacts, contact list members and the suppression list.
\<close>

record user_row =
  u_id :: uuid
  u_status :: string

record account_row =
  ac_id :: uuid
  ac_owner_id :: uuid
  ac_platform_id :: string
  ac_status :: string
  ac_last_checked_at :: "timestamp option"
  ac_grant_id :: "uuid option"
  ac_display_name :: string

record platform_row =
  pl_id :: string
  pl_enabled :: bool

record contact_row =
  ct_id :: uuid
  ct_owner_id :: uuid
  ct_email :: string
  ct_email_hash :: "nat list"
  ct_first_name :: "string option"
  ct_last_name :: "string option"
  ct_fields :: json
  ct_locale :: "string option"
  ct_tags :: "string list"
  ct_status :: string
  ct_updated_by :: "uuid option"

record member_row =
  m_list_id :: uuid
  m_contact_id :: uuid
  m_owner_id :: uuid

record suppression_row =
  sp_owner_id :: uuid
  sp_email_hash :: "nat list"
  sp_reason :: string
  sp_owner_opt_out :: bool
  sp_updated_by :: "uuid option"

record limits_row =
  ul_user_id :: uuid
  ul_email_daily_cap :: int

record preferences_row =
  up_user_id :: uuid
  up_timezone :: string

text \<open>The tables of the publishing engine, on top of the quota tables.\<close>

record db = quota_db +
  deliveries :: "delivery_row list"
  publish_jobs :: "job_row list"
  posts :: "post_row list"
  delivery_attempts :: "attempt_row list"
  direct_sends :: "send_row list"
  users :: "user_row list"
  connected_accounts :: "account_row list"
  platforms :: "platform_row list"
  contacts :: "contact_row list"
  contact_list_members :: "member_row list"
  suppressions :: "suppression_row list"
  app_settings :: "(string \<times> json) list"
  user_limits :: "limits_row list"
  user_preferences :: "preferences_row list"

section \<open>Values passed in and out\<close>

record ClaimedDelivery =
  c_id :: uuid
  c_job_id :: uuid
  c_post_id :: uuid
  c_owner_id :: uuid
  c_account_id :: uuid
  c_dry_run :: bool
  c_native_schedule :: bool
  c_operation :: Operation
  c_dispatch_gen :: int
  c_attempt_count :: int
  c_container_ref :: "string option"
  c_cancel_requested :: bool

record CheckTarget =
  ct_delivery :: ClaimedDelivery
  ct_state :: DeliveryState
  ct_check_seq :: int
  ct_state_since :: timestamp
  ct_remote_id :: "string option"
  ct_remote_url :: "string option"
  ct_remote_publish_at :: "timestamp option"
  ct_attempt_started_at :: "timestamp option"

record Fence =
  f_id :: uuid
  f_dispatch_gen :: int
  f_expected :: DeliveryState

record TransitionData =
  td_remote_id :: "string option"
  td_remote_url :: "string option"
  td_remote_publish_at :: "timestamp option"
  td_last_error :: "json option"
  td_next_attempt_at :: "timestamp option"
  td_count_attempt :: bool
  td_reset_attempts :: bool
  td_direct_counts :: "json option"
  td_actor :: "uuid option"
  td_parked_until :: "timestamp option"
  td_check_due_at :: "timestamp option"

definition td_default :: TransitionData where
  "td_default = \<lparr>td_remote_id = None, td_remote_url = None, td_remote_publish_at = None,
     td_last_error = None, td_next_attempt_at = None, td_count_attempt = False,
     td_reset_attempts = False, td_direct_counts = None, td_actor = None,
     td_parked_until = None, td_check_due_at = None\<rparr>"

record JobStatusChange =
  jc_before :: JobStatus
  jc_after :: JobStatus

definition became_partial :: "JobStatusChange \<Rightarrow> bool" where
  "became_partial c = (jc_before c \<noteq> J_Partial \<and> jc_after c = J_Partial)"

record Dispatch =
  dp_delivery :: uuid
  dp_dispatch_gen :: int
  dp_run_at :: timestamp

datatype LeaseRenewal = Lost | Held bool

datatype Applied = Done DeliveryState "Dispatch option" JobStatusChange | Stale

record Receipt =
  rc_remote_id :: string
  rc_remote_url :: "string option"

definition coalesce :: "'a option \<Rightarrow> 'a option \<Rightarrow> 'a option" where
  "coalesce a b = (case a of None \<Rightarrow> b | Some x \<Rightarrow> Some x)"

lemma coalesce_simps [simp]:
  "coalesce None b = b"
  "coalesce (Some x) b = Some x"
  by (simp_all add: coalesce_def)

lemma coalesce_None: "coalesce a b = None \<longleftrightarrow> a = None \<and> b = None"
  by (cases a) simp_all

lemma coalesce_Some [simp]: "\<exists>y. coalesce a (Some b) = Some y"
  by (cases a) simp_all

section \<open>Job status\<close>

definition view_of :: "timestamp \<Rightarrow> delivery_row \<Rightarrow> DeliveryView" where
  "view_of now r =
     \<lparr>dv_state = d_state r,
      dv_next_attempt_at = (case d_next_attempt_at r of None \<Rightarrow> now | Some t \<Rightarrow> t),
      dv_awaiting_native_publish =
        (d_state r = S_Processing
         \<and> (case d_remote_publish_at r of None \<Rightarrow> False | Some t \<Rightarrow> t > now))\<rparr>"

definition live_open :: "job_row \<Rightarrow> bool" where
  "live_open j = (\<not> j_dry_run j \<and> (j_status j = J_Scheduled \<or> j_status j = J_Publishing))"

text \<open>Another job holds the slot of the partial unique index \<^verbatim>\<open>publish_jobs_one_live_job_idx\<close>.\<close>

definition live_slot_taken :: "job_row list \<Rightarrow> uuid \<Rightarrow> uuid \<Rightarrow> bool" where
  "live_slot_taken jobs job post =
     list_ex (\<lambda>k. j_id k \<noteq> job \<and> live_open k \<and> j_post_id k = post) jobs"

definition refresh_post :: "job_row list \<Rightarrow> job_row \<Rightarrow> JobStatus \<Rightarrow> post_row list \<Rightarrow> post_row list" where
  "refresh_post jobs info status ps =
     sql_update
       (\<lambda>p. p_owner_id p = j_owner_id info \<and> p_id p = j_post_id info
          \<and> (p_version p = j_post_version info \<or> \<not> live_slot_taken jobs (j_id info) (p_id p)))
       (\<lambda>p. p\<lparr>p_status := (if p_version p = j_post_version info then job_status_str status
                            else ''draft'')\<rparr>)
       ps"

definition refresh_job_status :: "db \<Rightarrow> uuid \<Rightarrow> timestamp \<Rightarrow> DataError + JobStatus \<times> db" where
  "refresh_job_status s job now =
     (let views = map (view_of now) (filter (\<lambda>r. d_job_id r = job) (deliveries s));
          status = derive_job_status views now;
          set_status = (\<lambda>j. j\<lparr>j_status := status, j_updated_at := now\<rparr>)
      in case row_by j_id job (publish_jobs s) of
           None \<Rightarrow> Inl DE_NotFound
         | Some j \<Rightarrow>
             if live_open (set_status j) \<and> live_slot_taken (publish_jobs s) job (j_post_id j)
             then Inl DE_JobActive
             else
               let jobs = sql_update (\<lambda>k. j_id k = job) set_status (publish_jobs s);
                   s1 = s\<lparr>publish_jobs := jobs\<rparr>
               in Inr (status,
                    if j_dry_run j then s1
                    else s1\<lparr>posts := refresh_post jobs j status (posts s1)\<rparr>))"

definition touch_job :: "db \<Rightarrow> uuid \<Rightarrow> timestamp \<Rightarrow> DataError + JobStatusChange \<times> db" where
  "touch_job s job now =
     (case row_by j_id job (publish_jobs s) of
        None \<Rightarrow> Inl DE_NotFound
      | Some j \<Rightarrow>
          if \<not> i32_ok (j_version j + 1) then Inl (DE_Sql ''integer out of range'')
          else
            let s1 = s\<lparr>publish_jobs := sql_update (\<lambda>k. j_id k = job)
                         (\<lambda>k. k\<lparr>j_version := j_version k + 1\<rparr>) (publish_jobs s)\<rparr>
            in bindE (refresh_job_status s1 job now)
                 (\<lambda>(after, s2). Inr (\<lparr>jc_before = j_status j, jc_after = after\<rparr>, s2)))"

section \<open>Rows of a direct delivery\<close>

text \<open>
  \<^verbatim>\<open>DirectRepo::progress\<close>, \<^verbatim>\<open>store_counts\<close> and \<^verbatim>\<open>cancel_queued\<close> of
  \<^verbatim>\<open>data/src/publishing/direct.rs\<close>, which a state change of a direct delivery calls.
\<close>

record DirectCounts =
  dc_audience :: int
  dc_queued :: int
  dc_sent :: int
  dc_failed :: int
  dc_suppressed :: int
  dc_bounced :: int

definition counts_json :: "DirectCounts \<Rightarrow> json" where
  "counts_json c = JObject
     [(''audience'', JNumber (dc_audience c)), (''queued'', JNumber (dc_queued c)),
      (''sent'', JNumber (dc_sent c)), (''failed'', JNumber (dc_failed c)),
      (''suppressed'', JNumber (dc_suppressed c)), (''bounced'', JNumber (dc_bounced c))]"

text \<open>
  \<^verbatim>\<open>COALESCE((direct_counts ->> 'audience')::bigint, 0)\<close>. A stored string of digits would be read
  too; the code stores numbers only, and the model takes every other value as the failing cast.
\<close>

definition stored_audience :: "json option \<Rightarrow> DataError + int" where
  "stored_audience counts =
     (case Option.bind counts (json_get ''audience'') of
        None \<Rightarrow> Inr 0
      | Some JNull \<Rightarrow> Inr 0
      | Some (JNumber n) \<Rightarrow>
          if i64_ok n then Inr n else Inl (DE_Sql ''bigint out of range'')
      | Some v \<Rightarrow> Inl (DE_Sql ''invalid input syntax for type bigint''))"

definition count_state :: "send_row list \<Rightarrow> uuid \<Rightarrow> SendState \<Rightarrow> int" where
  "count_state sends did st =
     int (length (filter (\<lambda>r. s_delivery_id r = did \<and> s_state r = st) sends))"

definition progress :: "db \<Rightarrow> uuid \<Rightarrow> DataError + DirectCounts" where
  "progress s did =
     (case row_by d_id did (deliveries s) of
        None \<Rightarrow> Inl DE_NotFound
      | Some d \<Rightarrow>
          bindE (stored_audience (d_direct_counts d)) (\<lambda>audience. Inr
            \<lparr>dc_audience = audience,
             dc_queued = count_state (direct_sends s) did DS_Queued,
             dc_sent = count_state (direct_sends s) did DS_Sent,
             dc_failed = count_state (direct_sends s) did DS_Failed,
             dc_suppressed = count_state (direct_sends s) did DS_Suppressed,
             dc_bounced = count_state (direct_sends s) did DS_Bounced\<rparr>))"

definition store_counts :: "db \<Rightarrow> uuid \<Rightarrow> DataError + db" where
  "store_counts s did =
     bindE (progress s did) (\<lambda>counts. Inr
       (s\<lparr>deliveries := sql_update (\<lambda>r. d_id r = did)
            (\<lambda>r. r\<lparr>d_direct_counts := Some (counts_json counts)\<rparr>) (deliveries s)\<rparr>))"

definition cancel_queued :: "db \<Rightarrow> uuid \<Rightarrow> timestamp \<Rightarrow> int \<times> db" where
  "cancel_queued s did now =
     (let p = (\<lambda>r. s_delivery_id r = did \<and> s_state r = DS_Queued)
      in (int (length (filter p (direct_sends s))),
          s\<lparr>direct_sends := sql_update p
              (\<lambda>r. r\<lparr>s_state := DS_Failed, s_error_code := Some ''cancelled'',
                     s_updated_at := now\<rparr>) (direct_sends s)\<rparr>))"

section \<open>The fenced write\<close>

definition fence_matches :: "Fence \<Rightarrow> delivery_row \<Rightarrow> bool" where
  "fence_matches f r =
     (d_id r = f_id f \<and> d_dispatch_gen r = f_dispatch_gen f
      \<and> state_str (d_state r) = state_str (f_expected f)
      \<and> parked_reason (d_state r) = parked_reason (f_expected f))"

definition job_is_cancelled :: "db \<Rightarrow> uuid \<Rightarrow> bool" where
  "job_is_cancelled s did =
     (case row_by d_id did (deliveries s) of
        None \<Rightarrow> False
      | Some d \<Rightarrow>
          (case row_by j_id (d_job_id d) (publish_jobs s) of
             None \<Rightarrow> False
           | Some j \<Rightarrow> j_cancelled_at j \<noteq> None))"

text \<open>The \<^verbatim>\<open>SET\<close> list of the update in \<^verbatim>\<open>DeliveryRepo::apply\<close>.\<close>

definition apply_row :: "DeliveryState \<Rightarrow> TransitionData \<Rightarrow> timestamp \<Rightarrow> delivery_row \<Rightarrow> delivery_row" where
  "apply_row to data now r = r\<lparr>
     d_state := to,
     d_dispatch_gen := d_dispatch_gen r + (if to = S_Pending \<or> to = S_Cancelled then 1 else 0),
     d_next_attempt_at :=
       (if to = S_Pending then coalesce (td_next_attempt_at data) (Some now)
        else coalesce (td_next_attempt_at data) (d_next_attempt_at r)),
     d_lease_expires_at :=
       (if to = S_Claimed \<or> to = S_InFlight then d_lease_expires_at r else None),
     d_remote_id := coalesce (td_remote_id data) (d_remote_id r),
     d_remote_url := coalesce (td_remote_url data) (d_remote_url r),
     d_remote_publish_at := coalesce (td_remote_publish_at data) (d_remote_publish_at r),
     d_last_error := coalesce (td_last_error data) (d_last_error r),
     d_direct_counts := coalesce (td_direct_counts data) (d_direct_counts r),
     d_cancel_requested_at :=
       (if td_reset_attempts data \<and> to = S_Pending then None else d_cancel_requested_at r),
     d_attempt_count :=
       (if td_reset_attempts data then 0
        else if td_count_attempt data then d_attempt_count r + 1
        else d_attempt_count r),
     d_parked_notified_at :=
       (if state_str to = ''parked'' then d_parked_notified_at r else None),
     d_parked_until := (if state_str to = ''parked'' then td_parked_until data else None),
     d_check_seq := 0,
     d_state_changed_at := now,
     d_check_due_at :=
       (if to = S_Processing \<or> to = S_OutcomeUnknown
        then coalesce (td_check_due_at data) (Some now) else None),
     d_updated_by := coalesce (td_actor data) (d_updated_by r),
     d_updated_at := now\<rparr>"

definition row_fits :: "delivery_row \<Rightarrow> bool" where
  "row_fits r = (i32_ok (d_dispatch_gen r) \<and> i32_ok (d_attempt_count r) \<and> i32_ok (d_check_seq r))"

definition stops_rows :: "DeliveryState \<Rightarrow> bool" where
  "stops_rows to = (to = S_Cancelled \<or> to = S_Failed \<or> to = S_DeadLetter)"

definition apply_target :: "db \<Rightarrow> Fence \<Rightarrow> DeliveryState \<Rightarrow> DeliveryState" where
  "apply_target s f to = (if to = S_Pending \<and> job_is_cancelled s (f_id f) then S_Cancelled else to)"

definition stop_direct :: "db \<Rightarrow> uuid \<Rightarrow> DeliveryState \<Rightarrow> Operation \<Rightarrow> timestamp \<Rightarrow> DataError + db" where
  "stop_direct s did to op now =
     (if stops_rows to \<and> op = Op_Direct
      then store_counts (snd (cancel_queued s did now)) did
      else Inr s)"

definition transition_conflict :: "TransitionError \<Rightarrow> DataError" where
  "transition_conflict e =
     (case e of
        NotAllowed _ _ \<Rightarrow> DE_Conflict ''transition_not_allowed''
      | AcknowledgementRequired \<Rightarrow> DE_Conflict ''acknowledgement_required'')"

definition redispatch_of :: "DeliveryState \<Rightarrow> delivery_row \<Rightarrow> Dispatch option" where
  "redispatch_of to r =
     (case d_next_attempt_at r of
        Some run_at \<Rightarrow>
          if to = S_Pending
          then Some \<lparr>dp_delivery = d_id r, dp_dispatch_gen = d_dispatch_gen r, dp_run_at = run_at\<rparr>
          else None
      | None \<Rightarrow> None)"

definition apply_write ::
  "db \<Rightarrow> Fence \<Rightarrow> DeliveryState \<Rightarrow> TransitionData \<Rightarrow> timestamp \<Rightarrow> DataError + Applied \<times> db" where
  "apply_write s f to data now =
     (case find (fence_matches f) (deliveries s) of
        None \<Rightarrow> Inr (Stale, s)
      | Some old \<Rightarrow>
          let new = apply_row to data now old
          in if \<not> row_fits new then Inl (DE_Sql ''integer out of range'')
             else
               let s1 = s\<lparr>deliveries :=
                     sql_update (fence_matches f) (apply_row to data now) (deliveries s)\<rparr>
               in bindE (touch_job s1 (d_job_id new) now) (\<lambda>(job, s2).
                  bindE (stop_direct s2 (f_id f) to (d_operation new) now) (\<lambda>s3.
                  Inr (Done to (redispatch_of to new) job, s3))))"

definition apply_event ::
  "db \<Rightarrow> Fence \<Rightarrow> DeliveryEvent \<Rightarrow> TransitionData \<Rightarrow> timestamp \<Rightarrow> DataError + Applied \<times> db" where
  "apply_event s f event data now =
     bindE (map_err transition_conflict (transition (f_expected f) event))
       (\<lambda>to. apply_write s f (apply_target s f to) data now)"

section \<open>Claims, leases and checks\<close>

definition claimable :: "db \<Rightarrow> uuid \<Rightarrow> int \<Rightarrow> timestamp \<Rightarrow> delivery_row \<Rightarrow> bool" where
  "claimable s did gen now r =
     (d_id r = did \<and> d_dispatch_gen r = gen \<and> d_state r = S_Pending
      \<and> (case d_next_attempt_at r of None \<Rightarrow> False | Some t \<Rightarrow> t \<le> now)
      \<and> (case row_by j_id (d_job_id r) (publish_jobs s) of
            None \<Rightarrow> False
          | Some j \<Rightarrow> j_cancelled_at j = None))"

definition claimed_of :: "job_row \<Rightarrow> delivery_row \<Rightarrow> ClaimedDelivery" where
  "claimed_of j r =
     \<lparr>c_id = d_id r, c_job_id = d_job_id r, c_post_id = d_post_id r, c_owner_id = d_owner_id r,
      c_account_id = d_account_id r, c_dry_run = j_dry_run j,
      c_native_schedule = j_native_schedule j, c_operation = d_operation r,
      c_dispatch_gen = d_dispatch_gen r, c_attempt_count = d_attempt_count r,
      c_container_ref = d_container_ref r,
      c_cancel_requested = (d_cancel_requested_at r \<noteq> None)\<rparr>"

definition claim_row :: "timestamp \<Rightarrow> timestamp \<Rightarrow> delivery_row \<Rightarrow> delivery_row" where
  "claim_row now expires r =
     r\<lparr>d_state := S_Claimed, d_lease_expires_at := Some expires, d_state_changed_at := now,
       d_updated_at := now\<rparr>"

definition claim ::
  "db \<Rightarrow> uuid \<Rightarrow> int \<Rightarrow> timestamp \<Rightarrow> int \<Rightarrow> DataError + ClaimedDelivery option \<times> db" where
  "claim s did gen now lease =
     (case find (claimable s did gen now) (deliveries s) of
        None \<Rightarrow> Inr (None, s)
      | Some old \<Rightarrow>
          (case row_by j_id (d_job_id old) (publish_jobs s) of
             None \<Rightarrow> Inr (None, s)
           | Some j \<Rightarrow>
               let s1 = s\<lparr>deliveries := sql_update (claimable s did gen now)
                            (claim_row now (now + lease)) (deliveries s)\<rparr>
               in bindE (touch_job s1 (d_job_id old) now) (\<lambda>(change, s2).
                  Inr (Some (claimed_of j (claim_row now (now + lease) old)), s2))))"

definition leased :: "uuid \<Rightarrow> int \<Rightarrow> delivery_row \<Rightarrow> bool" where
  "leased did gen r =
     (d_id r = did \<and> d_dispatch_gen r = gen \<and> (d_state r = S_Claimed \<or> d_state r = S_InFlight))"

definition renew_lease :: "db \<Rightarrow> uuid \<Rightarrow> int \<Rightarrow> timestamp \<Rightarrow> int \<Rightarrow> LeaseRenewal \<times> db" where
  "renew_lease s did gen now lease =
     (case find (leased did gen) (deliveries s) of
        None \<Rightarrow> (Lost, s)
      | Some r \<Rightarrow>
          (Held (d_cancel_requested_at r \<noteq> None),
           s\<lparr>deliveries := sql_update (leased did gen)
               (\<lambda>r. r\<lparr>d_lease_expires_at := Some (now + lease), d_updated_at := now\<rparr>)
               (deliveries s)\<rparr>))"

definition set_container_ref :: "db \<Rightarrow> Fence \<Rightarrow> string \<Rightarrow> bool \<times> db" where
  "set_container_ref s f cref =
     (list_ex (fence_matches f) (deliveries s),
      s\<lparr>deliveries := sql_update (fence_matches f) (\<lambda>r. r\<lparr>d_container_ref := Some cref\<rparr>)
          (deliveries s)\<rparr>)"

definition check_matches :: "Fence \<Rightarrow> int \<Rightarrow> delivery_row \<Rightarrow> bool" where
  "check_matches f seq r = (fence_matches f r \<and> d_check_seq r = seq)"

definition take_check :: "db \<Rightarrow> Fence \<Rightarrow> int \<Rightarrow> timestamp \<Rightarrow> DataError + bool \<times> db" where
  "take_check s f seq next_due =
     (if list_ex (check_matches f seq) (deliveries s) \<and> \<not> i32_ok (seq + 1)
      then Inl (DE_Sql ''integer out of range'')
      else Inr (list_ex (check_matches f seq) (deliveries s),
        s\<lparr>deliveries := sql_update (check_matches f seq)
            (\<lambda>r. r\<lparr>d_check_seq := d_check_seq r + 1, d_check_due_at := Some next_due\<rparr>)
            (deliveries s)\<rparr>))"

definition set_check_due :: "db \<Rightarrow> Fence \<Rightarrow> int \<Rightarrow> timestamp \<Rightarrow> bool \<times> db" where
  "set_check_due s f seq due =
     (list_ex (check_matches f seq) (deliveries s),
      s\<lparr>deliveries := sql_update (check_matches f seq) (\<lambda>r. r\<lparr>d_check_due_at := Some due\<rparr>)
          (deliveries s)\<rparr>)"

text \<open>\<^verbatim>\<open>max(a.started_at)\<close>, \<^verbatim>\<open>NULL\<close> when there is no attempt.\<close>

definition last_attempt :: "attempt_row list \<Rightarrow> uuid \<Rightarrow> timestamp option" where
  "last_attempt attempts did =
     (case map a_started_at (filter (\<lambda>a. a_delivery_id a = did) attempts) of
        [] \<Rightarrow> None
      | t # ts \<Rightarrow> Some (foldl max t ts))"

definition check_target :: "db \<Rightarrow> uuid \<Rightarrow> CheckTarget option" where
  "check_target s did =
     (case row_by d_id did (deliveries s) of
        None \<Rightarrow> None
      | Some r \<Rightarrow>
          (case row_by j_id (d_job_id r) (publish_jobs s) of
             None \<Rightarrow> None
           | Some j \<Rightarrow> Some
               \<lparr>ct_delivery = claimed_of j r, ct_state = d_state r, ct_check_seq = d_check_seq r,
                ct_state_since = d_state_changed_at r, ct_remote_id = d_remote_id r,
                ct_remote_url = d_remote_url r, ct_remote_publish_at = d_remote_publish_at r,
                ct_attempt_started_at = last_attempt (delivery_attempts s) did\<rparr>))"

definition unanswered :: "uuid \<Rightarrow> delivery_row \<Rightarrow> bool" where
  "unanswered did r = (d_id r = did \<and> d_state r = S_OutcomeUnknown \<and> d_remote_id r = None)"

definition receipt_row :: "DeliveryState \<Rightarrow> Receipt \<Rightarrow> timestamp \<Rightarrow> delivery_row \<Rightarrow> delivery_row" where
  "receipt_row to receipt now r =
     r\<lparr>d_state := to, d_remote_id := Some (rc_remote_id receipt),
       d_remote_url := rc_remote_url receipt, d_lease_expires_at := None,
       d_parked_notified_at := None, d_check_seq := 0, d_check_due_at := None,
       d_state_changed_at := now, d_updated_at := now\<rparr>"

definition record_late_receipt ::
  "db \<Rightarrow> uuid \<Rightarrow> Receipt \<Rightarrow> timestamp \<Rightarrow> DataError + JobStatusChange option \<times> db" where
  "record_late_receipt s did receipt now =
     bindE (map_err (\<lambda>_. DE_Conflict ''transition_not_allowed'')
              (transition S_OutcomeUnknown E_ReconcileFound)) (\<lambda>to.
       case find (unanswered did) (deliveries s) of
         None \<Rightarrow> Inr (None, s)
       | Some old \<Rightarrow>
           let s1 = s\<lparr>deliveries := sql_update (unanswered did) (receipt_row to receipt now)
                        (deliveries s)\<rparr>
           in bindE (touch_job s1 (d_job_id old) now) (\<lambda>(change, s2). Inr (Some change, s2)))"

definition native_matches :: "Fence \<Rightarrow> delivery_row \<Rightarrow> bool" where
  "native_matches f r =
     (d_id r = f_id f \<and> d_dispatch_gen r = f_dispatch_gen f
      \<and> state_str (d_state r) = state_str (f_expected f) \<and> d_remote_publish_at r \<noteq> None)"

definition set_remote_publish_at ::
  "db \<Rightarrow> Fence \<Rightarrow> timestamp \<Rightarrow> timestamp \<Rightarrow> DataError + JobStatusChange option \<times> db" where
  "set_remote_publish_at s f at now =
     (case find (native_matches f) (deliveries s) of
        None \<Rightarrow> Inr (None, s)
      | Some old \<Rightarrow>
          let s1 = s\<lparr>deliveries := sql_update (native_matches f)
                       (\<lambda>r. r\<lparr>d_remote_publish_at := Some at, d_updated_at := now\<rparr>)
                       (deliveries s)\<rparr>
          in bindE (touch_job s1 (d_job_id old) now) (\<lambda>(change, s2). Inr (Some change, s2)))"

section \<open>Attempts\<close>

text \<open>\<open>clock\<close> is the database's own \<^verbatim>\<open>now()\<close>, the default of \<^verbatim>\<open>updated_at\<close>.\<close>

definition attempt_start ::
  "db \<Rightarrow> timestamp \<Rightarrow> uuid \<Rightarrow> uuid \<Rightarrow> timestamp \<Rightarrow> DataError + db" where
  "attempt_start s clock aid did now =
     (case row_by d_id did (deliveries s) of
        None \<Rightarrow> Inl DE_NotFound
      | Some r \<Rightarrow>
          if list_ex (\<lambda>a. a_id a = aid) (delivery_attempts s)
          then Inl (DE_Sql ''duplicate key'')
          else Inr (s\<lparr>delivery_attempts := delivery_attempts s @
            [\<lparr>a_id = aid, a_owner_id = d_owner_id r, a_delivery_id = d_id r, a_started_at = now,
              a_finished_at = None, a_outcome = None, a_error = None,
              a_request_summary = None, a_updated_at = clock\<rparr>]\<rparr>))"

definition attempt_finish ::
  "db \<Rightarrow> uuid \<Rightarrow> string \<Rightarrow> json option \<Rightarrow> json option \<Rightarrow> timestamp \<Rightarrow> DataError + db" where
  "attempt_finish s aid outcome err summary now =
     (if list_ex (\<lambda>a. a_id a = aid) (delivery_attempts s)
      then Inr (s\<lparr>delivery_attempts := sql_update (\<lambda>a. a_id a = aid)
             (\<lambda>a. a\<lparr>a_finished_at := Some now, a_outcome := Some outcome, a_error := err,
                    a_request_summary := summary, a_updated_at := now\<rparr>)
             (delivery_attempts s)\<rparr>)
      else Inl DE_NotFound)"

end
