(* ===== verification/Store_Inv.thy ===== *)
theory Store_Inv
  imports Store
begin

text \<open>
  What every reachable state of the publishing tables satisfies, and that the writes of
  \<open>Store\<close> keep it.
  \<^item> \<open>delivery_ok\<close> ties the columns of one delivery to its state: a lease exactly while a
    worker may hold it, a check time exactly while a poll or reconcile chain runs, a due time
    while it waits.
  \<^item> \<open>rollup_ok\<close>: a job is open exactly while one of its deliveries has not ended.
  \<^item> \<open>cancel_ok\<close>: a cancelled job has no delivery that waits for a worker or was only claimed,
    so nothing is stranded and nothing starts.
  \<^item> \<open>live_ok\<close>: at most one live open job per post.
\<close>

section \<open>The invariant\<close>

definition open_status :: "JobStatus \<Rightarrow> bool" where
  "open_status st = (st = J_Scheduled \<or> st = J_Publishing)"

definition delivery_ok :: "delivery_row \<Rightarrow> bool" where
  "delivery_ok r =
     ((d_lease_expires_at r \<noteq> None) = (d_state r = S_Claimed \<or> d_state r = S_InFlight)
      \<and> (d_check_due_at r \<noteq> None) = (d_state r = S_Processing \<or> d_state r = S_OutcomeUnknown)
      \<and> (d_state r = S_Pending \<longrightarrow> d_next_attempt_at r \<noteq> None)
      \<and> (d_parked_until r \<noteq> None \<longrightarrow> state_str (d_state r) = ''parked'')
      \<and> row_fits r)"

definition keys_ok :: "db \<Rightarrow> bool" where
  "keys_ok s =
     (distinct (map d_id (deliveries s)) \<and> distinct (map j_id (publish_jobs s))
      \<and> list_all (\<lambda>r. d_job_id r \<in> set (map j_id (publish_jobs s))) (deliveries s))"

definition rollup_ok :: "db \<Rightarrow> job_row \<Rightarrow> bool" where
  "rollup_ok s j =
     (open_status (j_status j)
      = list_ex (\<lambda>r. d_job_id r = j_id j \<and> \<not> is_terminal (d_state r)) (deliveries s))"

definition cancel_ok :: "uuid set \<Rightarrow> db \<Rightarrow> job_row \<Rightarrow> bool" where
  "cancel_ok X s j =
     (j_cancelled_at j \<noteq> None \<longrightarrow>
        list_all (\<lambda>r. d_job_id r = j_id j \<and> d_id r \<notin> X \<longrightarrow> d_state r \<noteq> S_Pending \<and> d_state r \<noteq> S_Claimed)
          (deliveries s))"

definition live_ok :: "job_row list \<Rightarrow> bool" where
  "live_ok jobs =
     list_all (\<lambda>j. live_open j \<longrightarrow> \<not> live_slot_taken jobs (j_id j) (j_post_id j)) jobs"

text \<open>
  The set \<open>X\<close> names deliveries that a cancel of their whole job has not reached yet; between
  transactions it is empty.

  Everything but the roll-up of one job, which a write is about to refresh.\<close>

definition db_inv_but :: "uuid set \<Rightarrow> uuid \<Rightarrow> db \<Rightarrow> bool" where
  "db_inv_but X job s =
     (keys_ok s \<and> list_all delivery_ok (deliveries s) \<and> live_ok (publish_jobs s)
      \<and> list_all (cancel_ok X s) (publish_jobs s)
      \<and> list_all (\<lambda>j. j_id j \<noteq> job \<longrightarrow> rollup_ok s j) (publish_jobs s))"

definition db_inv :: "uuid set \<Rightarrow> db \<Rightarrow> bool" where
  "db_inv X s =
     (keys_ok s \<and> list_all delivery_ok (deliveries s) \<and> live_ok (publish_jobs s)
      \<and> list_all (cancel_ok X s) (publish_jobs s) \<and> list_all (rollup_ok s) (publish_jobs s))"

abbreviation db_ok :: "db \<Rightarrow> bool" where
  "db_ok \<equiv> db_inv {}"

lemma live_open_status: "live_open j \<longleftrightarrow> \<not> j_dry_run j \<and> open_status (j_status j)"
  by (simp add: live_open_def open_status_def)

lemma db_inv_row: "db_inv X s \<Longrightarrow> r \<in> set (deliveries s) \<Longrightarrow> delivery_ok r"
  by (simp add: db_inv_def list_all_iff)

lemma db_inv_job:
  assumes "db_inv X s" and "r \<in> set (deliveries s)"
  obtains j where "row_by j_id (d_job_id r) (publish_jobs s) = Some j"
proof -
  from assms have "d_job_id r \<in> j_id ` set (publish_jobs s)"
    by (simp add: db_inv_def keys_ok_def list_all_iff)
  then have "row_by j_id (d_job_id r) (publish_jobs s) \<noteq> None"
    unfolding row_by_None_iff by force
  then show ?thesis using that by blast
qed

lemma db_inv_unique:
  "db_inv X s \<Longrightarrow> r \<in> set (deliveries s) \<Longrightarrow> row_by d_id (d_id r) (deliveries s) = Some r"
  by (simp add: db_inv_def keys_ok_def row_by_unique)

section \<open>Refreshing a job\<close>

definition refreshed :: "db \<Rightarrow> timestamp \<Rightarrow> job_row \<Rightarrow> job_row" where
  "refreshed s now j = j\<lparr>j_status := derive_job_status
       (map (view_of now) (filter (\<lambda>r. d_job_id r = j_id j) (deliveries s))) now,
     j_updated_at := now\<rparr>"

lemma refreshed_simps [simp]:
  "j_id (refreshed s now j) = j_id j"
  "j_post_id (refreshed s now j) = j_post_id j"
  "j_dry_run (refreshed s now j) = j_dry_run j"
  "j_cancelled_at (refreshed s now j) = j_cancelled_at j"
  by (simp_all add: refreshed_def)

lemma open_status_refreshed:
  "open_status (j_status (refreshed s now j))
   = list_ex (\<lambda>r. d_job_id r = j_id j \<and> \<not> is_terminal (d_state r)) (deliveries s)"
proof -
  let ?views = "map (view_of now) (filter (\<lambda>r. d_job_id r = j_id j) (deliveries s))"
  have "open_status (derive_job_status ?views now)
      = (derive_job_status ?views now \<in> {J_Scheduled, J_Publishing})"
    by (simp add: open_status_def)
  also have "\<dots> = list_ex (\<lambda>r. d_job_id r = j_id j \<and> \<not> is_terminal (d_state r)) (deliveries s)"
    unfolding derive_job_status_ended by (auto simp: list_ex_iff view_of_def)
  finally show ?thesis by (simp add: refreshed_def)
qed

text \<open>What the refresh did when it succeeded.\<close>

lemma refresh_shape:
  assumes "refresh_job_status s job now = Inr (status, t)"
  obtains j where
    "row_by j_id job (publish_jobs s) = Some j"
    "deliveries t = deliveries s"
    "publish_jobs t = sql_update (\<lambda>k. j_id k = job) (refreshed s now) (publish_jobs s)"
    "live_open (refreshed s now j) \<Longrightarrow> \<not> live_slot_taken (publish_jobs s) job (j_post_id j)"
    "status = j_status (refreshed s now j)"
proof -
  from assms obtain j where j: "row_by j_id job (publish_jobs s) = Some j"
    by (auto simp: refresh_job_status_def Let_def split: option.splits)
  have id: "j_id j = job" by (rule row_by_key [OF j])
  have jobs: "sql_update (\<lambda>k. j_id k = job)
        (\<lambda>k. k\<lparr>j_status := derive_job_status
            (map (view_of now) (filter (\<lambda>r. d_job_id r = job) (deliveries s))) now,
          j_updated_at := now\<rparr>) (publish_jobs s)
      = sql_update (\<lambda>k. j_id k = job) (refreshed s now) (publish_jobs s)"
    by (auto simp: sql_update_def refreshed_def)
  from assms j
  have "deliveries t = deliveries s"
    by (auto simp: refresh_job_status_def Let_def split: if_splits)
  moreover from assms j jobs
  have "publish_jobs t = sql_update (\<lambda>k. j_id k = job) (refreshed s now) (publish_jobs s)"
    by (auto simp: refresh_job_status_def Let_def split: if_splits)
  moreover from assms j have "status = j_status (refreshed s now j)"
    by (auto simp: refresh_job_status_def Let_def refreshed_def id split: if_splits)
  moreover from assms j
  have "\<not> live_slot_taken (publish_jobs s) job (j_post_id j)" if "live_open (refreshed s now j)"
    using that
    by (auto simp: refresh_job_status_def Let_def refreshed_def id live_open_def split: if_splits)
  ultimately show ?thesis using j that by blast
qed

lemma live_ok_refreshed:
  assumes "live_ok jobs" and "distinct (map j_id jobs)" and "row_by j_id job jobs = Some j"
    and "live_open (refreshed s now j) \<Longrightarrow> \<not> live_slot_taken jobs job (j_post_id j)"
  shows "live_ok (sql_update (\<lambda>k. j_id k = job) (refreshed s now) jobs)"
proof -
  have only: "k = j" if "k \<in> set jobs" "j_id k = job" for k
    using row_by_unique [OF assms(2) that(1)] assms(3) that(2) by simp
  have "{k \<in> set jobs. j_id k = job} = {j}"
    using only row_by_mem [OF assms(3)] row_by_key [OF assms(3)] by blast
  then show ?thesis
    using assms(1,4) row_by_mem [OF assms(3)] row_by_key [OF assms(3)]
    by (auto simp: live_ok_def live_slot_taken_def list_all_iff list_ex_iff set_sql_update)
qed

lemma refresh_ok:
  assumes "db_inv_but X job s" and "refresh_job_status s job now = Inr (status, t)"
  shows "db_inv X t"
proof -
  obtain j where j: "row_by j_id job (publish_jobs s) = Some j"
    and dels: "deliveries t = deliveries s"
    and jobs: "publish_jobs t = sql_update (\<lambda>k. j_id k = job) (refreshed s now) (publish_jobs s)"
    and free: "live_open (refreshed s now j) \<Longrightarrow> \<not> live_slot_taken (publish_jobs s) job (j_post_id j)"
    using refresh_shape [OF assms(2)] by metis
  from assms(1) have s: "keys_ok s" "list_all delivery_ok (deliveries s)" "live_ok (publish_jobs s)"
    "list_all (cancel_ok X s) (publish_jobs s)"
    "list_all (\<lambda>j. j_id j \<noteq> job \<longrightarrow> rollup_ok s j) (publish_jobs s)"
    by (simp_all add: db_inv_but_def)
  have ids: "map j_id (publish_jobs t) = map j_id (publish_jobs s)"
    by (simp add: jobs map_sql_update_same)
  have "keys_ok t"
    using s(1) unfolding keys_ok_def ids dels .
  moreover have "live_ok (publish_jobs t)"
    using live_ok_refreshed [OF s(3) _ j free] s(1) by (simp add: jobs keys_ok_def)
  moreover have "list_all (cancel_ok X t) (publish_jobs t)"
    using s(4) by (auto simp: jobs dels list_all_iff set_sql_update cancel_ok_def)
  moreover have "list_all (rollup_ok t) (publish_jobs t)"
    using s(5) by (auto simp: jobs dels list_all_iff set_sql_update rollup_ok_def open_status_refreshed)
  ultimately show ?thesis using s(2) by (simp add: db_inv_def dels)
qed

text \<open>A write to columns of jobs that the invariant does not read.\<close>

definition keeps_job :: "(job_row \<Rightarrow> job_row) \<Rightarrow> bool" where
  "keeps_job g \<longleftrightarrow> (\<forall>j. j_id (g j) = j_id j \<and> j_status (g j) = j_status j
     \<and> j_post_id (g j) = j_post_id j \<and> j_dry_run (g j) = j_dry_run j
     \<and> j_cancelled_at (g j) = j_cancelled_at j)"

lemma live_ok_cong:
  assumes "\<And>j. j_id (g j) = j_id j" and "\<And>j. j_post_id (g j) = j_post_id j"
    and "\<And>j. live_open (g j) = live_open j"
  shows "live_ok (sql_update p g jobs) = live_ok jobs"
proof -
  have "live_slot_taken (sql_update p g jobs) i q = live_slot_taken jobs i q" for i q
    unfolding live_slot_taken_def using assms by (simp add: list_ex_sql_update_same)
  with assms show ?thesis by (simp add: live_ok_def list_all_sql_update_same)
qed

lemma keeps_job_live: "keeps_job g \<Longrightarrow> live_ok (sql_update p g jobs) = live_ok jobs"
  by (rule live_ok_cong) (simp_all add: keeps_job_def live_open_def)

lemma keeps_job_ok:
  assumes "keeps_job g"
  shows "db_inv_but X job (s\<lparr>publish_jobs := sql_update p g (publish_jobs s)\<rparr>) = db_inv_but X job s"
    and "db_inv X (s\<lparr>publish_jobs := sql_update p g (publish_jobs s)\<rparr>) = db_inv X s"
  using assms
  by (simp_all add: db_inv_but_def db_inv_def keeps_job_live keys_ok_def rollup_ok_def [abs_def]
      cancel_ok_def [abs_def] list_all_sql_update_same map_sql_update_same keeps_job_def del: set_map)

lemma touch_job_cases:
  assumes "touch_job s job now = Inr (c, t)"
  obtains j where "row_by j_id job (publish_jobs s) = Some j"
    "refresh_job_status (s\<lparr>publish_jobs := sql_update (\<lambda>k. j_id k = job)
       (\<lambda>k. k\<lparr>j_version := j_version k + 1\<rparr>) (publish_jobs s)\<rparr>) job now = Inr (jc_after c, t)"
    "jc_before c = j_status j"
  using assms
  by (auto simp: touch_job_def result_simps Let_def split: option.splits if_splits)

lemma keeps_job_version: "keeps_job (\<lambda>k. k\<lparr>j_version := j_version k + 1\<rparr>)"
  by (simp add: keeps_job_def)

lemma touch_job_ok:
  assumes "db_inv_but X job s" and "touch_job s job now = Inr (c, t)"
  shows "db_inv X t"
proof -
  obtain j where "refresh_job_status (s\<lparr>publish_jobs := sql_update (\<lambda>k. j_id k = job)
       (\<lambda>k. k\<lparr>j_version := j_version k + 1\<rparr>) (publish_jobs s)\<rparr>) job now = Inr (jc_after c, t)"
    using assms(2) by (rule touch_job_cases)
  with iffD2 [OF keeps_job_ok(1) [OF keeps_job_version] assms(1)] show ?thesis
    by (rule refresh_ok)
qed

text \<open>Neither touches a delivery or an attempt.\<close>

lemma refresh_tables:
  assumes "refresh_job_status s job now = Inr (status, t)"
  shows "deliveries t = deliveries s" "direct_sends t = direct_sends s"
    "delivery_attempts t = delivery_attempts s" "map j_id (publish_jobs t) = map j_id (publish_jobs s)"
    "map j_cancelled_at (publish_jobs t) = map j_cancelled_at (publish_jobs s)"
  using assms
  by (auto simp: refresh_job_status_def Let_def map_sql_update_same split: option.splits if_splits)

lemma touch_job_tables:
  assumes "touch_job s job now = Inr (c, t)"
  shows "deliveries t = deliveries s" "direct_sends t = direct_sends s"
    "delivery_attempts t = delivery_attempts s" "map j_id (publish_jobs t) = map j_id (publish_jobs s)"
    "map j_cancelled_at (publish_jobs t) = map j_cancelled_at (publish_jobs s)"
proof -
  let ?s1 = "s\<lparr>publish_jobs := sql_update (\<lambda>k. j_id k = job)
       (\<lambda>k. k\<lparr>j_version := j_version k + 1\<rparr>) (publish_jobs s)\<rparr>"
  obtain j where r: "refresh_job_status ?s1 job now = Inr (jc_after c, t)"
    using assms by (rule touch_job_cases)
  show "deliveries t = deliveries s" "direct_sends t = direct_sends s"
    "delivery_attempts t = delivery_attempts s" "map j_id (publish_jobs t) = map j_id (publish_jobs s)"
    "map j_cancelled_at (publish_jobs t) = map j_cancelled_at (publish_jobs s)"
    using refresh_tables [OF r] by (simp_all add: map_sql_update_same)
qed

section \<open>Writes to deliveries\<close>

text \<open>A write keeps the keys of a row when it changes neither its id nor its job.\<close>

definition keeps_keys :: "(delivery_row \<Rightarrow> delivery_row) \<Rightarrow> bool" where
  "keeps_keys f \<longleftrightarrow> (\<forall>r. d_id (f r) = d_id r \<and> d_job_id (f r) = d_job_id r)"

abbreviation write_deliveries ::
  "db \<Rightarrow> (delivery_row \<Rightarrow> bool) \<Rightarrow> (delivery_row \<Rightarrow> delivery_row) \<Rightarrow> db" where
  "write_deliveries s p f \<equiv> s\<lparr>deliveries := sql_update p f (deliveries s)\<rparr>"

lemma db_inv_tables:
  assumes "db_inv X s" and "deliveries t = deliveries s" and "publish_jobs t = publish_jobs s"
  shows "db_inv X t"
  using assms by (simp add: db_inv_def keys_ok_def cancel_ok_def [abs_def] rollup_ok_def [abs_def])

lemma touch_ok: "db_inv X s \<Longrightarrow> touch_job s job now = Inr (c, t) \<Longrightarrow> db_inv X t"
  by (rule touch_job_ok [of X job]) (auto simp: db_inv_def db_inv_but_def list_all_iff)

lemma write_keys_ok:
  assumes "keys_ok s" and "keeps_keys f"
  shows "keys_ok (write_deliveries s p f)"
  using assms
  by (auto simp: keys_ok_def keeps_keys_def map_sql_update_same list_all_iff set_sql_update)

lemma write_ok_but:
  assumes ok: "db_inv X s" and f: "keeps_keys f"
    and one: "\<And>r. r \<in> set (deliveries s) \<Longrightarrow> p r \<Longrightarrow> d_job_id r = job"
    and row: "\<And>r. r \<in> set (deliveries s) \<Longrightarrow> p r \<Longrightarrow> delivery_ok (f r)"
    and stopped: "\<And>r j. r \<in> set (deliveries s) \<Longrightarrow> p r
      \<Longrightarrow> row_by j_id job (publish_jobs s) = Some j \<Longrightarrow> j_cancelled_at j \<noteq> None
      \<Longrightarrow> d_state (f r) \<noteq> S_Pending \<and> d_state (f r) \<noteq> S_Claimed"
  shows "db_inv_but X job (write_deliveries s p f)"
proof -
  from ok have "list_all (\<lambda>j. j_id j \<noteq> job \<longrightarrow> rollup_ok (write_deliveries s p f) j) (publish_jobs s)"
    using f one
    by (auto simp: db_inv_def list_all_iff rollup_ok_def list_ex_sql_update_same keeps_keys_def)
  moreover have "cancel_ok X (write_deliveries s p f) j" if j: "j \<in> set (publish_jobs s)" for j
  proof -
    have "row_by j_id (j_id j) (publish_jobs s) = Some j"
      using ok j by (simp add: db_inv_def keys_ok_def row_by_unique)
    moreover have "cancel_ok X s j" using ok j by (simp add: db_inv_def list_all_iff)
    ultimately show ?thesis
      using f one stopped
      by (auto simp: cancel_ok_def list_all_iff set_sql_update keeps_keys_def)
  qed
  ultimately show ?thesis
    using ok f row
    by (auto simp: db_inv_but_def db_inv_def write_keys_ok list_all_iff set_sql_update)
qed

text \<open>A write that moves no delivery needs no refresh.\<close>

lemma quiet_write_ok:
  assumes ok: "db_inv X s" and f: "keeps_keys f"
    and same: "\<And>r. d_state (f r) = d_state r"
    and row: "\<And>r. r \<in> set (deliveries s) \<Longrightarrow> p r \<Longrightarrow> delivery_ok (f r)"
  shows "db_inv X (write_deliveries s p f)"
proof -
  have "rollup_ok (write_deliveries s p f) j = rollup_ok s j" for j
    using f same by (simp add: rollup_ok_def list_ex_sql_update_same keeps_keys_def)
  moreover have "cancel_ok X (write_deliveries s p f) j = cancel_ok X s j" for j
    using f same by (simp add: cancel_ok_def list_all_sql_update_same keeps_keys_def)
  ultimately show ?thesis
    using ok f row by (auto simp: db_inv_def write_keys_ok list_all_iff set_sql_update)
qed

text \<open>Rows matched by primary key are one row.\<close>

lemma db_inv_same_row:
  "db_inv X s \<Longrightarrow> r \<in> set (deliveries s) \<Longrightarrow> q \<in> set (deliveries s) \<Longrightarrow> d_id r = d_id q \<Longrightarrow> r = q"
  by (metis db_inv_unique option.inject)

text \<open>A state change of the delivery \<open>old\<close> followed by the refresh of its job.\<close>

lemma move_ok:
  assumes ok: "db_inv X s" and f: "keeps_keys f"
    and old: "find p (deliveries s) = Some old"
    and key: "\<And>r. p r \<Longrightarrow> d_id r = d_id old"
    and row: "delivery_ok (f old)"
    and stopped: "\<And>j. row_by j_id (d_job_id old) (publish_jobs s) = Some j
      \<Longrightarrow> j_cancelled_at j \<noteq> None \<Longrightarrow> d_state (f old) \<noteq> S_Pending \<and> d_state (f old) \<noteq> S_Claimed"
    and touch: "touch_job (write_deliveries s p f) (d_job_id old) now = Inr (c, t)"
  shows "db_inv X t"
proof -
  from find_SomeD [OF old] have mem: "old \<in> set (deliveries s)" by simp
  have same: "r = old" if "r \<in> set (deliveries s)" "p r" for r
    using db_inv_same_row [OF ok that(1) mem] key [OF that(2)] by simp
  have "db_inv_but X (d_job_id old) (write_deliveries s p f)"
    using ok f by (rule write_ok_but) (use same row stopped in auto)
  then show ?thesis using touch by (rule touch_job_ok)
qed

section \<open>The fenced write keeps the invariant\<close>

lemma fence_matches_iff:
  "fence_matches f r \<longleftrightarrow>
     d_id r = f_id f \<and> d_dispatch_gen r = f_dispatch_gen f \<and> d_state r = f_expected f"
  by (auto simp: fence_matches_def state_columns_inject)

lemma apply_row_simps [simp]:
  "d_id (apply_row to data now r) = d_id r"
  "d_job_id (apply_row to data now r) = d_job_id r"
  "d_state (apply_row to data now r) = to"
  "d_operation (apply_row to data now r) = d_operation r"
  "d_owner_id (apply_row to data now r) = d_owner_id r"
  by (simp_all add: apply_row_def)

lemma keeps_keys_apply_row [simp]: "keeps_keys (apply_row to data now)"
  by (simp add: keeps_keys_def)

lemma apply_row_ok:
  assumes "delivery_ok r" and "row_fits (apply_row to data now r)" and "to \<noteq> S_Claimed"
    and "to = S_InFlight \<Longrightarrow> d_state r = S_Claimed \<or> d_state r = S_InFlight"
  shows "delivery_ok (apply_row to data now r)"
  unfolding delivery_ok_def
proof (intro conjI)
  let ?r = "apply_row to data now r"
  show "(d_lease_expires_at ?r \<noteq> None) = (d_state ?r = S_Claimed \<or> d_state ?r = S_InFlight)"
    using assms by (auto simp: delivery_ok_def apply_row_def)
qed (use assms in \<open>simp_all add: apply_row_def coalesce_None\<close>)

lemma store_counts_ok:
  assumes "db_inv X s" and "store_counts s did = Inr t"
  shows "db_inv X t"
proof -
  from assms(2) obtain c where t: "t = write_deliveries s (\<lambda>r. d_id r = did)
      (\<lambda>r. r\<lparr>d_direct_counts := Some (counts_json c)\<rparr>)"
    by (auto simp: store_counts_def result_simps)
  show ?thesis
    unfolding t using assms(1)
  proof (rule quiet_write_ok)
    fix r assume "r \<in> set (deliveries s)"
    then have "delivery_ok r" using assms(1) db_inv_row by blast
    then show "delivery_ok (r\<lparr>d_direct_counts := Some (counts_json c)\<rparr>)"
      by (simp add: delivery_ok_def row_fits_def)
  qed (simp_all add: keeps_keys_def)
qed

lemma cancel_queued_tables [simp]:
  "deliveries (snd (cancel_queued s did now)) = deliveries s"
  "publish_jobs (snd (cancel_queued s did now)) = publish_jobs s"
  by (simp_all add: cancel_queued_def Let_def)

lemma stop_direct_ok:
  assumes "db_inv X s" and "stop_direct s did to op now = Inr t"
  shows "db_inv X t"
proof -
  have "db_inv X (snd (cancel_queued s did now))"
    using assms(1) by (rule db_inv_tables) simp_all
  then show ?thesis
    using assms by (auto simp: stop_direct_def split: if_splits intro: store_counts_ok)
qed

lemma apply_write_ok:
  assumes ok: "db_inv X s" and run: "apply_write s f to data now = Inr (r, t)"
    and claim: "to \<noteq> S_Claimed"
    and inflight: "to = S_InFlight \<Longrightarrow> f_expected f = S_Claimed \<or> f_expected f = S_InFlight"
    and open_job: "to = S_Pending \<Longrightarrow> \<not> job_is_cancelled s (f_id f)"
  shows "db_inv X t"
proof (cases "find (fence_matches f) (deliveries s)")
  case None
  then show ?thesis using ok run by (simp add: apply_write_def)
next
  case (Some old)
  let ?s1 = "write_deliveries s (fence_matches f) (apply_row to data now)"
  from find_SomeD [OF Some] have mem: "old \<in> set (deliveries s)" and m: "fence_matches f old"
    by simp_all
  from run Some obtain c s2 where fits: "row_fits (apply_row to data now old)"
    and touch: "touch_job ?s1 (d_job_id old) now = Inr (c, s2)"
    and stop: "stop_direct s2 (f_id f) to (d_operation old) now = Inr t"
    by (auto simp: apply_write_def Let_def result_simps split: if_splits)
  have "delivery_ok (apply_row to data now old)"
    using db_inv_row [OF ok mem] fits claim by (rule apply_row_ok)
      (use inflight m in \<open>simp add: fence_matches_iff\<close>)
  moreover have "to \<noteq> S_Pending \<and> to \<noteq> S_Claimed"
    if "row_by j_id (d_job_id old) (publish_jobs s) = Some j" "j_cancelled_at j \<noteq> None" for j
    using that open_job claim m db_inv_unique [OF ok mem]
    by (auto simp: job_is_cancelled_def fence_matches_iff)
  ultimately have "db_inv X s2"
    using move_ok [OF ok keeps_keys_apply_row Some _ _ _ touch] m
    by (auto simp: fence_matches_iff)
  then show ?thesis using stop by (rule stop_direct_ok)
qed

lemma apply_target_cases:
  "apply_target s f to = to \<or> to = S_Pending \<and> apply_target s f to = S_Cancelled"
  by (simp add: apply_target_def)

lemma apply_target_Pending: "apply_target s f to = S_Pending \<Longrightarrow> \<not> job_is_cancelled s (f_id f)"
  by (auto simp: apply_target_def split: if_splits)

lemma transition_to_InFlight: "transition st ev = Inr S_InFlight \<Longrightarrow> st = S_Claimed"
  by (auto simp: transition_iff_move elim!: move_elim)

lemma transition_to_Claimed: "transition st ev = Inr S_Claimed \<Longrightarrow> ev = E_Claim"
  by (auto simp: transition_iff_move elim!: move_elim)

lemma apply_event_ok:
  assumes "db_inv X s" and "apply_event s f ev data now = Inr (r, t)" and "ev \<noteq> E_Claim"
  shows "db_inv X t"
proof -
  from assms(2) obtain to where tr: "transition (f_expected f) ev = Inr to"
    and w: "apply_write s f (apply_target s f to) data now = Inr (r, t)"
    by (auto simp: apply_event_def result_simps)
  show ?thesis
    using assms(1) w
  proof (rule apply_write_ok)
    show "apply_target s f to \<noteq> S_Claimed"
      using transition_to_Claimed tr assms(3) apply_target_cases [of s f to] by auto
    show "f_expected f = S_Claimed \<or> f_expected f = S_InFlight" if "apply_target s f to = S_InFlight"
      using transition_to_InFlight tr that apply_target_cases [of s f to] by auto
  qed (rule apply_target_Pending)
qed

section \<open>The other writes keep the invariant\<close>

lemma claim_ok:
  assumes ok: "db_inv X s" and run: "claim s did gen now lease = Inr (r, t)"
  shows "db_inv X t"
proof (cases "find (claimable s did gen now) (deliveries s)")
  case None
  then show ?thesis using assms by (simp add: claim_def)
next
  case (Some old)
  from find_SomeD [OF Some] have mem: "old \<in> set (deliveries s)" and m: "claimable s did gen now old"
    by simp_all
  show ?thesis
  proof (cases "row_by j_id (d_job_id old) (publish_jobs s)")
    case None
    then show ?thesis using assms Some by (simp add: claim_def)
  next
    case (Some j)
    from run Some \<open>find _ _ = _\<close> obtain c where
      touch: "touch_job (write_deliveries s (claimable s did gen now)
                (claim_row now (now + lease))) (d_job_id old) now = Inr (c, t)"
      by (auto simp: claim_def Let_def result_simps)
    have "delivery_ok (claim_row now (now + lease) old)"
      using db_inv_row [OF ok mem] m
      by (auto simp: delivery_ok_def claim_row_def row_fits_def claimable_def)
    then show ?thesis
      using move_ok [OF ok _ \<open>find _ _ = _\<close> _ _ _ touch] m Some
      by (auto simp: claimable_def keeps_keys_def claim_row_def)
  qed
qed

lemma record_late_receipt_ok:
  assumes ok: "db_inv X s" and run: "record_late_receipt s did receipt now = Inr (r, t)"
  shows "db_inv X t"
proof (cases "find (unanswered did) (deliveries s)")
  case None
  then show ?thesis using assms by (auto simp: record_late_receipt_def result_simps)
next
  case (Some old)
  from find_SomeD [OF Some] have mem: "old \<in> set (deliveries s)" and m: "unanswered did old"
    by simp_all
  from run Some obtain c where
    touch: "touch_job (write_deliveries s (unanswered did) (receipt_row S_Published receipt now))
              (d_job_id old) now = Inr (c, t)"
    by (auto simp: record_late_receipt_def Let_def result_simps transition_def)
  have "delivery_ok (receipt_row S_Published receipt now old)"
    using db_inv_row [OF ok mem] m
    by (auto simp: delivery_ok_def receipt_row_def row_fits_def unanswered_def i32_ok_def)
  then show ?thesis
    using move_ok [OF ok _ Some _ _ _ touch] m
    by (auto simp: unanswered_def keeps_keys_def receipt_row_def)
qed

lemma set_remote_publish_at_ok:
  assumes ok: "db_inv X s" and run: "set_remote_publish_at s f at now = Inr (r, t)"
  shows "db_inv X t"
proof (cases "find (native_matches f) (deliveries s)")
  case None
  then show ?thesis using assms by (simp add: set_remote_publish_at_def)
next
  case (Some old)
  let ?f = "\<lambda>r. r\<lparr>d_remote_publish_at := Some at, d_updated_at := now\<rparr>"
  from find_SomeD [OF Some] have mem: "old \<in> set (deliveries s)" and m: "native_matches f old"
    by simp_all
  from run Some obtain c where
    touch: "touch_job (write_deliveries s (native_matches f) ?f) (d_job_id old) now = Inr (c, t)"
    by (auto simp: set_remote_publish_at_def Let_def result_simps)
  have "db_inv X (write_deliveries s (native_matches f) ?f)"
    using ok
  proof (rule quiet_write_ok)
    fix r assume "r \<in> set (deliveries s)"
    then show "delivery_ok (?f r)"
      using db_inv_row [OF ok] by (auto simp: delivery_ok_def row_fits_def)
  qed (simp_all add: keeps_keys_def)
  then show ?thesis using touch by (rule touch_ok)
qed

lemma renew_lease_ok:
  assumes "db_inv X s"
  shows "db_inv X (snd (renew_lease s did gen now lease))"
proof (cases "find (leased did gen) (deliveries s)")
  case None
  then show ?thesis using assms by (simp add: renew_lease_def)
next
  case (Some r)
  have "db_inv X (write_deliveries s (leased did gen)
          (\<lambda>r. r\<lparr>d_lease_expires_at := Some (now + lease), d_updated_at := now\<rparr>))"
    using assms
  proof (rule quiet_write_ok)
    fix r assume "r \<in> set (deliveries s)" and "leased did gen r"
    then show "delivery_ok (r\<lparr>d_lease_expires_at := Some (now + lease), d_updated_at := now\<rparr>)"
      using db_inv_row [OF assms] by (auto simp: delivery_ok_def leased_def row_fits_def)
  qed (simp_all add: keeps_keys_def)
  then show ?thesis using Some by (simp add: renew_lease_def)
qed

lemma set_container_ref_ok:
  assumes "db_inv X s"
  shows "db_inv X (snd (set_container_ref s f cref))"
  unfolding set_container_ref_def snd_conv using assms
proof (rule quiet_write_ok)
  fix r assume "r \<in> set (deliveries s)"
  then show "delivery_ok (r\<lparr>d_container_ref := Some cref\<rparr>)"
    using db_inv_row [OF assms] by (auto simp: delivery_ok_def row_fits_def)
qed (simp_all add: keeps_keys_def)

text \<open>A chain runs only while the delivery is \<^verbatim>\<open>processing\<close> or \<^verbatim>\<open>outcome_unknown\<close>.\<close>

definition in_check :: "DeliveryState \<Rightarrow> bool" where
  "in_check st = (st = S_Processing \<or> st = S_OutcomeUnknown)"

lemma take_check_ok:
  assumes "db_inv X s" and "in_check (f_expected f)" and "take_check s f seq next_due = Inr (b, t)"
  shows "db_inv X t"
proof -
  from assms(3) have fits: "list_ex (check_matches f seq) (deliveries s) \<Longrightarrow> i32_ok (seq + 1)"
    and t: "t = write_deliveries s (check_matches f seq)
      (\<lambda>r. r\<lparr>d_check_seq := d_check_seq r + 1, d_check_due_at := Some next_due\<rparr>)"
    by (auto simp: take_check_def split: if_splits)
  show ?thesis
    unfolding t using assms(1)
  proof (rule quiet_write_ok)
    fix r assume r: "r \<in> set (deliveries s)" "check_matches f seq r"
    then show "delivery_ok (r\<lparr>d_check_seq := d_check_seq r + 1, d_check_due_at := Some next_due\<rparr>)"
      using db_inv_row [OF assms(1) r(1)] fits assms(2)
      by (auto simp: delivery_ok_def row_fits_def check_matches_def fence_matches_iff in_check_def
          list_ex_iff)
  qed (simp_all add: keeps_keys_def)
qed

lemma set_check_due_ok:
  assumes "db_inv X s" and "in_check (f_expected f)"
  shows "db_inv X (snd (set_check_due s f seq due))"
  unfolding set_check_due_def snd_conv using assms(1)
proof (rule quiet_write_ok)
  fix r assume r: "r \<in> set (deliveries s)" "check_matches f seq r"
  then show "delivery_ok (r\<lparr>d_check_due_at := Some due\<rparr>)"
    using db_inv_row [OF assms(1) r(1)] assms(2)
    by (auto simp: delivery_ok_def row_fits_def check_matches_def fence_matches_iff in_check_def)
qed (simp_all add: keeps_keys_def)

lemma attempt_start_ok:
  "db_inv X s \<Longrightarrow> attempt_start s clock aid did now = Inr t \<Longrightarrow> db_inv X t"
  by (auto simp: attempt_start_def split: option.splits if_splits intro: db_inv_tables)

lemma attempt_finish_ok:
  "db_inv X s \<Longrightarrow> attempt_finish s aid outcome err summary now = Inr t \<Longrightarrow> db_inv X t"
  by (auto simp: attempt_finish_def split: if_splits intro: db_inv_tables)

section \<open>What a fenced write does to the rows\<close>

lemma row_by_write:
  assumes "keeps_keys f"
  shows "row_by d_id did (sql_update p f rows)
       = map_option (\<lambda>r. if p r then f r else r) (row_by d_id did rows)"
  using assms by (simp add: row_by_sql_update keeps_keys_def)

lemma store_counts_rows:
  assumes "store_counts s did = Inr t"
  shows "d \<noteq> did \<Longrightarrow> row_by d_id d (deliveries t) = row_by d_id d (deliveries s)"
    and "map_option d_state (row_by d_id d (deliveries t)) = map_option d_state (row_by d_id d (deliveries s))"
    and "map_option d_dispatch_gen (row_by d_id d (deliveries t))
       = map_option d_dispatch_gen (row_by d_id d (deliveries s))"
proof -
  from assms obtain c where t: "t = write_deliveries s (\<lambda>r. d_id r = did)
      (\<lambda>r. r\<lparr>d_direct_counts := Some (counts_json c)\<rparr>)"
    by (auto simp: store_counts_def result_simps)
  have row: "row_by d_id d (deliveries t) = map_option
      (\<lambda>r. if d_id r = did then r\<lparr>d_direct_counts := Some (counts_json c)\<rparr> else r)
      (row_by d_id d (deliveries s))" for d
    by (simp add: t row_by_write keeps_keys_def)
  show "d \<noteq> did \<Longrightarrow> row_by d_id d (deliveries t) = row_by d_id d (deliveries s)"
    using row_by_key by (fastforce simp: row intro: option.map_ident_strong)
  show "map_option d_state (row_by d_id d (deliveries t)) = map_option d_state (row_by d_id d (deliveries s))"
    "map_option d_dispatch_gen (row_by d_id d (deliveries t))
       = map_option d_dispatch_gen (row_by d_id d (deliveries s))"
    by (cases "row_by d_id d (deliveries s)"; simp add: row)+
qed

lemma stop_direct_rows:
  assumes "stop_direct s did to op now = Inr t"
  shows "d \<noteq> did \<Longrightarrow> row_by d_id d (deliveries t) = row_by d_id d (deliveries s)"
    and "map_option d_state (row_by d_id d (deliveries t)) = map_option d_state (row_by d_id d (deliveries s))"
    and "map_option d_dispatch_gen (row_by d_id d (deliveries t))
       = map_option d_dispatch_gen (row_by d_id d (deliveries s))"
  using assms store_counts_rows [of "snd (cancel_queued s did now)" did t d]
  by (auto simp: stop_direct_def split: if_splits)

text \<open>
  A write that landed: its row matched the fence, got the new state, and got the next generation
  exactly when it went back to waiting or was cancelled; no other row changed.
\<close>

lemma apply_write_Done:
  assumes "apply_write s f to data now = Inr (Done st dispatch change, t)"
  obtains old where "find (fence_matches f) (deliveries s) = Some old" and "st = to"
    and "dispatch = redispatch_of to (apply_row to data now old)"
    and "\<And>d. d \<noteq> f_id f \<Longrightarrow> row_by d_id d (deliveries t) = row_by d_id d (deliveries s)"
    and "\<And>d. map_option d_state (row_by d_id d (deliveries t)) = map_option d_state
           (row_by d_id d (sql_update (fence_matches f) (apply_row to data now) (deliveries s)))"
    and "\<And>d. map_option d_dispatch_gen (row_by d_id d (deliveries t)) = map_option d_dispatch_gen
           (row_by d_id d (sql_update (fence_matches f) (apply_row to data now) (deliveries s)))"
proof -
  let ?s1 = "write_deliveries s (fence_matches f) (apply_row to data now)"
  from assms obtain old s2 where old: "find (fence_matches f) (deliveries s) = Some old"
    and touch: "touch_job ?s1 (d_job_id old) now = Inr (change, s2)"
    and stop: "stop_direct s2 (f_id f) to (d_operation old) now = Inr t"
    and st: "st = to" "dispatch = redispatch_of to (apply_row to data now old)"
    by (auto simp: apply_write_def Let_def result_simps split: option.splits if_splits)
  have s2: "deliveries s2 = sql_update (fence_matches f) (apply_row to data now) (deliveries s)"
    using touch_job_tables(1) [OF touch] by simp
  have "row_by d_id d (deliveries s2) = row_by d_id d (deliveries s)" if "d \<noteq> f_id f" for d
    using row_by_key [of d_id d "deliveries s"] that
    by (fastforce simp: s2 row_by_write fence_matches_iff intro: option.map_ident_strong)
  then show ?thesis
    using that [OF old st] stop_direct_rows [OF stop] unfolding s2 by auto
qed

lemma apply_event_cases:
  assumes "apply_event s f ev data now = Inr (r, t)"
  obtains to where "transition (f_expected f) ev = Inr to"
    and "apply_write s f (apply_target s f to) data now = Inr (r, t)"
  using assms by (auto simp: apply_event_def result_simps)

lemma apply_write_Stale:
  "apply_write s f to data now = Inr (Stale, t) \<longleftrightarrow>
     t = s \<and> find (fence_matches f) (deliveries s) = None"
  by (auto simp: apply_write_def Let_def result_simps split: option.splits if_splits)

lemma apply_write_other_rows:
  assumes "apply_write s f to data now = Inr (r, t)" and "d \<noteq> f_id f"
  shows "row_by d_id d (deliveries t) = row_by d_id d (deliveries s)"
  using assms
  by (cases r) (auto simp: apply_write_Stale elim!: apply_write_Done)

lemma stop_direct_row:
  assumes "stop_direct s did to op now = Inr t" and "row_by d_id did (deliveries s) = Some r"
  obtains cs where "row_by d_id did (deliveries t) = Some (r\<lparr>d_direct_counts := cs\<rparr>)"
proof (cases "stops_rows to \<and> op = Op_Direct")
  case True
  with assms(1) obtain c where "t = write_deliveries (snd (cancel_queued s did now)) (\<lambda>r. d_id r = did)
      (\<lambda>r. r\<lparr>d_direct_counts := Some (counts_json c)\<rparr>)"
    by (auto simp: stop_direct_def store_counts_def result_simps)
  with assms(2) row_by_key [OF assms(2)] that [of "Some (counts_json c)"] show ?thesis
    by (simp add: row_by_write keeps_keys_def)
next
  case False
  with assms that [of "d_direct_counts r"] show ?thesis by (auto simp: stop_direct_def)
qed

text \<open>The row of a write that landed, column by column.\<close>

lemma apply_write_row:
  assumes ok: "db_inv X s" and run: "apply_write s f to data now = Inr (Done st dispatch change, t)"
  obtains old cs where "row_by d_id (f_id f) (deliveries s) = Some old"
    and "d_state old = f_expected f" and "d_dispatch_gen old = f_dispatch_gen f"
    and "row_by d_id (f_id f) (deliveries t) = Some ((apply_row to data now old)\<lparr>d_direct_counts := cs\<rparr>)"
    and "st = to" and "dispatch = redispatch_of to (apply_row to data now old)"
proof -
  let ?s1 = "write_deliveries s (fence_matches f) (apply_row to data now)"
  from run obtain old s2 where find: "find (fence_matches f) (deliveries s) = Some old"
    and touch: "touch_job ?s1 (d_job_id old) now = Inr (change, s2)"
    and stop: "stop_direct s2 (f_id f) to (d_operation old) now = Inr t"
    and st: "st = to" "dispatch = redispatch_of to (apply_row to data now old)"
    by (auto simp: apply_write_def Let_def result_simps split: option.splits if_splits)
  from find_SomeD [OF find] have m: "old \<in> set (deliveries s)" "fence_matches f old" by simp_all
  then have old: "row_by d_id (f_id f) (deliveries s) = Some old"
    using db_inv_unique [OF ok m(1)] by (simp add: fence_matches_iff)
  then have "row_by d_id (f_id f) (deliveries s2) = Some (apply_row to data now old)"
    using touch_job_tables(1) [OF touch] m(2) by (simp add: row_by_write)
  with stop obtain cs where new:
    "row_by d_id (f_id f) (deliveries t) = Some ((apply_row to data now old)\<lparr>d_direct_counts := cs\<rparr>)"
    by (rule stop_direct_row)
  from m(2) have "d_state old = f_expected f" "d_dispatch_gen old = f_dispatch_gen f"
    by (simp_all add: fence_matches_iff)
  from that [OF old this new st] show ?thesis .
qed

lemma apply_row_gen:
  "d_dispatch_gen (apply_row to data now r)
   = d_dispatch_gen r + (if to = S_Pending \<or> to = S_Cancelled then 1 else 0)"
  by (simp add: apply_row_def)

text \<open>The same for an event: the transition decides the state, a cancelled job replaces \<^verbatim>\<open>pending\<close>.\<close>

lemma apply_event_row:
  assumes ok: "db_inv X s" and run: "apply_event s f ev data now = Inr (Done st dispatch change, t)"
  obtains old cs to where "row_by d_id (f_id f) (deliveries s) = Some old"
    and "d_state old = f_expected f" and "d_dispatch_gen old = f_dispatch_gen f"
    and "transition (f_expected f) ev = Inr to" and "st = apply_target s f to"
    and "row_by d_id (f_id f) (deliveries t) = Some ((apply_row st data now old)\<lparr>d_direct_counts := cs\<rparr>)"
    and "dispatch = redispatch_of st (apply_row st data now old)"
proof -
  from run obtain to where to: "transition (f_expected f) ev = Inr to"
    and w: "apply_write s f (apply_target s f to) data now = Inr (Done st dispatch change, t)"
    by (rule apply_event_cases)
  from ok w show ?thesis
  proof (rule apply_write_row)
    fix old cs
    assume "row_by d_id (f_id f) (deliveries s) = Some old"
      and "d_state old = f_expected f" and "d_dispatch_gen old = f_dispatch_gen f"
      and "row_by d_id (f_id f) (deliveries t)
        = Some ((apply_row (apply_target s f to) data now old)\<lparr>d_direct_counts := cs\<rparr>)"
      and "st = apply_target s f to"
      and "dispatch = redispatch_of (apply_target s f to) (apply_row (apply_target s f to) data now old)"
    then show ?thesis using that [of old to cs] to by simp
  qed
qed

section \<open>A concrete database\<close>

text \<open>Rows and tables the examples of this library evaluate the definitions on.\<close>

definition sample_row :: "uuid \<Rightarrow> DeliveryState \<Rightarrow> int \<Rightarrow> delivery_row" where
  "sample_row did st gen =
     \<lparr>d_id = did, d_owner_id = 1, d_job_id = 20, d_post_id = 30, d_account_id = 40,
      d_operation = Op_Publish, d_idempotency_key = [did], d_state = st, d_dispatch_gen = gen,
      d_lease_expires_at = (if st = S_Claimed \<or> st = S_InFlight then Some 500 else None),
      d_cancel_requested_at = None, d_attempt_count = 0, d_next_attempt_at = Some 100,
      d_remote_id = None, d_remote_url = None, d_container_ref = None,
      d_remote_publish_at = None, d_direct_counts = None, d_last_error = None,
      d_parked_notified_at = None, d_parked_until = None, d_check_seq = 0,
      d_check_due_at = (if in_check st then Some 500 else None), d_state_changed_at = 100,
      d_created_at = 0, d_updated_at = 100, d_created_by = Some 1, d_updated_by = Some 1\<rparr>"

definition sample_variant :: Variant where
  "sample_variant = \<lparr>va_target = \<lparr>acr_platform = ''x'', acr_account = 40, acr_remote_id = ''r''\<rparr>,
     va_kind = PK_Post, va_text = ''hi'', va_media = [], va_link = None, va_tags = [],
     va_disclose_ai_generated = False, va_reply_to = None, va_email = None, va_options = []\<rparr>"

definition sample_job :: "JobStatus \<Rightarrow> job_row" where
  "sample_job st =
     \<lparr>j_id = 20, j_owner_id = 1, j_post_id = 30, j_post_version = 1, j_recurrence_id = None,
      j_snapshot = \<lparr>sn_post_id = 30, sn_post_version = 1, sn_variants = [sample_variant]\<rparr>, j_scheduled_at = 100,
      j_native_schedule = False, j_dry_run = False, j_status = st, j_version = 1,
      j_cancelled_at = None, j_created_at = 0, j_updated_at = 0, j_created_by = Some 1,
      j_updated_by = Some 1\<rparr>"

definition sample_db :: "delivery_row list \<Rightarrow> job_row \<Rightarrow> db" where
  "sample_db rows j =
     \<lparr>platform_quota_usage = [], platform_app_quota_usage = [], deliveries = rows,
      publish_jobs = [j],
      posts = [\<lparr>p_id = 30, p_owner_id = 1, p_version = 1, p_status = ''publishing''\<rparr>],
      delivery_attempts = [], direct_sends = [],
      users = [\<lparr>u_id = 1, u_status = ''active''\<rparr>],
      connected_accounts = [\<lparr>ac_id = 40, ac_owner_id = 1, ac_platform_id = ''x'',
        ac_status = ''active'', ac_last_checked_at = None,
        ac_grant_id = Some 50, ac_display_name = ''Main''\<rparr>],
      platforms = [\<lparr>pl_id = ''x'', pl_enabled = True\<rparr>], contacts = [],
      contact_list_members = [], suppressions = [], app_settings = [],
      user_limits = [], user_preferences = []\<rparr>"

end
