(* ===== verification/Store_Actions.thy ===== *)
theory Store_Actions
  imports Store_Inv
begin

text \<open>
  What owners, delegates and system calls do to deliveries and jobs: the scoped half of
  \<^verbatim>\<open>data/src/publishing/deliveries.rs\<close> (reads, cancel, retry, resolve) and
  \<^verbatim>\<open>data/src/publishing/jobs.rs\<close> (create, cancel, reschedule). Each definition is one function of
  those files; a function of the source that only drops part of another's result is not repeated.
\<close>

section \<open>A delivery as the owner sees it\<close>

record Delivery =
  v_id :: uuid
  v_job_id :: uuid
  v_post_id :: uuid
  v_account_id :: uuid
  v_operation :: Operation
  v_state :: DeliveryState
  v_dispatch_gen :: int
  v_attempt_count :: int
  v_next_attempt_at :: "timestamp option"
  v_remote_id :: "string option"
  v_remote_url :: "string option"
  v_remote_publish_at :: "timestamp option"
  v_last_error :: "json option"
  v_cancel_requested_at :: "timestamp option"
  v_direct_counts :: "json option"
  v_created_at :: timestamp
  v_updated_at :: timestamp

definition delivery_of :: "delivery_row \<Rightarrow> Delivery" where
  "delivery_of r =
     \<lparr>v_id = d_id r, v_job_id = d_job_id r, v_post_id = d_post_id r, v_account_id = d_account_id r,
      v_operation = d_operation r, v_state = d_state r, v_dispatch_gen = d_dispatch_gen r,
      v_attempt_count = d_attempt_count r, v_next_attempt_at = d_next_attempt_at r,
      v_remote_id = d_remote_id r, v_remote_url = d_remote_url r,
      v_remote_publish_at = d_remote_publish_at r, v_last_error = d_last_error r,
      v_cancel_requested_at = d_cancel_requested_at r, v_direct_counts = d_direct_counts r,
      v_created_at = d_created_at r, v_updated_at = d_updated_at r\<rparr>"

datatype CancelOutcome = Cancelled | Requested | NeedsAgent timestamp | NotCancellable

record CancelResult =
  cr_delivery :: uuid
  cr_job :: uuid
  cr_outcome :: CancelOutcome
  cr_change :: "JobStatusChange option"

definition check_scope :: "OwnerScope \<Rightarrow> Capability \<Rightarrow> DataError + unit" where
  "check_scope scope cap = map_err DE_Scope (require scope cap)"

definition visible :: "OwnerScope \<Rightarrow> delivery_row \<Rightarrow> bool" where
  "visible scope r =
     (d_owner_id r = owner scope \<and> filter_admits (account_filter scope) (d_account_id r))"

definition lock_one :: "db \<Rightarrow> OwnerScope \<Rightarrow> uuid \<Rightarrow> DataError + Delivery" where
  "lock_one s scope did =
     ok_or DE_NotFound
       (map_option delivery_of (find (\<lambda>r. visible scope r \<and> d_id r = did) (deliveries s)))"

definition get_delivery :: "db \<Rightarrow> OwnerScope \<Rightarrow> uuid \<Rightarrow> DataError + Delivery" where
  "get_delivery s scope did =
     bindE (check_scope scope Cap_View) (\<lambda>_.
       ok_or DE_NotFound
         (map_option delivery_of (find (\<lambda>r. visible scope r \<and> d_id r = did) (deliveries s))))"

definition list_for_job :: "db \<Rightarrow> OwnerScope \<Rightarrow> uuid \<Rightarrow> DataError + Delivery list" where
  "list_for_job s scope job =
     bindE (check_scope scope Cap_View) (\<lambda>_.
       Inr (map delivery_of (sort_key d_id
         (filter (\<lambda>r. visible scope r \<and> d_job_id r = job) (deliveries s)))))"

definition lock_job_deliveries :: "db \<Rightarrow> uuid \<Rightarrow> Delivery list" where
  "lock_job_deliveries s job =
     map delivery_of (sort_key d_id (filter (\<lambda>r. d_job_id r = job) (deliveries s)))"

section \<open>Cancelling\<close>

definition fence_of :: "Delivery \<Rightarrow> Fence" where
  "fence_of d = \<lparr>f_id = v_id d, f_dispatch_gen = v_dispatch_gen d, f_expected = v_state d\<rparr>"

definition cancel_now ::
  "db \<Rightarrow> Delivery \<Rightarrow> uuid option \<Rightarrow> timestamp \<Rightarrow> DataError + (CancelOutcome \<times> JobStatusChange option) \<times> db" where
  "cancel_now s d act now =
     bindE (apply_event s (fence_of d) E_Cancel (td_default\<lparr>td_actor := act\<rparr>) now) (\<lambda>(applied, t).
       case applied of
         Done st redispatch job \<Rightarrow> Inr ((Cancelled, Some job), t)
       | Stale \<Rightarrow> Inr ((NotCancellable, None), t))"

definition request_cancel ::
  "db \<Rightarrow> Delivery \<Rightarrow> uuid option \<Rightarrow> timestamp \<Rightarrow> DataError + (CancelOutcome \<times> JobStatusChange option) \<times> db" where
  "request_cancel s d act now =
     (let s1 = s\<lparr>deliveries := sql_update (\<lambda>r. d_id r = v_id d)
          (\<lambda>r. r\<lparr>d_cancel_requested_at := Some now, d_updated_at := now,
                 d_updated_by := coalesce act (d_updated_by r)\<rparr>) (deliveries s)\<rparr>
      in bindE (touch_job s1 (v_job_id d) now) (\<lambda>(job, s2). Inr ((Requested, Some job), s2)))"

definition cancel_loaded ::
  "db \<Rightarrow> Delivery \<Rightarrow> uuid option \<Rightarrow> timestamp \<Rightarrow> DataError + (CancelOutcome \<times> JobStatusChange option) \<times> db" where
  "cancel_loaded s d act now =
     (case v_state d of
        S_Pending \<Rightarrow> cancel_now s d act now
      | S_Claimed \<Rightarrow> cancel_now s d act now
      | S_Parked r \<Rightarrow> cancel_now s d act now
      | S_Processing \<Rightarrow>
          if v_operation d = Op_Direct then cancel_now s d act now
          else Inr ((case v_remote_publish_at d of
                       None \<Rightarrow> NotCancellable
                     | Some at \<Rightarrow> NeedsAgent at, None), s)
      | S_InFlight \<Rightarrow> request_cancel s d act now
      | _ \<Rightarrow> Inr ((NotCancellable, None), s))"

definition cancel_with_status ::
  "db \<Rightarrow> OwnerScope \<Rightarrow> uuid \<Rightarrow> timestamp
   \<Rightarrow> DataError + (CancelOutcome \<times> JobStatusChange option) \<times> db" where
  "cancel_with_status s scope did now =
     bindE (check_scope scope Cap_Publish) (\<lambda>_.
     bindE (lock_one s scope did) (\<lambda>d.
       cancel_loaded s d (Some (actor scope)) now))"

definition cancel_rows ::
  "db \<Rightarrow> delivery_row list \<Rightarrow> timestamp \<Rightarrow> DataError + CancelResult list \<times> db" where
  "cancel_rows s rows now =
     foldE (\<lambda>(results, s) row.
       let d = delivery_of row
       in bindE (cancel_loaded s d None now) (\<lambda>((outcome, change), t).
            Inr (results @ [\<lparr>cr_delivery = v_id d, cr_job = v_job_id d, cr_outcome = outcome,
                            cr_change = change\<rparr>], t)))
       ([], s) rows"

definition account_has_in_flight :: "db \<Rightarrow> uuid \<Rightarrow> bool" where
  "account_has_in_flight s account =
     list_ex (\<lambda>r. d_account_id r = account \<and> (d_state r = S_Claimed \<or> d_state r = S_InFlight))
       (deliveries s)"

definition owner_has_in_flight :: "db \<Rightarrow> uuid \<Rightarrow> bool" where
  "owner_has_in_flight s user =
     list_ex (\<lambda>r. d_owner_id r = user \<and> (d_state r = S_Claimed \<or> d_state r = S_InFlight))
       (deliveries s)"

definition is_parked :: "DeliveryState \<Rightarrow> bool" where
  "is_parked st = (state_str st = ''parked'')"

definition cancel_for_account_with_status ::
  "db \<Rightarrow> uuid \<Rightarrow> timestamp \<Rightarrow> DataError + CancelResult list \<times> db" where
  "cancel_for_account_with_status s account now =
     cancel_rows s (sort_key d_id (filter
       (\<lambda>r. d_account_id r = account
          \<and> (d_state r = S_Pending \<or> is_parked (d_state r)
             \<or> (d_state r = S_Processing \<and> d_operation r = Op_Direct)))
       (deliveries s))) now"

definition cancel_for_owner_with_status ::
  "db \<Rightarrow> uuid \<Rightarrow> timestamp \<Rightarrow> DataError + CancelResult list \<times> db" where
  "cancel_for_owner_with_status s user now =
     cancel_rows s (sort_key d_id (filter
       (\<lambda>r. d_owner_id r = user
          \<and> (d_state r = S_Pending \<or> d_state r = S_Claimed \<or> is_parked (d_state r)
             \<or> d_state r = S_Processing
             \<or> (d_state r = S_InFlight \<and> d_cancel_requested_at r = None)))
       (deliveries s))) now"

definition native_scheduled ::
  "db \<Rightarrow> uuid \<Rightarrow> uuid option \<Rightarrow> timestamp \<Rightarrow> Delivery list" where
  "native_scheduled s user account now =
     map delivery_of (sort_key d_id (filter
       (\<lambda>r. d_owner_id r = user \<and> (account = None \<or> account = Some (d_account_id r))
          \<and> (case row_by j_id (d_job_id r) (publish_jobs s) of
               None \<Rightarrow> False | Some j \<Rightarrow> j_native_schedule j)
          \<and> d_state r = S_Processing \<and> d_remote_id r \<noteq> None
          \<and> (case d_remote_publish_at r of None \<Rightarrow> False | Some at \<Rightarrow> at > now))
       (deliveries s)))"

section \<open>Retry and resolve\<close>

definition refuse_materialized :: "db \<Rightarrow> uuid \<Rightarrow> DataError + unit" where
  "refuse_materialized s did =
     (if list_ex (\<lambda>r. s_delivery_id r = did) (direct_sends s)
      then Inl (DE_Conflict ''not_retryable'') else Inr ())"

definition forget_counts :: "db \<Rightarrow> uuid \<Rightarrow> db" where
  "forget_counts s did =
     s\<lparr>deliveries := sql_update (\<lambda>r. d_id r = did) (\<lambda>r. r\<lparr>d_direct_counts := None\<rparr>) (deliveries s)\<rparr>"

definition retry ::
  "db \<Rightarrow> OwnerScope \<Rightarrow> uuid \<Rightarrow> bool \<Rightarrow> timestamp \<Rightarrow> DataError + Dispatch \<times> db" where
  "retry s scope did acknowledged now =
     bindE (check_scope scope Cap_Publish) (\<lambda>_.
     bindE (lock_one s scope did) (\<lambda>d.
     bindE (ok_or (DE_Sql ''no rows returned'') (row_by j_id (v_job_id d) (publish_jobs s))) (\<lambda>job.
       if j_cancelled_at job \<noteq> None then Inl (DE_Conflict ''job_cancelled'')
       else if \<not> (j_status job = J_Scheduled \<or> j_status job = J_Publishing) \<and> \<not> j_dry_run job
             \<and> live_slot_taken (publish_jobs s) (v_job_id d) (v_post_id d)
       then Inl DE_JobActive
       else
         bindE (if v_operation d = Op_Direct then refuse_materialized s did else Inr ()) (\<lambda>_.
         bindE (apply_event s (fence_of d) (E_UserRetry acknowledged)
                  (td_default\<lparr>td_reset_attempts := True, td_actor := Some (actor scope)\<rparr>) now)
           (\<lambda>(applied, t).
              case applied of
                Done st (Some dispatch) change \<Rightarrow>
                  Inr (dispatch, if v_operation d = Op_Direct then forget_counts t did else t)
              | _ \<Rightarrow> Inl (DE_Conflict ''delivery_changed''))))))"

definition resolve_with_status ::
  "db \<Rightarrow> OwnerScope \<Rightarrow> uuid \<Rightarrow> ResolvedOutcome \<Rightarrow> timestamp
   \<Rightarrow> DataError + (DeliveryState \<times> JobStatusChange) \<times> db" where
  "resolve_with_status s scope did outcome now =
     bindE (check_scope scope Cap_Publish) (\<lambda>_.
     bindE (lock_one s scope did) (\<lambda>d.
     bindE (apply_event s (fence_of d) (E_UserResolve outcome)
              (td_default\<lparr>td_actor := Some (actor scope)\<rparr>) now) (\<lambda>(applied, t).
       case applied of
         Done st redispatch job \<Rightarrow> Inr ((st, job), t)
       | Stale \<Rightarrow> Inl (DE_Conflict ''delivery_changed''))))"

section \<open>Creating a job\<close>

record NewDelivery =
  nd_id :: uuid
  nd_account :: uuid
  nd_operation :: Operation
  nd_due_at :: "timestamp option"

record NewJob =
  nj_id :: uuid
  nj_snapshot :: PublishSnapshot
  nj_targets :: "NewDelivery list"
  nj_scheduled_at :: timestamp
  nj_native_schedule :: bool
  nj_dry_run :: bool
  nj_recurrence_id :: "uuid option"

record CreatedJob =
  cj_job :: uuid
  cj_deliveries :: "Dispatch list"

text \<open>The 16 bytes of a UUID, most significant first.\<close>

definition uuid_bytes :: "uuid \<Rightarrow> nat list" where
  "uuid_bytes u = map (\<lambda>i. (u div 256 ^ (15 - i)) mod 256) [0..<16]"

text \<open>\<open>sha256\<close> is the digest of the \<^verbatim>\<open>sha2\<close> crate.\<close>

definition delivery_idempotency_key :: "(nat list \<Rightarrow> nat list) \<Rightarrow> uuid \<Rightarrow> uuid \<Rightarrow> nat list" where
  "delivery_idempotency_key sha256 job account = sha256 (uuid_bytes job @ uuid_bytes account)"

definition new_job_row ::
  "uuid \<Rightarrow> uuid option \<Rightarrow> post_row \<Rightarrow> NewJob \<Rightarrow> timestamp \<Rightarrow> job_row" where
  "new_job_row user act post new clock =
     \<lparr>j_id = nj_id new, j_owner_id = user, j_post_id = p_id post, j_post_version = p_version post,
      j_recurrence_id = nj_recurrence_id new, j_snapshot = nj_snapshot new,
      j_scheduled_at = nj_scheduled_at new, j_native_schedule = nj_native_schedule new,
      j_dry_run = nj_dry_run new,
      j_status = (if nj_scheduled_at new \<le> clock then J_Publishing else J_Scheduled),
      j_version = 1, j_cancelled_at = None, j_created_at = clock, j_updated_at = clock,
      j_created_by = act, j_updated_by = act\<rparr>"

definition insert_job_row :: "db \<Rightarrow> job_row \<Rightarrow> DataError + db" where
  "insert_job_row s j =
     (if list_ex (\<lambda>k. j_id k = j_id j) (publish_jobs s) then Inl (DE_Conflict ''publish_jobs_pkey'')
      else if live_open j \<and> live_slot_taken (publish_jobs s) (j_id j) (j_post_id j) then Inl DE_JobActive
      else if \<not> list_ex (\<lambda>p. p_owner_id p = j_owner_id j \<and> p_id p = j_post_id j) (posts s)
      then Inl (DE_Sql ''foreign key'')
      else Inr (s\<lparr>publish_jobs := publish_jobs s @ [j]\<rparr>))"

definition due_of :: "NewJob \<Rightarrow> NewDelivery \<Rightarrow> timestamp" where
  "due_of new target = (case nd_due_at target of None \<Rightarrow> nj_scheduled_at new | Some t \<Rightarrow> t)"

definition new_delivery_row ::
  "(nat list \<Rightarrow> nat list) \<Rightarrow> uuid \<Rightarrow> uuid option \<Rightarrow> post_row \<Rightarrow> NewJob \<Rightarrow> timestamp \<Rightarrow> NewDelivery
   \<Rightarrow> delivery_row" where
  "new_delivery_row sha256 user act post new clock target =
     \<lparr>d_id = nd_id target, d_owner_id = user, d_job_id = nj_id new, d_post_id = p_id post,
      d_account_id = nd_account target, d_operation = nd_operation target,
      d_idempotency_key = delivery_idempotency_key sha256 (nj_id new) (nd_account target),
      d_state = S_Pending, d_dispatch_gen = 0, d_lease_expires_at = None,
      d_cancel_requested_at = None, d_attempt_count = 0,
      d_next_attempt_at = Some (due_of new target), d_remote_id = None, d_remote_url = None,
      d_container_ref = None, d_remote_publish_at = None, d_direct_counts = None,
      d_last_error = None, d_parked_notified_at = None, d_parked_until = None, d_check_seq = 0,
      d_check_due_at = None, d_state_changed_at = clock, d_created_at = clock,
      d_updated_at = clock, d_created_by = act, d_updated_by = act\<rparr>"

definition insert_delivery_row :: "db \<Rightarrow> delivery_row \<Rightarrow> DataError + db" where
  "insert_delivery_row s r =
     (if list_ex (\<lambda>q. d_id q = d_id r) (deliveries s) then Inl (DE_Conflict ''deliveries_pkey'')
      else if list_ex (\<lambda>q. d_idempotency_key q = d_idempotency_key r) (deliveries s)
      then Inl (DE_Conflict ''deliveries_idempotency_key_key'')
      else if \<not> list_ex (\<lambda>a. ac_owner_id a = d_owner_id r \<and> ac_id a = d_account_id r)
                 (connected_accounts s)
      then Inl (DE_Sql ''foreign key'')
      else Inr (s\<lparr>deliveries := deliveries s @ [r]\<rparr>))"

text \<open>
  \<open>clock\<close> is the database's \<^verbatim>\<open>now()\<close> and \<open>now\<close> the \<^verbatim>\<open>Utc::now()\<close> of the refresh.
\<close>

definition insert_job ::
  "(nat list \<Rightarrow> nat list) \<Rightarrow> db \<Rightarrow> uuid \<Rightarrow> uuid option \<Rightarrow> post_row \<Rightarrow> NewJob \<Rightarrow> timestamp \<Rightarrow> timestamp
   \<Rightarrow> DataError + CreatedJob \<times> db" where
  "insert_job sha256 s user act post new clock now =
     (if sn_post_id (nj_snapshot new) \<noteq> p_id post
      then Inl (DE_Conflict ''snapshot_post_mismatch'')
      else if nj_targets new = [] then Inl (DE_Conflict ''no_targets'')
      else if sn_post_version (nj_snapshot new) \<noteq> p_version post
      then Inl (DE_Conflict ''snapshot_version_mismatch'')
      else if \<not> i32_ok (p_version post) then Inl (DE_Conflict ''post_version_out_of_range'')
      else
        bindE (insert_job_row s (new_job_row user act post new clock)) (\<lambda>s1.
        bindE (foldE (\<lambda>s target.
                 insert_delivery_row s (new_delivery_row sha256 user act post new clock target))
                 s1 (nj_targets new)) (\<lambda>s2.
        bindE (refresh_job_status s2 (nj_id new) now) (\<lambda>(status, s3).
          Inr (\<lparr>cj_job = nj_id new,
                cj_deliveries = map (\<lambda>target. \<lparr>dp_delivery = nd_id target, dp_dispatch_gen = 0,
                                               dp_run_at = due_of new target\<rparr>) (nj_targets new)\<rparr>,
               s3)))))"

definition create_job ::
  "(nat list \<Rightarrow> nat list) \<Rightarrow> db \<Rightarrow> OwnerScope \<Rightarrow> post_row \<Rightarrow> NewJob \<Rightarrow> timestamp \<Rightarrow> timestamp
   \<Rightarrow> DataError + CreatedJob \<times> db" where
  "create_job sha256 s scope locked new clock now =
     bindE (check_scope scope (if nj_dry_run new then Cap_Edit else Cap_Publish)) (\<lambda>_.
       if list_ex (\<lambda>target. \<not> allows_account scope (nd_account target)) (nj_targets new)
       then Inl DE_AccountNotInScope
       else insert_job sha256 s (owner scope) (Some (actor scope)) locked new clock now)"

section \<open>Whole-job actions\<close>

definition lock_visible_job :: "db \<Rightarrow> OwnerScope \<Rightarrow> uuid \<Rightarrow> DataError + Delivery list" where
  "lock_visible_job s scope job =
     (if \<not> list_ex (\<lambda>j. j_owner_id j = owner scope \<and> j_id j = job) (publish_jobs s)
      then Inl DE_NotFound
      else
        let ds = lock_job_deliveries s job
        in if account_filter scope \<noteq> None \<and> \<not> list_ex (\<lambda>d. allows_account scope (v_account_id d)) ds
           then Inl DE_NotFound
           else if list_ex (\<lambda>d. \<not> is_terminal (v_state d)
                               \<and> \<not> allows_account scope (v_account_id d)) ds
           then Inl DE_AccountNotInScope
           else Inr ds)"

definition mark_cancelled :: "db \<Rightarrow> uuid \<Rightarrow> timestamp \<Rightarrow> uuid \<Rightarrow> db" where
  "mark_cancelled s job now act =
     s\<lparr>publish_jobs := sql_update (\<lambda>j. j_id j = job)
         (\<lambda>j. j\<lparr>j_cancelled_at := coalesce (j_cancelled_at j) (Some now), j_updated_at := now,
                j_updated_by := Some act\<rparr>) (publish_jobs s)\<rparr>"

definition cancel_each ::
  "uuid \<Rightarrow> timestamp \<Rightarrow> ((uuid \<times> CancelOutcome) list \<times> JobStatus option) \<times> db \<Rightarrow> Delivery
   \<Rightarrow> DataError + ((uuid \<times> CancelOutcome) list \<times> JobStatus option) \<times> db" where
  "cancel_each act now acc d =
     (case acc of ((outcomes, before), s) \<Rightarrow>
        bindE (cancel_loaded s d (Some act) now) (\<lambda>((outcome, change), t).
          Inr ((outcomes @ [(v_id d, outcome)],
                coalesce before (map_option jc_before change)), t)))"

definition cancel_job_with_status ::
  "db \<Rightarrow> OwnerScope \<Rightarrow> uuid \<Rightarrow> timestamp
   \<Rightarrow> DataError + ((uuid \<times> CancelOutcome) list \<times> JobStatusChange) \<times> db" where
  "cancel_job_with_status s scope job now =
     bindE (check_scope scope Cap_Publish) (\<lambda>_.
     bindE (lock_visible_job s scope job) (\<lambda>ds.
     bindE (foldE (cancel_each (actor scope) now)
              (([], None), mark_cancelled s job now (actor scope))
              (filter (\<lambda>d. \<not> is_terminal (v_state d)) ds)) (\<lambda>((outcomes, before), s1).
     bindE (touch_job s1 job now) (\<lambda>(last, s2).
       Inr ((outcomes,
             \<lparr>jc_before = (case before of None \<Rightarrow> jc_before last | Some b \<Rightarrow> b),
              jc_after = jc_after last\<rparr>), s2)))))"

record Rescheduled =
  rs_dispatches :: "Dispatch list"
  rs_needs_agent :: "uuid list"

definition movable :: "Delivery \<Rightarrow> bool" where
  "movable d = (v_state d = S_Pending
     \<or> (v_state d = S_Processing \<and> v_remote_publish_at d \<noteq> None))"

definition reschedule_row ::
  "timestamp \<Rightarrow> timestamp \<Rightarrow> uuid list \<Rightarrow> uuid \<Rightarrow> delivery_row \<Rightarrow> delivery_row" where
  "reschedule_row at now upload_now act r =
     r\<lparr>d_next_attempt_at := Some (if d_account_id r \<in> set upload_now then now else at),
       d_dispatch_gen := d_dispatch_gen r + 1, d_updated_at := now, d_updated_by := Some act\<rparr>"

definition reschedule_pending_with ::
  "db \<Rightarrow> OwnerScope \<Rightarrow> uuid \<Rightarrow> timestamp \<Rightarrow> timestamp \<Rightarrow> uuid list \<Rightarrow> DataError + Rescheduled \<times> db" where
  "reschedule_pending_with s scope job at now upload_now =
     bindE (check_scope scope Cap_Publish) (\<lambda>_.
     bindE (lock_visible_job s scope job) (\<lambda>ds.
     bindE (ok_or (DE_Sql ''no rows returned'') (row_by j_id job (publish_jobs s))) (\<lambda>j.
       if j_cancelled_at j \<noteq> None then Inl (DE_Conflict ''job_cancelled'')
       else
         let open_ds = filter (\<lambda>d. \<not> is_terminal (v_state d)) ds;
             pending = map v_id (filter (\<lambda>d. v_state d = S_Pending) open_ds);
             chosen = (\<lambda>r. d_id r \<in> set pending \<and> d_state r = S_Pending);
             moved = sql_returning chosen (reschedule_row at now upload_now (actor scope)) (deliveries s)
         in if \<not> list_all movable open_ds then Inl (DE_Conflict ''not_reschedulable'')
            else if \<not> list_all row_fits moved then Inl (DE_Sql ''integer out of range'')
            else
              let s1 = s\<lparr>deliveries := sql_update chosen
                           (reschedule_row at now upload_now (actor scope)) (deliveries s),
                         publish_jobs := sql_update (\<lambda>k. j_id k = job)
                           (\<lambda>k. k\<lparr>j_scheduled_at := at, j_updated_at := now,
                                  j_updated_by := Some (actor scope)\<rparr>) (publish_jobs s)\<rparr>
              in bindE (touch_job s1 job now) (\<lambda>(change, s2).
                   Inr (\<lparr>rs_dispatches = map (\<lambda>r. \<lparr>dp_delivery = d_id r,
                            dp_dispatch_gen = d_dispatch_gen r,
                            dp_run_at = the (d_next_attempt_at r)\<rparr>) moved,
                         rs_needs_agent = map v_id
                           (filter (\<lambda>d. v_state d = S_Processing) open_ds)\<rparr>, s2)))))"

section \<open>Reads of a job\<close>

definition job_visible :: "db \<Rightarrow> OwnerScope \<Rightarrow> job_row \<Rightarrow> bool" where
  "job_visible s scope j =
     (j_owner_id j = owner scope
      \<and> (case account_filter scope of
           None \<Rightarrow> True
         | Some ids \<Rightarrow>
             list_ex (\<lambda>r. d_job_id r = j_id j \<and> d_account_id r \<in> set ids) (deliveries s)))"

definition get_job :: "db \<Rightarrow> OwnerScope \<Rightarrow> uuid \<Rightarrow> DataError + job_row" where
  "get_job s scope job =
     bindE (check_scope scope Cap_View) (\<lambda>_.
       ok_or DE_NotFound (find (\<lambda>j. job_visible s scope j \<and> j_id j = job) (publish_jobs s)))"

definition job_snapshot :: "db \<Rightarrow> uuid \<Rightarrow> DataError + PublishSnapshot" where
  "job_snapshot s job = ok_or DE_NotFound (map_option j_snapshot (row_by j_id job (publish_jobs s)))"

definition job_created_by :: "db \<Rightarrow> uuid \<Rightarrow> DataError + uuid option" where
  "job_created_by s job = ok_or DE_NotFound (map_option j_created_by (row_by j_id job (publish_jobs s)))"

record DeliveryCounts =
  dn_published :: int
  dn_failed :: int

definition u32_ok :: "int \<Rightarrow> bool" where
  "u32_ok n = (0 \<le> n \<and> n < 2 ^ 32)"

definition delivery_counts :: "db \<Rightarrow> uuid \<Rightarrow> DataError + DeliveryCounts" where
  "delivery_counts s job =
     (let n = (\<lambda>p. int (length (filter (\<lambda>r. d_job_id r = job \<and> p (d_state r)) (deliveries s))));
          published = n (\<lambda>st. st = S_Published);
          failed = n (\<lambda>st. st = S_Failed \<or> st = S_DeadLetter)
      in if u32_ok published \<and> u32_ok failed
         then Inr \<lparr>dn_published = published, dn_failed = failed\<rparr>
         else Inl (DE_Sql ''count out of range''))"

section \<open>Actions on one delivery keep the invariant\<close>

lemma cancel_now_cases:
  assumes "cancel_now s d act now = Inr (r, t)"
  obtains applied where
    "apply_event s (fence_of d) E_Cancel (td_default\<lparr>td_actor := act\<rparr>) now = Inr (applied, t)"
    and "fst r = (if applied = Stale then NotCancellable else Cancelled)"
  using assms
  by (cases "apply_event s (fence_of d) E_Cancel (td_default\<lparr>td_actor := act\<rparr>) now")
    (auto simp: cancel_now_def split: Applied.split_asm)

lemma cancel_now_ok:
  assumes "db_inv X s" and "cancel_now s d act now = Inr (r, t)"
  shows "db_inv X t"
  using assms(2) by (rule cancel_now_cases) (use assms(1) apply_event_ok in blast)

lemma request_cancel_ok:
  assumes ok: "db_inv X s" and run: "request_cancel s d act now = Inr (r, t)"
  shows "db_inv X t"
proof -
  let ?f = "\<lambda>r. r\<lparr>d_cancel_requested_at := Some now, d_updated_at := now,
                 d_updated_by := coalesce act (d_updated_by r)\<rparr>"
  from run obtain c where
    touch: "touch_job (write_deliveries s (\<lambda>r. d_id r = v_id d) ?f) (v_job_id d) now = Inr (c, t)"
    by (auto simp: request_cancel_def Let_def result_simps)
  have "db_inv X (write_deliveries s (\<lambda>r. d_id r = v_id d) ?f)"
    using ok
  proof (rule quiet_write_ok)
    fix r assume "r \<in> set (deliveries s)"
    then show "delivery_ok (?f r)"
      using db_inv_row [OF ok] by (auto simp: delivery_ok_def row_fits_def)
  qed (simp_all add: keeps_keys_def)
  then show ?thesis using touch by (rule touch_ok)
qed

lemma cancel_loaded_ok:
  "db_inv X s \<Longrightarrow> cancel_loaded s d act now = Inr (r, t) \<Longrightarrow> db_inv X t"
  by (auto simp: cancel_loaded_def split: DeliveryState.splits if_splits
      intro: cancel_now_ok request_cancel_ok)

lemma cancel_with_status_ok:
  "db_inv X s \<Longrightarrow> cancel_with_status s scope did now = Inr (r, t) \<Longrightarrow> db_inv X t"
  by (auto simp: cancel_with_status_def result_simps intro: cancel_loaded_ok)

lemma cancel_rows_ok:
  assumes "db_inv X s" and "cancel_rows s rows now = Inr (r, t)"
  shows "db_inv X t"
proof -
  have "(\<lambda>(results :: CancelResult list, s). db_inv X s) (r, t)"
    using assms(2) unfolding cancel_rows_def
    by (rule foldE_invariant)
      (use assms(1) in \<open>auto simp: Let_def result_simps intro: cancel_loaded_ok\<close>)
  then show ?thesis by simp
qed

lemma forget_counts_ok:
  assumes "db_inv X s"
  shows "db_inv X (forget_counts s did)"
  unfolding forget_counts_def using assms
proof (rule quiet_write_ok)
  fix r assume "r \<in> set (deliveries s)"
  then show "delivery_ok (r\<lparr>d_direct_counts := None\<rparr>)"
    using db_inv_row [OF assms] by (auto simp: delivery_ok_def row_fits_def)
qed (simp_all add: keeps_keys_def)

lemma retry_cases:
  assumes "retry s scope did ack now = Inr (dispatch, t)"
  obtains d j st change u where "check_scope scope Cap_Publish = Inr ()" and "lock_one s scope did = Inr d"
    and "row_by j_id (v_job_id d) (publish_jobs s) = Some j" and "j_cancelled_at j = None"
    and "v_operation d = Op_Direct \<Longrightarrow> \<not> list_ex (\<lambda>r. s_delivery_id r = did) (direct_sends s)"
    and "apply_event s (fence_of d) (E_UserRetry ack)
           (td_default\<lparr>td_reset_attempts := True, td_actor := Some (actor scope)\<rparr>) now
         = Inr (Done st (Some dispatch) change, u)"
    and "t = (if v_operation d = Op_Direct then forget_counts u did else u)"
proof -
  from assms obtain d j where d: "check_scope scope Cap_Publish = Inr ()" "lock_one s scope did = Inr d"
    "row_by j_id (v_job_id d) (publish_jobs s) = Some j" "j_cancelled_at j = None"
    "v_operation d = Op_Direct \<Longrightarrow> \<not> list_ex (\<lambda>r. s_delivery_id r = did) (direct_sends s)"
    by (auto simp: retry_def refuse_materialized_def bindE_Inr_iff ok_or_Inr_iff split: if_split_asm)
  with assms that [OF d] show ?thesis
    by (cases "apply_event s (fence_of d) (E_UserRetry ack)
           (td_default\<lparr>td_reset_attempts := True, td_actor := Some (actor scope)\<rparr>) now")
      (auto simp: retry_def bindE_Inr_iff split: if_split_asm Applied.split_asm option.split_asm)
qed

lemma retry_ok:
  assumes "db_inv X s" and "retry s scope did ack now = Inr (r, t)"
  shows "db_inv X t"
  using assms(2) by (rule retry_cases) (use assms(1) apply_event_ok forget_counts_ok in force)

lemma resolve_cases:
  assumes "resolve_with_status s scope did outcome now = Inr ((st, change), t)"
  obtains d dispatch where "check_scope scope Cap_Publish = Inr ()" and "lock_one s scope did = Inr d"
    and "apply_event s (fence_of d) (E_UserResolve outcome)
           (td_default\<lparr>td_actor := Some (actor scope)\<rparr>) now = Inr (Done st dispatch change, t)"
proof -
  from assms obtain d where d: "check_scope scope Cap_Publish = Inr ()" "lock_one s scope did = Inr d"
    by (auto simp: resolve_with_status_def bindE_Inr_iff)
  with assms that [OF d] show ?thesis
    by (cases "apply_event s (fence_of d) (E_UserResolve outcome)
           (td_default\<lparr>td_actor := Some (actor scope)\<rparr>) now")
      (auto simp: resolve_with_status_def split: Applied.split_asm)
qed

lemma resolve_ok:
  assumes "db_inv X s" and "resolve_with_status s scope did outcome now = Inr (r, t)"
  shows "db_inv X t"
  using assms by (cases r) (auto elim!: resolve_cases dest: apply_event_ok)

section \<open>Creating a job keeps the invariant\<close>

lemma insert_job_row_ok:
  assumes "db_ok s" and "insert_job_row s j = Inr t" and "j_cancelled_at j = None"
  shows "db_inv_but {} (j_id j) t \<and> (\<forall>k \<in> set (publish_jobs t). j_id k = j_id j \<longrightarrow> j_cancelled_at k = None)
    \<and> j_id j \<in> set (map j_id (publish_jobs t))"
proof -
  from assms(2) have new: "j_id j \<notin> j_id ` set (publish_jobs s)"
    and slot: "live_open j \<Longrightarrow> \<not> live_slot_taken (publish_jobs s) (j_id j) (j_post_id j)"
    and t: "t = s\<lparr>publish_jobs := publish_jobs s @ [j]\<rparr>"
    by (auto simp: insert_job_row_def list_ex_iff split: if_splits)
  have "live_ok (publish_jobs t)"
    using assms(1) slot
    by (auto simp: t db_inv_def live_ok_def live_slot_taken_def list_all_iff list_ex_iff) metis
  moreover have "cancel_ok {} t k" if "k \<in> set (publish_jobs t)" for k
    using assms(1,3) that by (auto simp: t db_inv_def list_all_iff cancel_ok_def)
  moreover have "rollup_ok t k" if "k \<in> set (publish_jobs t)" "j_id k \<noteq> j_id j" for k
    using assms(1) that by (auto simp: t db_inv_def list_all_iff rollup_ok_def)
  moreover have "keys_ok t"
    using assms(1) new by (auto simp: t db_inv_def keys_ok_def list_all_iff)
  moreover have "\<forall>k \<in> set (publish_jobs t). j_id k = j_id j \<longrightarrow> j_cancelled_at k = None"
    using new assms(3) by (auto simp: t) (metis imageI)
  ultimately show ?thesis
    using assms(1) by (auto simp: db_inv_but_def list_all_iff t db_inv_def)
qed

lemma insert_delivery_row_ok:
  assumes "db_inv_but {} job s" and "insert_delivery_row s r = Inr t"
    and "d_job_id r = job" and "delivery_ok r"
    and "\<forall>k \<in> set (publish_jobs s). j_id k = job \<longrightarrow> j_cancelled_at k = None"
    and "job \<in> set (map j_id (publish_jobs s))"
  shows "db_inv_but {} job t \<and> publish_jobs t = publish_jobs s"
proof -
  from assms(2) have new: "d_id r \<notin> d_id ` set (deliveries s)"
    and t: "t = s\<lparr>deliveries := deliveries s @ [r]\<rparr>"
    by (auto simp: insert_delivery_row_def list_ex_iff split: if_splits)
  have "cancel_ok {} t k" if "k \<in> set (publish_jobs s)" for k
    using assms(1,3,5) that by (auto simp: t db_inv_but_def list_all_iff cancel_ok_def)
  moreover have "rollup_ok t k" if "k \<in> set (publish_jobs s)" "j_id k \<noteq> job" for k
    using assms(1,3) that by (auto simp: t db_inv_but_def list_all_iff rollup_ok_def)
  moreover have "keys_ok t"
    using assms(1,3,6) new by (auto simp: t db_inv_but_def keys_ok_def list_all_iff)
  ultimately show ?thesis
    using assms(1,4) by (auto simp: db_inv_but_def list_all_iff t)
qed

lemma new_delivery_row_ok: "delivery_ok (new_delivery_row sha256 user act post new clock target)"
  by (simp add: delivery_ok_def new_delivery_row_def row_fits_def i32_ok_def)

lemma insert_job_ok:
  assumes "db_ok s" and "insert_job sha256 s user act post new clock now = Inr (r, t)"
  shows "db_ok t"
proof -
  let ?j = "new_job_row user act post new clock"
  let ?row = "new_delivery_row sha256 user act post new clock"
  from assms(2) obtain s1 s2 st where
    job: "insert_job_row s ?j = Inr s1"
    and fold: "foldE (\<lambda>s target. insert_delivery_row s (?row target)) s1 (nj_targets new) = Inr s2"
    and refresh: "refresh_job_status s2 (nj_id new) now = Inr (st, t)"
    by (auto simp: insert_job_def result_simps split: if_splits)
  define I where "I s = (db_inv_but {} (nj_id new) s
      \<and> (\<forall>k \<in> set (publish_jobs s). j_id k = nj_id new \<longrightarrow> j_cancelled_at k = None)
      \<and> nj_id new \<in> set (map j_id (publish_jobs s)))" for s
  have "I s1"
    using insert_job_row_ok [OF assms(1) job] by (simp add: I_def new_job_row_def)
  have "I s2"
    using fold \<open>I s1\<close>
  proof (rule foldE_invariant)
    fix u target u'
    assume "I u" and "insert_delivery_row u (?row target) = Inr u'"
    then show "I u'"
      using insert_delivery_row_ok [of "nj_id new" u "?row target" u'] new_delivery_row_ok
      unfolding I_def by (simp add: new_delivery_row_def)
  qed
  then show ?thesis using refresh refresh_ok unfolding I_def by blast
qed

lemma create_job_ok:
  "db_ok s \<Longrightarrow> create_job sha256 s scope locked new clock now = Inr (r, t) \<Longrightarrow> db_ok t"
  by (auto simp: create_job_def result_simps split: if_splits intro: insert_job_ok)

lemma reschedule_ok:
  assumes ok: "db_ok s" and run: "reschedule_pending_with s scope job at now upload_now = Inr (r, t)"
  shows "db_ok t"
proof -
  let ?f = "reschedule_row at now upload_now (actor scope)"
  from run obtain p c where fits: "list_all row_fits (sql_returning p ?f (deliveries s))"
    and pending: "\<And>r. p r \<Longrightarrow> d_state r = S_Pending"
    and touch: "touch_job (s\<lparr>deliveries := sql_update p ?f (deliveries s),
        publish_jobs := sql_update (\<lambda>k. j_id k = job)
          (\<lambda>k. k\<lparr>j_scheduled_at := at, j_updated_at := now, j_updated_by := Some (actor scope)\<rparr>)
          (publish_jobs s)\<rparr>) job now = Inr (c, t)"
    by (auto simp: reschedule_pending_with_def Let_def result_simps split: if_splits)
  have "db_ok (write_deliveries s p ?f)"
    using ok
  proof (rule quiet_write_ok)
    fix r assume r: "r \<in> set (deliveries s)" "p r"
    then have "row_fits (?f r)" using fits by (auto simp: sql_returning_def list_all_iff)
    with pending [OF r(2)] db_inv_row [OF ok r(1)] show "delivery_ok (?f r)"
      by (auto simp: delivery_ok_def reschedule_row_def)
  qed (simp_all add: keeps_keys_def reschedule_row_def)
  then have "db_ok ((write_deliveries s p ?f)\<lparr>publish_jobs := sql_update (\<lambda>k. j_id k = job)
          (\<lambda>k. k\<lparr>j_scheduled_at := at, j_updated_at := now, j_updated_by := Some (actor scope)\<rparr>)
          (publish_jobs (write_deliveries s p ?f))\<rparr>)"
    by (subst keeps_job_ok(2)) (simp_all add: keeps_job_def)
  then show ?thesis using touch by (auto intro: touch_ok)
qed

section \<open>Cancelling a whole job\<close>

lemma delivery_of_simps [simp]:
  "v_id (delivery_of r) = d_id r"
  "v_job_id (delivery_of r) = d_job_id r"
  "v_state (delivery_of r) = d_state r"
  "v_operation (delivery_of r) = d_operation r"
  "v_post_id (delivery_of r) = d_post_id r"
  "v_account_id (delivery_of r) = d_account_id r"
  "v_dispatch_gen (delivery_of r) = d_dispatch_gen r"
  "v_remote_publish_at (delivery_of r) = d_remote_publish_at r"
  by (simp_all add: delivery_of_def)

lemma fence_of_delivery_of:
  "fence_matches (fence_of (delivery_of r)) q \<longleftrightarrow>
     d_id q = d_id r \<and> d_dispatch_gen q = d_dispatch_gen r \<and> d_state q = d_state r"
  by (simp add: fence_matches_iff fence_of_def)

lemma fence_of_fields [simp]:
  "f_id (fence_of d) = v_id d" "f_expected (fence_of d) = v_state d"
  "f_dispatch_gen (fence_of d) = v_dispatch_gen d"
  by (simp_all add: fence_of_def)

lemma find_loaded:
  assumes "row_by d_id x rows = Some r"
  shows "find (fence_matches (fence_of (delivery_of r))) rows \<noteq> None"
  using row_by_mem [OF assms] by (auto simp: find_None_iff fence_of_delivery_of)

lemma apply_event_other_rows:
  assumes "apply_event s f ev data now = Inr (r, t)" and "d \<noteq> f_id f"
  shows "row_by d_id d (deliveries t) = row_by d_id d (deliveries s)"
  using assms by (auto elim!: apply_event_cases dest: apply_write_other_rows)

lemma request_cancel_rows:
  assumes "request_cancel s d act now = Inr (r, t)"
  shows "x \<noteq> v_id d \<Longrightarrow> row_by d_id x (deliveries t) = row_by d_id x (deliveries s)"
    and "map_option d_state (row_by d_id x (deliveries t)) = map_option d_state (row_by d_id x (deliveries s))"
proof -
  let ?f = "\<lambda>r. r\<lparr>d_cancel_requested_at := Some now, d_updated_at := now,
                 d_updated_by := coalesce act (d_updated_by r)\<rparr>"
  from assms obtain c where
    "touch_job (write_deliveries s (\<lambda>r. d_id r = v_id d) ?f) (v_job_id d) now = Inr (c, t)"
    by (auto simp: request_cancel_def Let_def result_simps)
  then have t: "deliveries t = sql_update (\<lambda>r. d_id r = v_id d) ?f (deliveries s)"
    by (auto dest: touch_job_tables(1))
  show "x \<noteq> v_id d \<Longrightarrow> row_by d_id x (deliveries t) = row_by d_id x (deliveries s)"
    using row_by_key [of d_id x "deliveries s"]
    by (fastforce simp: t row_by_write keeps_keys_def intro: option.map_ident_strong)
  show "map_option d_state (row_by d_id x (deliveries t)) = map_option d_state (row_by d_id x (deliveries s))"
    by (cases "row_by d_id x (deliveries s)") (simp_all add: t row_by_write keeps_keys_def)
qed

lemma cancel_loaded_other_rows:
  assumes "cancel_loaded s d act now = Inr (r, t)" and "x \<noteq> v_id d"
  shows "row_by d_id x (deliveries t) = row_by d_id x (deliveries s)"
  using assms request_cancel_rows(1) [of s d act now r t x]
  by (auto simp: cancel_loaded_def split: DeliveryState.splits if_splits
      elim!: cancel_now_cases dest!: apply_event_other_rows)

text \<open>Cancelling a delivery as it was loaded moves it to \<^verbatim>\<open>cancelled\<close>.\<close>

lemma cancel_now_cancels:
  assumes "row_by d_id x (deliveries s) = Some row" and "cancel_now s (delivery_of row) act now = Inr (r, t)"
  shows "map_option d_state (row_by d_id x (deliveries t)) = Some S_Cancelled \<and> fst r = Cancelled"
proof -
  let ?f = "fence_of (delivery_of row)"
  let ?data = "td_default\<lparr>td_actor := act\<rparr>"
  have x: "d_id row = x" by (rule row_by_key [OF assms(1)])
  from assms(2) obtain applied where
    ev: "apply_event s ?f E_Cancel ?data now = Inr (applied, t)"
    and r: "fst r = (if applied = Stale then NotCancellable else Cancelled)"
    by (rule cancel_now_cases)
  from ev obtain to where to: "transition (f_expected ?f) E_Cancel = Inr to"
    and w: "apply_write s ?f (apply_target s ?f to) ?data now = Inr (applied, t)"
    by (rule apply_event_cases)
  from to have [simp]: "to = S_Cancelled" by (auto simp: transition_iff_move elim: move_elim)
  have target: "apply_target s ?f to = S_Cancelled" by (simp add: apply_target_def)
  have "applied \<noteq> Stale"
    using w find_loaded [OF assms(1)] by (auto simp: apply_write_Stale)
  then obtain st disp ch where "applied = Done st disp ch" by (cases applied) auto
  with w target have "map_option d_state (row_by d_id x (deliveries t)) = map_option d_state
      (row_by d_id x (sql_update (fence_matches ?f) (apply_row S_Cancelled ?data now) (deliveries s)))"
    by (auto elim!: apply_write_Done)
  with r \<open>applied \<noteq> Stale\<close> show ?thesis
    by (simp add: row_by_write assms(1) fence_of_delivery_of)
qed

lemma cancel_loaded_stops:
  assumes "row_by d_id x (deliveries s) = Some row"
    and "cancel_loaded s (delivery_of row) act now = Inr (r, t)"
    and "row_by d_id x (deliveries t) = Some row'"
  shows "d_state row' \<noteq> S_Pending \<and> d_state row' \<noteq> S_Claimed"
  using assms cancel_now_cancels [OF assms(1), of act now r t]
    request_cancel_rows(2) [of s "delivery_of row" act now r t x]
  by (auto simp: cancel_loaded_def split: DeliveryState.split_asm if_split_asm)

lemma db_inv_shrink:
  assumes "db_inv (insert x X) s"
    and "\<And>r. row_by d_id x (deliveries s) = Some r \<Longrightarrow> d_state r \<noteq> S_Pending \<and> d_state r \<noteq> S_Claimed"
  shows "db_inv X s"
proof -
  have "d_state r \<noteq> S_Pending \<and> d_state r \<noteq> S_Claimed" if "r \<in> set (deliveries s)" "d_id r = x" for r
    using assms(2) db_inv_unique [OF assms(1) that(1)] that(2) by simp
  with assms(1) show ?thesis
    by (simp add: db_inv_def cancel_ok_def list_all_iff) blast
qed

lemma cancel_each_fold:
  assumes "db_inv (set (map v_id todo)) s" and "distinct (map v_id todo)"
    and "\<And>d. d \<in> set todo \<Longrightarrow> \<exists>r. row_by d_id (v_id d) (deliveries s) = Some r \<and> d = delivery_of r"
    and "foldE (cancel_each act now) (acc, s) todo = Inr (acc', t)"
  shows "db_ok t"
  using assms
proof (induction todo arbitrary: acc s)
  case Nil
  then show ?case by simp
next
  case (Cons d todo)
  from Cons.prems(4) obtain acc1 s1 where step: "cancel_each act now (acc, s) d = Inr (acc1, s1)"
    and rest: "foldE (cancel_each act now) (acc1, s1) todo = Inr (acc', t)"
    by (auto simp: bindE_Inr_iff)
  from step obtain r where run: "cancel_loaded s d (Some act) now = Inr (r, s1)"
    by (auto simp: cancel_each_def result_simps split: prod.splits)
  obtain row where row: "row_by d_id (v_id d) (deliveries s) = Some row" "d = delivery_of row"
    using Cons.prems(3) [of d] by auto
  have "db_inv (insert (v_id d) (set (map v_id todo))) s1"
    using Cons.prems(1) run by (auto intro: cancel_loaded_ok)
  then have "db_inv (set (map v_id todo)) s1"
    by (rule db_inv_shrink) (use row run cancel_loaded_stops in blast)
  moreover have "\<exists>r. row_by d_id (v_id e) (deliveries s1) = Some r \<and> e = delivery_of r"
    if "e \<in> set todo" for e
  proof -
    have "v_id e \<noteq> v_id d" using imageI [OF that, of v_id] Cons.prems(2) by auto
    then show ?thesis
      using Cons.prems(3) [of e] that cancel_loaded_other_rows [OF run] by simp
  qed
  ultimately show ?case using Cons.IH [OF _ _ _ rest] Cons.prems(2) by auto
qed

lemma lock_visible_job_deliveries:
  "lock_visible_job s scope job = Inr ds \<Longrightarrow> ds = lock_job_deliveries s job"
  by (auto simp: lock_visible_job_def Let_def split: if_splits)

lemma mark_cancelled_inv:
  assumes "db_ok s"
    and "\<And>r. r \<in> set (deliveries s) \<Longrightarrow> d_job_id r = job \<Longrightarrow> \<not> is_terminal (d_state r) \<Longrightarrow> d_id r \<in> X"
  shows "db_inv X (mark_cancelled s job now act)"
proof -
  let ?g = "\<lambda>j. j\<lparr>j_cancelled_at := coalesce (j_cancelled_at j) (Some now), j_updated_at := now,
                j_updated_by := Some act\<rparr>"
  let ?t = "mark_cancelled s job now act"
  have jobs: "publish_jobs ?t = sql_update (\<lambda>j. j_id j = job) ?g (publish_jobs s)"
    and dels: "deliveries ?t = deliveries s"
    by (simp_all add: mark_cancelled_def)
  have "live_ok (publish_jobs ?t) = live_ok (publish_jobs s)"
    unfolding jobs by (rule live_ok_cong) (simp_all add: live_open_def)
  then have "live_ok (publish_jobs ?t)" using assms(1) by (simp add: db_inv_def)
  moreover have "list_all (cancel_ok X ?t) (publish_jobs ?t)"
    using assms
    by (auto simp: jobs dels db_inv_def list_all_iff set_sql_update cancel_ok_def)
  moreover have "list_all (rollup_ok ?t) (publish_jobs ?t)"
    using assms(1) by (auto simp: jobs dels db_inv_def list_all_iff set_sql_update rollup_ok_def)
  moreover have "keys_ok ?t"
    using assms(1) by (simp add: jobs dels db_inv_def keys_ok_def map_sql_update_same del: set_map)
  ultimately show ?thesis using assms(1) by (simp add: db_inv_def dels)
qed

lemma cancel_job_ok:
  assumes ok: "db_ok s" and run: "cancel_job_with_status s scope job now = Inr (r, t)"
  shows "db_ok t"
proof -
  let ?s0 = "mark_cancelled s job now (actor scope)"
  let ?todo = "filter (\<lambda>d. \<not> is_terminal (v_state d)) (lock_job_deliveries s job)"
  from run obtain acc s1 c where
    fold: "foldE (cancel_each (actor scope) now) (([], None), ?s0) ?todo = Inr (acc, s1)"
    and touch: "touch_job s1 job now = Inr (c, t)"
    by (auto simp: cancel_job_with_status_def result_simps dest: lock_visible_job_deliveries)
  have dels: "deliveries ?s0 = deliveries s" by (simp add: mark_cancelled_def)
  have "db_inv (set (map v_id ?todo)) ?s0"
    using ok by (rule mark_cancelled_inv) (force simp: lock_job_deliveries_def)
  moreover have "distinct (map v_id ?todo)"
  proof -
    have "distinct (map d_id (deliveries s))" using ok by (simp add: db_inv_def keys_ok_def)
    then show ?thesis
      by (auto simp: lock_job_deliveries_def filter_map comp_def distinct_map inj_on_def)
  qed
  moreover have "\<exists>r. row_by d_id (v_id d) (deliveries ?s0) = Some r \<and> d = delivery_of r"
    if "d \<in> set ?todo" for d
    using that db_inv_unique [OF ok] by (auto simp: lock_job_deliveries_def dels)
  ultimately have "db_ok s1" using fold by (rule cancel_each_fold)
  then show ?thesis using touch by (rule touch_ok)
qed

end
