(* ===== verification/Sweep_Store.thy ===== *)
theory Sweep_Store
  imports Store_Actions "HOL-Library.Option_ord"
begin

text \<open>
  The due sweep's queries and writes: the model of
  \<^verbatim>\<open>backend/crates/data/src/publishing/sweep.rs\<close>. \<^verbatim>\<open>FOR UPDATE SKIP LOCKED\<close> leaves out the rows
  another transaction holds: the argument \<open>held\<close> says which, and every theorem is for any
  \<open>held\<close>. Rows are taken in the order of the query, equal keys in table order.
\<close>

section \<open>Values\<close>

record Swept =
  sw_delivery :: uuid
  sw_dispatch_gen :: int
  sw_run_at :: timestamp
  sw_state :: DeliveryState
  sw_job :: JobStatusChange

definition swept_dispatch :: "Swept \<Rightarrow> Dispatch" where
  "swept_dispatch w =
     \<lparr>dp_delivery = sw_delivery w, dp_dispatch_gen = sw_dispatch_gen w, dp_run_at = sw_run_at w\<rparr>"

definition from_applied :: "Fence \<Rightarrow> Applied \<Rightarrow> timestamp \<Rightarrow> Swept option" where
  "from_applied f applied now =
     (case applied of
        Stale \<Rightarrow> None
      | Done st redispatch job \<Rightarrow> Some
          \<lparr>sw_delivery = f_id f,
           sw_dispatch_gen = (case redispatch of None \<Rightarrow> f_dispatch_gen f | Some d \<Rightarrow> dp_dispatch_gen d),
           sw_run_at = (case redispatch of None \<Rightarrow> now | Some d \<Rightarrow> dp_run_at d),
           sw_state = st, sw_job = job\<rparr>)"

record StalledCheck =
  sc_delivery :: uuid
  sc_dispatch_gen :: int
  sc_seq :: int
  sc_state :: DeliveryState

record UnparkInput =
  ui_now :: timestamp
  ui_park_grace :: int
  ui_compiled_platforms :: "string list"
  ui_limit :: int

record UnparkResult =
  ur_resumed :: "Swept list"
  ur_needs_owner :: "(uuid \<times> uuid) list"

section \<open>Lost dispatches\<close>

definition sql_limit :: "int \<Rightarrow> 'a list \<Rightarrow> DataError + 'a list" where
  "sql_limit limit xs =
     (if limit < 0 then Inl (DE_Sql ''LIMIT must not be negative'') else Inr (take (nat limit) xs))"

definition at_most :: "timestamp option \<Rightarrow> timestamp \<Rightarrow> bool" where
  "at_most t bound = (case t of None \<Rightarrow> False | Some x \<Rightarrow> x \<le> bound)"

definition job_live :: "db \<Rightarrow> delivery_row \<Rightarrow> bool" where
  "job_live s r = (case row_by j_id (d_job_id r) (publish_jobs s) of
     None \<Rightarrow> False | Some j \<Rightarrow> j_cancelled_at j = None)"

definition touch_all :: "db \<Rightarrow> uuid list \<Rightarrow> timestamp \<Rightarrow> DataError + db" where
  "touch_all s jobs now =
     foldE (\<lambda>s job. bindE (touch_job s job now) (\<lambda>(change, t). Inr t)) s jobs"

definition dispatch_at :: "timestamp \<Rightarrow> delivery_row \<Rightarrow> Dispatch" where
  "dispatch_at now r = \<lparr>dp_delivery = d_id r, dp_dispatch_gen = d_dispatch_gen r, dp_run_at = now\<rparr>"

definition overdue_row :: "timestamp \<Rightarrow> delivery_row \<Rightarrow> delivery_row" where
  "overdue_row now r = r\<lparr>d_dispatch_gen := d_dispatch_gen r + 1, d_updated_at := now\<rparr>"

definition overdue_pending ::
  "db \<Rightarrow> (uuid \<Rightarrow> bool) \<Rightarrow> timestamp \<Rightarrow> int \<Rightarrow> int \<Rightarrow> DataError + Dispatch list \<times> db" where
  "overdue_pending s held now grace limit =
     bindE (sql_limit limit (sort_key d_next_attempt_at (filter
         (\<lambda>r. d_state r = S_Pending \<and> at_most (d_next_attempt_at r) (now - grace)
            \<and> d_updated_at r \<le> now - grace \<and> job_live s r \<and> \<not> held (d_id r))
         (deliveries s)))) (\<lambda>picked.
       let chosen = (\<lambda>r. d_id r \<in> set (map d_id picked));
           rows = sql_returning chosen (overdue_row now) (deliveries s)
       in if \<not> list_all row_fits rows then Inl (DE_Sql ''integer out of range'')
          else
            bindE (touch_all
                     (s\<lparr>deliveries := sql_update chosen (overdue_row now) (deliveries s)\<rparr>)
                     (remdups_adj (sort (map d_job_id rows))) now) (\<lambda>t.
              Inr (map (dispatch_at now) rows, t)))"

section \<open>Expired leases\<close>

definition expired :: "db \<Rightarrow> (uuid \<Rightarrow> bool) \<Rightarrow> DeliveryState \<Rightarrow> timestamp \<Rightarrow> int \<Rightarrow> DataError + (uuid \<times> int) list" where
  "expired s held st now limit =
     bindE (sql_limit limit (sort_key d_lease_expires_at (filter
         (\<lambda>r. d_state r = st \<and> (case d_lease_expires_at r of None \<Rightarrow> False | Some t \<Rightarrow> t < now)
            \<and> \<not> held (d_id r))
         (deliveries s)))) (\<lambda>rows. Inr (map (\<lambda>r. (d_id r, d_dispatch_gen r)) rows))"

text \<open>The loop both expiry sweeps share: apply an event to each row and keep what landed.\<close>

definition sweep_each ::
  "DeliveryState \<Rightarrow> DeliveryEvent \<Rightarrow> TransitionData \<Rightarrow> timestamp \<Rightarrow> Swept list \<times> db \<Rightarrow> uuid \<times> int
   \<Rightarrow> DataError + Swept list \<times> db" where
  "sweep_each st ev data now acc row =
     (case acc of (swept, s) \<Rightarrow>
        let f = \<lparr>f_id = fst row, f_dispatch_gen = snd row, f_expected = st\<rparr>
        in bindE (apply_event s f ev data now) (\<lambda>(applied, t).
             Inr (swept @ (case from_applied f applied now of None \<Rightarrow> [] | Some w \<Rightarrow> [w]), t)))"

definition expired_claims ::
  "db \<Rightarrow> (uuid \<Rightarrow> bool) \<Rightarrow> timestamp \<Rightarrow> int \<Rightarrow> DataError + Swept list \<times> db" where
  "expired_claims s held now limit =
     bindE (expired s held S_Claimed now limit) (\<lambda>rows.
       foldE (sweep_each S_Claimed E_LeaseExpired td_default now) ([], s) rows)"

definition expired_in_flight ::
  "db \<Rightarrow> (uuid \<Rightarrow> bool) \<Rightarrow> timestamp \<Rightarrow> int \<Rightarrow> DataError + Swept list \<times> db" where
  "expired_in_flight s held now limit =
     bindE (expired s held S_InFlight now limit) (\<lambda>rows.
       foldE (sweep_each S_InFlight E_LeaseExpired (td_default\<lparr>td_count_attempt := True\<rparr>) now)
         ([], s) rows)"

section \<open>Stalled chains and orphaned campaigns\<close>

definition stalled_checks ::
  "db \<Rightarrow> (uuid \<Rightarrow> bool) \<Rightarrow> timestamp \<Rightarrow> int \<Rightarrow> int \<Rightarrow> DataError + StalledCheck list \<times> db" where
  "stalled_checks s held now grace limit =
     bindE (sql_limit limit (sort_key d_check_due_at (filter
         (\<lambda>r. ((d_state r = S_Processing \<and> d_operation r \<noteq> Op_Direct) \<or> d_state r = S_OutcomeUnknown)
            \<and> at_most (d_check_due_at r) (now - grace) \<and> \<not> held (d_id r))
         (deliveries s)))) (\<lambda>picked.
       let chosen = (\<lambda>r. d_id r \<in> set (map d_id picked));
           stamp = (\<lambda>r. r\<lparr>d_check_due_at := Some now\<rparr>)
       in Inr (map (\<lambda>r. \<lparr>sc_delivery = d_id r, sc_dispatch_gen = d_dispatch_gen r,
                          sc_seq = d_check_seq r, sc_state = d_state r\<rparr>)
                 (sql_returning chosen stamp (deliveries s)),
               s\<lparr>deliveries := sql_update chosen stamp (deliveries s)\<rparr>))"

definition preflight_accounts ::
  "db \<Rightarrow> timestamp \<Rightarrow> timestamp \<Rightarrow> int \<Rightarrow> DataError + (uuid \<times> uuid) list" where
  "preflight_accounts s due_by checked_before limit =
     bindE (sql_limit limit (sort_key ac_last_checked_at (sort_key ac_id (filter
         (\<lambda>a. ac_status a = ''active''
            \<and> (case ac_last_checked_at a of None \<Rightarrow> True | Some t \<Rightarrow> t < checked_before)
            \<and> list_ex (\<lambda>d. d_account_id d = ac_id a \<and> d_state d = S_Pending
                 \<and> at_most (d_next_attempt_at d) due_by
                 \<and> (case row_by j_id (d_job_id d) (publish_jobs s) of
                      None \<Rightarrow> False
                    | Some j \<Rightarrow> \<not> j_dry_run j \<and> j_cancelled_at j = None)) (deliveries s))
         (connected_accounts s))))) (\<lambda>rows. Inr (map (\<lambda>a. (ac_owner_id a, ac_id a)) rows))"

definition has_queued :: "db \<Rightarrow> uuid \<Rightarrow> bool" where
  "has_queued s did =
     list_ex (\<lambda>r. s_delivery_id r = did \<and> s_state r = DS_Queued) (direct_sends s)"

definition orphaned_direct ::
  "db \<Rightarrow> (uuid \<Rightarrow> bool) \<Rightarrow> timestamp \<Rightarrow> int \<Rightarrow> int \<Rightarrow> DataError + Dispatch list \<times> db" where
  "orphaned_direct s held now grace limit =
     bindE (sql_limit limit (sort_key d_updated_at (filter
         (\<lambda>r. d_operation r = Op_Direct \<and> d_state r = S_Processing
            \<and> list_ex (\<lambda>a. ac_id a = d_account_id r \<and> ac_status a = ''active'') (connected_accounts s)
            \<and> d_updated_at r \<le> now - grace
            \<and> (d_next_attempt_at r = None \<or> at_most (d_next_attempt_at r) (now - grace))
            \<and> has_queued s (d_id r)
            \<and> \<not> list_ex (\<lambda>x. s_delivery_id x = d_id r \<and> s_state x = DS_Queued
                  \<and> (case s_lease_expires_at x of None \<Rightarrow> False | Some t \<Rightarrow> t > now)) (direct_sends s)
            \<and> \<not> held (d_id r))
         (deliveries s)))) (\<lambda>picked.
       let chosen = (\<lambda>r. d_id r \<in> set (map d_id picked));
           stamp = (\<lambda>r. r\<lparr>d_updated_at := now\<rparr>);
           rows = sql_returning chosen stamp (deliveries s)
       in bindE (touch_all (s\<lparr>deliveries := sql_update chosen stamp (deliveries s)\<rparr>)
                  (remdups_adj (sort (map d_job_id rows))) now) (\<lambda>t.
            Inr (map (dispatch_at now) rows, t)))"

section \<open>Parked deliveries\<close>

definition live_switch :: "db \<Rightarrow> bool" where
  "live_switch s = (map_of (app_settings s) ''publishing.live'' = Some (JBool True))"

definition blocker_gone :: "db \<Rightarrow> UnparkInput \<Rightarrow> delivery_row \<Rightarrow> bool" where
  "blocker_gone s i r =
     (case (row_by u_id (d_owner_id r) (users s), row_by ac_id (d_account_id r) (connected_accounts s),
            row_by j_id (d_job_id r) (publish_jobs s), d_state r) of
        (Some u, Some a, Some j, S_Parked reason) \<Rightarrow>
          (case reason of
             OwnerDisabled \<Rightarrow> u_status u = ''active''
           | AccountNeedsReconnect \<Rightarrow> ac_status a = ''active''
           | PlatformUnavailable \<Rightarrow> ac_platform_id a \<in> set (ui_compiled_platforms i)
           | PlatformDisabled \<Rightarrow>
               (case row_by pl_id (ac_platform_id a) (platforms s) of
                  None \<Rightarrow> False | Some p \<Rightarrow> pl_enabled p)
           | LivePublishDisabled \<Rightarrow> j_dry_run j \<or> live_switch s
           | QuotaExceeded \<Rightarrow> at_most (d_parked_until r) (ui_now i)
           | OutcomeUnresolvable \<Rightarrow> False)
      | _ \<Rightarrow> False)"

text \<open>
  \<^verbatim>\<open>NOT (d.parked_notified_at IS NOT NULL AND d.next_attempt_at < $4)\<close> does not hold of a row; a
  comparison with \<^verbatim>\<open>NULL\<close> makes the whole clause unknown, which drops the row too.
\<close>

definition told_and_old :: "UnparkInput \<Rightarrow> delivery_row \<Rightarrow> bool" where
  "told_and_old i r =
     (d_parked_notified_at r \<noteq> None
      \<and> (case d_next_attempt_at r of None \<Rightarrow> True | Some t \<Rightarrow> t < ui_now i - ui_park_grace i))"

definition stale_park :: "UnparkInput \<Rightarrow> delivery_row \<Rightarrow> bool" where
  "stale_park i r =
     (case d_next_attempt_at r of None \<Rightarrow> False | Some due \<Rightarrow> ui_now i - due > ui_park_grace i)"

definition unpark_each ::
  "UnparkInput \<Rightarrow> UnparkResult \<times> db \<Rightarrow> delivery_row \<Rightarrow> DataError + UnparkResult \<times> db" where
  "unpark_each i acc row =
     (case acc of (result, s) \<Rightarrow>
        if stale_park i row then
          Inr (if d_parked_notified_at row = None
               then (result\<lparr>ur_needs_owner := ur_needs_owner result @ [(d_owner_id row, d_id row)]\<rparr>,
                     s\<lparr>deliveries := sql_update (\<lambda>r. d_id r = d_id row)
                         (\<lambda>r. r\<lparr>d_parked_notified_at := Some (ui_now i)\<rparr>) (deliveries s)\<rparr>)
               else (result, s))
        else
          let f = \<lparr>f_id = d_id row, f_dispatch_gen = d_dispatch_gen row, f_expected = d_state row\<rparr>
          in bindE (apply_event s f E_Unpark td_default (ui_now i)) (\<lambda>(applied, t).
               Inr (result\<lparr>ur_resumed := ur_resumed result @
                      (case from_applied f applied (ui_now i) of None \<Rightarrow> [] | Some w \<Rightarrow> [w])\<rparr>, t)))"

definition unpark :: "db \<Rightarrow> (uuid \<Rightarrow> bool) \<Rightarrow> UnparkInput \<Rightarrow> DataError + UnparkResult \<times> db" where
  "unpark s held i =
     bindE (sql_limit (ui_limit i) (sort_key d_next_attempt_at (filter
         (\<lambda>r. \<not> told_and_old i r \<and> blocker_gone s i r \<and> \<not> held (d_id r)) (deliveries s)))) (\<lambda>rows.
       foldE (unpark_each i) (\<lparr>ur_resumed = [], ur_needs_owner = []\<rparr>, s) rows)"

section \<open>Counts of uploads the platforms hold\<close>

text \<open>\<open>clock\<close> is the database's \<^verbatim>\<open>now()\<close>.\<close>

definition held_upload :: "db \<Rightarrow> timestamp \<Rightarrow> delivery_row \<Rightarrow> bool" where
  "held_upload s clock r =
     ((case row_by j_id (d_job_id r) (publish_jobs s) of None \<Rightarrow> False | Some j \<Rightarrow> j_native_schedule j)
      \<and> d_remote_id r \<noteq> None
      \<and> (case d_remote_publish_at r of None \<Rightarrow> False | Some at \<Rightarrow> at > clock)
      \<and> d_state r \<noteq> S_Cancelled \<and> d_state r \<noteq> S_Failed \<and> d_state r \<noteq> S_DeadLetter)"

definition native_scheduled_count_for_account :: "db \<Rightarrow> timestamp \<Rightarrow> uuid \<Rightarrow> int" where
  "native_scheduled_count_for_account s clock account =
     int (length (filter (\<lambda>r. d_account_id r = account \<and> held_upload s clock r) (deliveries s)))"

section \<open>The sweep keeps the invariant\<close>

lemma sql_limit_subset: "sql_limit limit xs = Inr ys \<Longrightarrow> set ys \<subseteq> set xs"
  by (auto simp: sql_limit_def split: if_splits dest: in_set_takeD)

lemma sql_limit_distinct:
  "sql_limit limit (sort_key k (filter p xs)) = Inr ys \<Longrightarrow> distinct (map f xs) \<Longrightarrow> distinct (map f ys)"
  by (auto simp: sql_limit_def distinct_map inj_on_def split: if_splits dest!: in_set_takeD)

lemma touch_all_ok:
  assumes "db_inv X s" and "touch_all s jobs now = Inr t"
  shows "db_inv X t"
  using assms(2) unfolding touch_all_def
  by (rule foldE_invariant) (use assms(1) in \<open>auto simp: result_simps intro: touch_ok\<close>)

lemma touch_all_tables:
  assumes "touch_all s jobs now = Inr t"
  shows "deliveries t = deliveries s \<and> direct_sends t = direct_sends s"
  using assms unfolding touch_all_def
  by (rule foldE_invariant) (auto simp: result_simps dest: touch_job_tables)

lemma overdue_pending_cases:
  assumes "overdue_pending s held now grace limit = Inr (ds, t)"
  obtains picked u where
    "set picked \<subseteq> {r \<in> set (deliveries s). d_state r = S_Pending
       \<and> at_most (d_next_attempt_at r) (now - grace) \<and> d_updated_at r \<le> now - grace
       \<and> job_live s r \<and> \<not> held (d_id r)}"
    and "list_all row_fits (sql_returning (\<lambda>r. d_id r \<in> d_id ` set picked) (overdue_row now) (deliveries s))"
    and "u = write_deliveries s (\<lambda>r. d_id r \<in> d_id ` set picked) (overdue_row now)"
    and "ds = map (dispatch_at now)
       (sql_returning (\<lambda>r. d_id r \<in> d_id ` set picked) (overdue_row now) (deliveries s))"
    and "deliveries t = deliveries u" and "\<And>X. db_inv X u \<Longrightarrow> db_inv X t"
proof -
  let ?all = "sort_key d_next_attempt_at (filter
         (\<lambda>r. d_state r = S_Pending \<and> at_most (d_next_attempt_at r) (now - grace)
            \<and> d_updated_at r \<le> now - grace \<and> job_live s r \<and> \<not> held (d_id r))
         (deliveries s))"
  let ?picked = "take (nat limit) ?all"
  have "set ?picked \<subseteq> set ?all" by (rule set_take_subset)
  moreover from assms obtain jobs where
    "touch_all (write_deliveries s (\<lambda>r. d_id r \<in> d_id ` set ?picked) (overdue_row now)) jobs now = Inr t"
    by (auto simp: overdue_pending_def sql_limit_def Let_def result_simps split: if_splits)
  ultimately show ?thesis
    using that [of ?picked, OF _ _ refl] assms touch_all_ok touch_all_tables
    by (auto simp: overdue_pending_def sql_limit_def Let_def result_simps split: if_splits)
qed

lemma overdue_pending_ok:
  assumes ok: "db_inv X s" and run: "overdue_pending s held now grace limit = Inr (ds, t)"
  shows "db_inv X t"
  using run
proof (rule overdue_pending_cases)
  fix picked :: "delivery_row list" and u
  let ?p = "\<lambda>r. d_id r \<in> d_id ` set picked"
  assume fits: "list_all row_fits (sql_returning ?p (overdue_row now) (deliveries s))"
    and u: "u = write_deliveries s ?p (overdue_row now)" and t: "\<And>X. db_inv X u \<Longrightarrow> db_inv X t"
  have "db_inv X u"
    unfolding u using ok
  proof (rule quiet_write_ok)
    fix r assume r: "r \<in> set (deliveries s)" "?p r"
    with fits have "row_fits (overdue_row now r)" by (auto simp: sql_returning_def list_all_iff)
    with db_inv_row [OF ok r(1)] show "delivery_ok (overdue_row now r)"
      by (simp add: delivery_ok_def overdue_row_def)
  qed (simp_all add: keeps_keys_def overdue_row_def)
  then show ?thesis by (rule t)
qed

lemma sweep_each_cases:
  assumes "sweep_each st ev data now (ws, s) row = Inr (ws', t)"
  obtains applied where
    "apply_event s \<lparr>f_id = fst row, f_dispatch_gen = snd row, f_expected = st\<rparr> ev data now = Inr (applied, t)"
    and "ws' = ws @ (case from_applied \<lparr>f_id = fst row, f_dispatch_gen = snd row, f_expected = st\<rparr>
                       applied now of None \<Rightarrow> [] | Some w \<Rightarrow> [w])"
  using assms by (auto simp: sweep_each_def Let_def result_simps)

lemma sweep_fold_ok:
  assumes "db_inv X s" and "ev \<noteq> E_Claim" and "foldE (sweep_each st ev data now) (ws, s) rows = Inr (ws', t)"
  shows "db_inv X t"
proof -
  have "(\<lambda>(ws :: Swept list, s). db_inv X s) (ws', t)"
    using assms(3)
  proof (rule foldE_invariant)
    show "case (ws, s) of (ws, s) \<Rightarrow> db_inv X s" using assms(1) by simp
    fix acc row acc'
    assume "case acc of (ws, s) \<Rightarrow> db_inv X s" and "sweep_each st ev data now acc row = Inr acc'"
    then show "case acc' of (ws, s) \<Rightarrow> db_inv X s"
      by (cases acc; cases acc') (auto elim!: sweep_each_cases intro: apply_event_ok [OF _ _ assms(2)])
  qed
  then show ?thesis by simp
qed

lemma expired_claims_ok:
  "db_inv X s \<Longrightarrow> expired_claims s held now limit = Inr (ws, t) \<Longrightarrow> db_inv X t"
  by (auto simp: expired_claims_def result_simps dest: sweep_fold_ok [rotated 2])

lemma expired_in_flight_ok:
  "db_inv X s \<Longrightarrow> expired_in_flight s held now limit = Inr (ws, t) \<Longrightarrow> db_inv X t"
  by (auto simp: expired_in_flight_def result_simps dest: sweep_fold_ok [rotated 2])

lemma stalled_checks_ok:
  assumes ok: "db_inv X s" and run: "stalled_checks s held now grace limit = Inr (cs, t)"
  shows "db_inv X t"
proof -
  from run obtain picked where t: "t = write_deliveries s (\<lambda>r. d_id r \<in> d_id ` set picked)
      (\<lambda>r. r\<lparr>d_check_due_at := Some now\<rparr>)"
    and limited: "sql_limit limit (sort_key d_check_due_at (filter
         (\<lambda>r. ((d_state r = S_Processing \<and> d_operation r \<noteq> Op_Direct) \<or> d_state r = S_OutcomeUnknown)
            \<and> at_most (d_check_due_at r) (now - grace) \<and> \<not> held (d_id r))
         (deliveries s))) = Inr picked"
    by (auto simp: stalled_checks_def Let_def bindE_Inr_iff)
  from sql_limit_subset [OF limited] have picked: "set picked \<subseteq> {r \<in> set (deliveries s). in_check (d_state r)}"
    by (auto simp: in_check_def)
  show ?thesis
    unfolding t using ok
  proof (rule quiet_write_ok)
    fix r assume r: "r \<in> set (deliveries s)" "d_id r \<in> d_id ` set picked"
    then obtain q where "q \<in> set picked" "d_id r = d_id q" by auto
    then have "in_check (d_state r)" using picked db_inv_same_row [OF ok r(1), of q] by auto
    then show "delivery_ok (r\<lparr>d_check_due_at := Some now\<rparr>)"
      using db_inv_row [OF ok r(1)] by (auto simp: delivery_ok_def row_fits_def in_check_def)
  qed (simp_all add: keeps_keys_def)
qed

lemma orphaned_direct_ok:
  assumes ok: "db_inv X s" and run: "orphaned_direct s held now grace limit = Inr (ds, t)"
  shows "db_inv X t"
proof -
  from run obtain p jobs where
    touch: "touch_all (write_deliveries s p (\<lambda>r. r\<lparr>d_updated_at := now\<rparr>)) jobs now = Inr t"
    by (auto simp: orphaned_direct_def sql_limit_def Let_def result_simps split: if_splits)
  have "db_inv X (write_deliveries s p (\<lambda>r. r\<lparr>d_updated_at := now\<rparr>))"
    using ok
  proof (rule quiet_write_ok)
    fix r assume "r \<in> set (deliveries s)"
    then show "delivery_ok (r\<lparr>d_updated_at := now\<rparr>)"
      using db_inv_row [OF ok] by (auto simp: delivery_ok_def row_fits_def)
  qed (simp_all add: keeps_keys_def)
  then show ?thesis using touch by (rule touch_all_ok)
qed

lemma notify_ok:
  assumes "db_inv X s"
  shows "db_inv X (write_deliveries s p (\<lambda>r. r\<lparr>d_parked_notified_at := n\<rparr>))"
  using assms
proof (rule quiet_write_ok)
  fix r assume "r \<in> set (deliveries s)"
  then show "delivery_ok (r\<lparr>d_parked_notified_at := n\<rparr>)"
    using db_inv_row [OF assms] by (auto simp: delivery_ok_def row_fits_def)
qed (simp_all add: keeps_keys_def)

lemma unpark_each_cases:
  assumes "unpark_each i (res, s) row = Inr (res', t)"
  obtains (stale) "stale_park i row" and "ur_resumed res' = ur_resumed res"
      and "ur_needs_owner res' = ur_needs_owner res
           @ (if d_parked_notified_at row = None then [(d_owner_id row, d_id row)] else [])"
      and "t = (if d_parked_notified_at row = None
                then write_deliveries s (\<lambda>r. d_id r = d_id row)
                       (\<lambda>r. r\<lparr>d_parked_notified_at := Some (ui_now i)\<rparr>)
                else s)"
    | (resume) applied where "\<not> stale_park i row"
      and "apply_event s (fence_of (delivery_of row)) E_Unpark td_default (ui_now i) = Inr (applied, t)"
      and "ur_needs_owner res' = ur_needs_owner res"
      and "ur_resumed res' = ur_resumed res @
        (case from_applied (fence_of (delivery_of row)) applied (ui_now i) of None \<Rightarrow> [] | Some w \<Rightarrow> [w])"
  using assms
  by (auto simp: unpark_each_def Let_def fence_of_def result_simps split: if_splits)

lemma unpark_ok:
  assumes "db_inv X s" and "unpark s held i = Inr (res, t)"
  shows "db_inv X t"
proof -
  from assms(2) obtain rows where
    fold: "foldE (unpark_each i) (\<lparr>ur_resumed = [], ur_needs_owner = []\<rparr>, s) rows = Inr (res, t)"
    by (auto simp: unpark_def bindE_Inr_iff)
  have "(\<lambda>(res :: UnparkResult, s). db_inv X s) (res, t)"
    using fold
  proof (rule foldE_invariant)
    show "case (\<lparr>ur_resumed = [], ur_needs_owner = []\<rparr> :: UnparkResult, s) of (res, s) \<Rightarrow> db_inv X s"
      using assms(1) by simp
    fix acc row acc'
    assume "case acc of (res, s) \<Rightarrow> db_inv X s" and "unpark_each i acc row = Inr acc'"
    then show "case acc' of (res, s) \<Rightarrow> db_inv X s"
      by (cases acc; cases acc') (auto elim!: unpark_each_cases intro: notify_ok apply_event_ok)
  qed
  then show ?thesis by simp
qed

section \<open>Properties\<close>

text \<open>
  C36: the sweep for lost dispatches retires the old ones. Every delivery it lists still waits,
  carries in the table exactly the generation of the new dispatch, one more than before, and a
  job that still carries any older generation claims nothing and changes nothing.
\<close>

theorem overdue_retires_old_dispatches:
  assumes "db_ok s" and "overdue_pending s held now grace limit = Inr (ds, t)" and "d \<in> set ds"
  shows "\<exists>old new. row_by d_id (dp_delivery d) (deliveries s) = Some old
    \<and> row_by d_id (dp_delivery d) (deliveries t) = Some new
    \<and> d_state new = S_Pending \<and> d_dispatch_gen new = dp_dispatch_gen d
    \<and> dp_dispatch_gen d = d_dispatch_gen old + 1 \<and> dp_run_at d = now
    \<and> (\<forall>gen < dp_dispatch_gen d. \<forall>at lease. claim t (dp_delivery d) gen at lease = Inr (None, t))"
  using assms(2)
proof (rule overdue_pending_cases)
  fix picked :: "delivery_row list" and u
  let ?p = "\<lambda>r. d_id r \<in> d_id ` set picked"
  assume picked: "set picked \<subseteq> {r \<in> set (deliveries s). d_state r = S_Pending
       \<and> at_most (d_next_attempt_at r) (now - grace) \<and> d_updated_at r \<le> now - grace
       \<and> job_live s r \<and> \<not> held (d_id r)}"
    and u: "u = write_deliveries s ?p (overdue_row now)" and t: "deliveries t = deliveries u"
    and ds: "ds = map (dispatch_at now) (sql_returning ?p (overdue_row now) (deliveries s))"
    and ok: "\<And>X. db_inv X u \<Longrightarrow> db_inv X t"
  from assms(3) obtain old where old: "old \<in> set (deliveries s)" "?p old"
    and d: "d = dispatch_at now (overdue_row now old)"
    by (auto simp: ds sql_returning_def)
  from old(2) obtain q where "q \<in> set picked" "d_id old = d_id q" by auto
  then have pending: "d_state old = S_Pending"
    using picked db_inv_same_row [OF assms(1) old(1), of q] by auto
  let ?new = "overdue_row now old"
  have row: "row_by d_id (d_id old) (deliveries t) = Some ?new"
    using db_inv_unique [OF assms(1) old(1)] old(2)
    by (simp add: t u row_by_write keeps_keys_def overdue_row_def)
  have "db_ok t" by (rule overdue_pending_ok [OF assms(1,2)])
  then have only: "r = ?new" if "r \<in> set (deliveries t)" "d_id r = d_id old" for r
    using db_inv_unique [of "{}" t r] that row by simp
  have "claim t (d_id old) gen at lease = Inr (None, t)" if "gen < d_dispatch_gen ?new" for gen at lease
  proof -
    have "find (claimable t (d_id old) gen at) (deliveries t) = None"
      using that only by (auto simp: find_None_iff claimable_def)
    then show ?thesis by (simp add: claim_def)
  qed
  with db_inv_unique [OF assms(1) old(1)] row pending show ?thesis
    by (auto simp: d dispatch_at_def overdue_row_def)
qed

theorem overdue_retires_old_dispatches_witness:
  "\<exists>t. overdue_pending (sample_db [sample_row 10 S_Pending 3] (sample_job J_Publishing))
         (\<lambda>_. False) 1000 10 5 = Inr ([\<lparr>dp_delivery = 10, dp_dispatch_gen = 4, dp_run_at = 1000\<rparr>], t)
     \<and> claim t 10 3 1000 60 = Inr (None, t)"
proof -
  let ?s = "sample_db [sample_row 10 S_Pending 3] (sample_job J_Publishing)"
  let ?d = "\<lparr>dp_delivery = 10, dp_dispatch_gen = 4, dp_run_at = 1000\<rparr>"
  have "case overdue_pending ?s (\<lambda>_. False) 1000 10 5 of Inl e \<Rightarrow> False | Inr (ds, t) \<Rightarrow> ds = [?d]"
    by code_simp
  then obtain t where run: "overdue_pending ?s (\<lambda>_. False) 1000 10 5 = Inr ([?d], t)"
    by (auto split: sum.splits prod.splits)
  have ok: "db_ok ?s" by code_simp
  show ?thesis using overdue_retires_old_dispatches [OF ok run, of ?d] run by auto
qed

text \<open>What one step of the in-flight sweep does to the delivery it looked up.\<close>

lemma in_flight_expiry:
  assumes "db_inv X s" and "apply_event s \<lparr>f_id = x, f_dispatch_gen = g, f_expected = S_InFlight\<rparr>
     E_LeaseExpired (td_default\<lparr>td_count_attempt := True\<rparr>) now = Inr (Done st dispatch change, t)"
  obtains old new where "row_by d_id x (deliveries s) = Some old" and "d_state old = S_InFlight"
    and "row_by d_id x (deliveries t) = Some new" and "st = S_OutcomeUnknown" and "dispatch = None"
    and "d_state new = S_OutcomeUnknown" and "d_dispatch_gen new = g"
    and "d_attempt_count new = d_attempt_count old + 1"
  using assms
  by (auto elim!: apply_event_row simp: transition_def apply_target_def redispatch_of_def apply_row_def
      td_default_def split: option.splits)

definition all_unknown :: "Swept list \<Rightarrow> db \<Rightarrow> bool" where
  "all_unknown ws s = list_all (\<lambda>w. sw_state w = S_OutcomeUnknown
     \<and> (case row_by d_id (sw_delivery w) (deliveries s) of
          None \<Rightarrow> False
        | Some r \<Rightarrow> d_state r = S_OutcomeUnknown \<and> d_dispatch_gen r = sw_dispatch_gen w)) ws"

lemma in_flight_step:
  assumes ok: "db_ok s" and unknown: "all_unknown ws s"
    and run: "sweep_each S_InFlight E_LeaseExpired (td_default\<lparr>td_count_attempt := True\<rparr>) now (ws, s) row
      = Inr (ws', t)"
  shows "all_unknown ws' t"
  using run
proof (rule sweep_each_cases)
  let ?f = "\<lparr>f_id = fst row, f_dispatch_gen = snd row, f_expected = S_InFlight\<rparr>"
  let ?data = "td_default\<lparr>td_count_attempt := True\<rparr>"
  fix applied
  assume ev: "apply_event s ?f E_LeaseExpired ?data now = Inr (applied, t)"
    and ws': "ws' = ws @ (case from_applied ?f applied now of None \<Rightarrow> [] | Some w \<Rightarrow> [w])"
  show ?thesis
  proof (cases applied)
    case Stale
    with ev have "t = s" by (auto elim!: apply_event_cases simp: apply_write_Stale)
    then show ?thesis using unknown ws' Stale by (simp add: from_applied_def)
  next
    case (Done st dispatch change)
    from ok ev [unfolded Done] obtain old new where
      rows: "row_by d_id (fst row) (deliveries s) = Some old" "d_state old = S_InFlight"
        "row_by d_id (fst row) (deliveries t) = Some new"
      and new: "st = S_OutcomeUnknown" "dispatch = None" "d_state new = S_OutcomeUnknown"
        "d_dispatch_gen new = snd row"
      by (rule in_flight_expiry)
    have "all_unknown ws t"
      unfolding all_unknown_def list_all_iff
    proof
      fix w assume "w \<in> set ws"
      with unknown have w: "sw_state w = S_OutcomeUnknown"
        "case row_by d_id (sw_delivery w) (deliveries s) of None \<Rightarrow> False
         | Some r \<Rightarrow> d_state r = S_OutcomeUnknown \<and> d_dispatch_gen r = sw_dispatch_gen w"
        by (auto simp: all_unknown_def list_all_iff)
      with rows have "sw_delivery w \<noteq> fst row" by (auto split: option.splits)
      then have "row_by d_id (sw_delivery w) (deliveries t) = row_by d_id (sw_delivery w) (deliveries s)"
        using apply_event_other_rows [OF ev, of "sw_delivery w"] by simp
      with w show "sw_state w = S_OutcomeUnknown \<and>
          (case row_by d_id (sw_delivery w) (deliveries t) of None \<Rightarrow> False
           | Some r \<Rightarrow> d_state r = S_OutcomeUnknown \<and> d_dispatch_gen r = sw_dispatch_gen w)" by simp
    qed
    with rows(3) new show ?thesis by (simp add: ws' Done from_applied_def all_unknown_def)
  qed
qed

text \<open>
  A delivery whose worker died while the platform call may have been under way is never sent
  again by the sweep. Everything the in-flight sweep reports went to \<^verbatim>\<open>outcome_unknown\<close>, is in
  that state in the table, and is reported with the generation the reconcile job must carry.
\<close>

theorem expired_in_flight_becomes_unknown:
  assumes "db_ok s" and "expired_in_flight s held now limit = Inr (ws, t)"
  shows "list_all (\<lambda>w. sw_state w = S_OutcomeUnknown
    \<and> (case row_by d_id (sw_delivery w) (deliveries t) of
         None \<Rightarrow> False
       | Some r \<Rightarrow> d_state r = S_OutcomeUnknown \<and> d_dispatch_gen r = sw_dispatch_gen w)) ws"
proof -
  from assms(2) obtain rows where
    fold: "foldE (sweep_each S_InFlight E_LeaseExpired (td_default\<lparr>td_count_attempt := True\<rparr>) now)
      ([], s) rows = Inr (ws, t)"
    by (auto simp: expired_in_flight_def bindE_Inr_iff)
  have "(\<lambda>(ws, s). db_ok s \<and> all_unknown ws s) (ws, t)"
    using fold
  proof (rule foldE_invariant)
    show "case ([], s) of (ws, s) \<Rightarrow> db_ok s \<and> all_unknown ws s"
      using assms(1) by (simp add: all_unknown_def)
    fix acc row acc'
    assume "case acc of (ws, s) \<Rightarrow> db_ok s \<and> all_unknown ws s"
      and "sweep_each S_InFlight E_LeaseExpired (td_default\<lparr>td_count_attempt := True\<rparr>) now acc row = Inr acc'"
    then show "case acc' of (ws, s) \<Rightarrow> db_ok s \<and> all_unknown ws s"
      using in_flight_step [of "snd acc" "fst acc" now row "fst acc'" "snd acc'"]
        sweep_fold_ok [of "{}" "snd acc" E_LeaseExpired S_InFlight
          "td_default\<lparr>td_count_attempt := True\<rparr>" now "fst acc" "[row]" "fst acc'" "snd acc'"]
      by (cases acc; cases acc') auto
  qed
  then show ?thesis by (simp add: all_unknown_def)
qed

theorem expired_in_flight_becomes_unknown_witness:
  "\<exists>ws t. expired_in_flight (sample_db [sample_row 10 S_InFlight 3] (sample_job J_Publishing))
         (\<lambda>_. False) 1000 5 = Inr (ws, t)
     \<and> map sw_state ws = [S_OutcomeUnknown] \<and> map d_state (deliveries t) = [S_OutcomeUnknown]"
proof -
  let ?s = "sample_db [sample_row 10 S_InFlight 3] (sample_job J_Publishing)"
  have "case expired_in_flight ?s (\<lambda>_. False) 1000 5 of Inl e \<Rightarrow> False
    | Inr (ws, t) \<Rightarrow> map sw_delivery ws = [10] \<and> map d_id (deliveries t) = [10]"
    by code_simp
  then obtain ws t where run: "expired_in_flight ?s (\<lambda>_. False) 1000 5 = Inr (ws, t)"
    and one: "map sw_delivery ws = [10]" "map d_id (deliveries t) = [10]"
    by (auto split: sum.splits prod.splits)
  have ok: "db_ok ?s" by code_simp
  show ?thesis
    using expired_in_flight_becomes_unknown [OF ok run] run one
    by (auto simp: row_by_Cons map_eq_Cons_conv)
qed

section \<open>Owners are told once\<close>

definition told :: "db \<Rightarrow> uuid \<Rightarrow> bool" where
  "told s did = (case row_by d_id did (deliveries s) of
     None \<Rightarrow> True | Some r \<Rightarrow> d_parked_notified_at r \<noteq> None)"

lemma unpark_each_other_rows:
  assumes "unpark_each i (res, s) row = Inr (res', t)" and "x \<noteq> d_id row"
  shows "row_by d_id x (deliveries t) = row_by d_id x (deliveries s)"
  using assms(1)
proof (cases rule: unpark_each_cases)
  case stale
  then show ?thesis
    using assms(2) row_by_key [of d_id x "deliveries s"]
    by (fastforce simp: row_by_write keeps_keys_def intro: option.map_ident_strong)
next
  case (resume applied)
  then show ?thesis using assms(2) by (auto dest: apply_event_other_rows)
qed

lemma unpark_fold_told:
  assumes "foldE (unpark_each i) (res, s) rows = Inr (res', t)" and "distinct (map d_id rows)"
    and "\<And>u x. (u, x) \<in> set (ur_needs_owner res) \<Longrightarrow> told s x \<and> x \<notin> d_id ` set rows"
  shows "\<forall>(u, x) \<in> set (ur_needs_owner res'). told t x"
  using assms
proof (induction rows arbitrary: res s)
  case Nil
  then show ?case by auto
next
  case (Cons row rows)
  from Cons.prems(1) obtain res1 s1 where step: "unpark_each i (res, s) row = Inr (res1, s1)"
    and rest: "foldE (unpark_each i) (res1, s1) rows = Inr (res', t)"
    by (auto simp: bindE_Inr_iff)
  have others: "told s1 x = told s x" if "x \<noteq> d_id row" for x
    using unpark_each_other_rows [OF step that] by (simp add: told_def)
  have new: "told s1 x \<and> x \<notin> d_id ` set rows" if x: "(u, x) \<in> set (ur_needs_owner res1)" for u x
    using step
  proof (cases rule: unpark_each_cases)
    case stale
    show ?thesis
    proof (cases "(u, x) \<in> set (ur_needs_owner res)")
      case True
      then show ?thesis using Cons.prems(3) [OF True] others [of x] by auto
    next
      case False
      with x stale have "x = d_id row" and none: "d_parked_notified_at row = None"
        by (auto split: if_splits)
      moreover have "told s1 (d_id row)"
        using stale(4) none
        by (cases "row_by d_id (d_id row) (deliveries s)")
          (auto simp: told_def row_by_write keeps_keys_def dest: row_by_key)
      ultimately show ?thesis using Cons.prems(2) by auto
    qed
  next
    case (resume applied)
    with x have "(u, x) \<in> set (ur_needs_owner res)" by simp
    then show ?thesis using Cons.prems(3) others [of x] by auto
  qed
  show ?case
    by (rule Cons.IH [OF rest]) (use Cons.prems(2) new in auto)
qed

lemma unpark_fold_asks_untold:
  assumes "foldE (unpark_each i) (res, s) rows = Inr (res', t)"
    and "(u, x) \<in> set (ur_needs_owner res')" and "(u, x) \<notin> set (ur_needs_owner res)"
  shows "\<exists>row \<in> set rows. d_id row = x \<and> d_parked_notified_at row = None"
  using assms
proof (induction rows arbitrary: res s)
  case (Cons row rows)
  from Cons.prems(1) obtain res1 s1 where step: "unpark_each i (res, s) row = Inr (res1, s1)"
    and rest: "foldE (unpark_each i) (res1, s1) rows = Inr (res', t)"
    by (auto simp: bindE_Inr_iff)
  show ?case
  proof (cases "(u, x) \<in> set (ur_needs_owner res1)")
    case True
    with step Cons.prems(3) show ?thesis
      by (auto elim!: unpark_each_cases split: if_splits)
  next
    case False
    then show ?thesis using Cons.IH [OF rest Cons.prems(2)] by auto
  qed
qed simp

text \<open>
  The owner of a delivery that stayed parked for too long is asked about it once. A delivery
  one unpark sweep lists for its owner is not listed by the next one, whatever the second sweep's
  time, grace, platforms and limit.
\<close>

theorem unpark_asks_owner_once:
  assumes "db_ok s" and "unpark s held i = Inr (res, t)" and "unpark t held' i' = Inr (res', t')"
    and "(u, x) \<in> set (ur_needs_owner res)"
  shows "(u', x) \<notin> set (ur_needs_owner res')"
proof
  assume again: "(u', x) \<in> set (ur_needs_owner res')"
  let ?e = "\<lparr>ur_resumed = [], ur_needs_owner = []\<rparr>"
  have "distinct (map d_id (deliveries s))"
    using assms(1) by (simp add: db_inv_def keys_ok_def)
  with assms(2) obtain rows where first: "foldE (unpark_each i) (?e, s) rows = Inr (res, t)"
    and "distinct (map d_id rows)"
    by (auto simp: unpark_def bindE_Inr_iff dest: sql_limit_distinct)
  with first have "told t x"
    using unpark_fold_told [of i ?e s rows res t] assms(4) by auto
  from assms(3) obtain rows' where "foldE (unpark_each i') (?e, t) rows' = Inr (res', t')"
    and "set rows' \<subseteq> {r \<in> set (deliveries t). \<not> told_and_old i' r \<and> blocker_gone t i' r \<and> \<not> held' (d_id r)}"
    by (auto simp: unpark_def bindE_Inr_iff dest!: sql_limit_subset)
  with again obtain row where row: "row \<in> set (deliveries t)" "d_id row = x" "d_parked_notified_at row = None"
    using unpark_fold_asks_untold [of i' ?e t rows' res' t' u' x] by auto
  have "row_by d_id x (deliveries t) = Some row"
    using db_inv_unique [OF unpark_ok [OF assms(1,2)] row(1)] row(2) by simp
  with \<open>told t x\<close> row(3) show False by (simp add: told_def)
qed

theorem unpark_asks_owner_once_witness:
  "\<exists>res t res' t'. let s = sample_db [sample_row 10 (S_Parked OwnerDisabled) 3] (sample_job J_Publishing);
         i = \<lparr>ui_now = 1000, ui_park_grace = 10, ui_compiled_platforms = [], ui_limit = 5\<rparr>
     in unpark s (\<lambda>_. False) i = Inr (res, t) \<and> ur_needs_owner res = [(1, 10)]
        \<and> unpark t (\<lambda>_. False) (i\<lparr>ui_park_grace := 2000\<rparr>) = Inr (res', t') \<and> (1, 10) \<notin> set (ur_needs_owner res')"
proof -
  let ?s = "sample_db [sample_row 10 (S_Parked OwnerDisabled) 3] (sample_job J_Publishing)"
  let ?i = "\<lparr>ui_now = 1000, ui_park_grace = 10, ui_compiled_platforms = [], ui_limit = 5\<rparr>"
  let ?i' = "?i\<lparr>ui_park_grace := 2000\<rparr>"
  have "case unpark ?s (\<lambda>_. False) ?i of Inl e \<Rightarrow> False
    | Inr (res, t) \<Rightarrow> ur_needs_owner res = [(1, 10)]
        \<and> (case unpark t (\<lambda>_. False) ?i' of Inl e \<Rightarrow> False | Inr (res', t') \<Rightarrow> True)"
    by code_simp
  then obtain res t res' t' where run: "unpark ?s (\<lambda>_. False) ?i = Inr (res, t)"
    and res: "ur_needs_owner res = [(1, 10)]"
    and again: "unpark t (\<lambda>_. False) ?i' = Inr (res', t')"
    by (elim ranE conjE)
  have ok: "db_ok ?s" by code_simp
  have "(1, 10) \<notin> set (ur_needs_owner res')"
    by (rule unpark_asks_owner_once [OF ok run again, of 1]) (simp add: res)
  with run res again show ?thesis unfolding Let_def by blast
qed

end
