(* ===== verification/Direct_Store.thy ===== *)
theory Direct_Store
  imports Sweep_Store
begin

text \<open>
  The rows of a direct campaign: the model of \<^verbatim>\<open>backend/crates/data/src/publishing/direct.rs\<close> and
  of \<^verbatim>\<open>SuppressionRepo::add_hash\<close> of \<^verbatim>\<open>data/src/contacts.rs\<close>, which a bounce calls. New row and
  batch ids come from the database's \<^verbatim>\<open>uuidv7()\<close>: the arguments \<open>fresh\<close> and \<open>batch\<close> are what it
  returned, and the primary key refuses a repeated one.
\<close>

section \<open>Values\<close>

record Audience =
  au_lists :: "uuid list"
  au_tags :: "string list"

record DirectSendRow =
  dr_id :: uuid
  dr_contact_id :: "uuid option"
  dr_email_hash :: "nat list"
  dr_tries :: int

datatype BatchClaim =
    BC_Rows uuid "DirectSendRow list"
  | BC_CapReached
  | BC_Empty
  | BC_Stale

datatype DirectResult =
    DR_Sent "string option"
  | DR_Failed string
  | DR_Suppressed
  | DR_Bounced string

datatype SuppressionReason = SR_Unsubscribed | SR_Bounced | SR_Complained | SR_Manual

fun suppression_str :: "SuppressionReason \<Rightarrow> string" where
  "suppression_str SR_Unsubscribed = ''unsubscribed''"
| "suppression_str SR_Bounced = ''bounced''"
| "suppression_str SR_Complained = ''complained''"
| "suppression_str SR_Manual = ''manual''"

section \<open>Suppressions\<close>

text \<open>The \<^verbatim>\<open>CASE\<close> that ranks a stored reason.\<close>

definition reason_rank :: "string \<Rightarrow> nat" where
  "reason_rank r = (if r = ''manual'' then 0 else if r = ''bounced'' then 1 else 2)"

definition suppress_upsert ::
  "suppression_row list \<Rightarrow> OwnerScope \<Rightarrow> nat list \<Rightarrow> SuppressionReason \<Rightarrow> suppression_row list" where
  "suppress_upsert rows scope hash reason =
     (let mine = (\<lambda>r. sp_owner_id r = owner scope \<and> sp_email_hash r = hash)
      in if list_ex mine rows
         then sql_update
                (\<lambda>r. mine r \<and> reason_rank (suppression_str reason) > reason_rank (sp_reason r))
                (\<lambda>r. r\<lparr>sp_reason := suppression_str reason, sp_updated_by := Some (actor scope)\<rparr>) rows
         else rows @ [\<lparr>sp_owner_id = owner scope, sp_email_hash = hash,
                       sp_reason = suppression_str reason, sp_owner_opt_out = (reason = SR_Manual),
                       sp_updated_by = Some (actor scope)\<rparr>])"

definition add_hash :: "db \<Rightarrow> OwnerScope \<Rightarrow> nat list \<Rightarrow> SuppressionReason \<Rightarrow> DataError + db" where
  "add_hash s scope hash reason =
     bindE (check_scope scope Cap_Edit) (\<lambda>_.
       let s1 = s\<lparr>suppressions := suppress_upsert (suppressions s) scope hash reason\<rparr>;
           movable = (if reason = SR_Bounced then [''subscribed''] else [''subscribed'', ''bounced''])
       in Inr (if reason = SR_Manual then s1
               else s1\<lparr>contacts := sql_update
                    (\<lambda>c. ct_owner_id c = owner scope \<and> ct_email_hash c = hash \<and> ct_status c \<in> set movable)
                    (\<lambda>c. c\<lparr>ct_status := suppression_str reason, ct_updated_by := Some (actor scope)\<rparr>)
                    (contacts s1)\<rparr>))"

section \<open>The audience\<close>

definition suppressed :: "db \<Rightarrow> uuid \<Rightarrow> nat list \<Rightarrow> bool" where
  "suppressed s user hash =
     list_ex (\<lambda>x. sp_owner_id x = user \<and> sp_email_hash x = hash) (suppressions s)"

text \<open>The filter that \<^verbatim>\<open>materialize\<close> and \<^verbatim>\<open>audience_count\<close> share.\<close>

definition in_audience :: "db \<Rightarrow> uuid \<Rightarrow> Audience \<Rightarrow> contact_row \<Rightarrow> bool" where
  "in_audience s user audience c =
     (ct_owner_id c = user
      \<and> list_ex (\<lambda>m. m_contact_id m = ct_id c \<and> m_owner_id m = ct_owner_id c
                     \<and> m_list_id m \<in> set (au_lists audience)) (contact_list_members s)
      \<and> ct_status c = ''subscribed''
      \<and> list_all (\<lambda>tag. tag \<in> set (ct_tags c)) (au_tags audience)
      \<and> \<not> suppressed s (ct_owner_id c) (ct_email_hash c))"

definition audience_count :: "db \<Rightarrow> uuid \<Rightarrow> Audience \<Rightarrow> int" where
  "audience_count s user audience =
     int (length (remdups (map ct_id (filter (in_audience s user audience) (contacts s)))))"

definition new_send_row :: "uuid \<Rightarrow> timestamp \<Rightarrow> uuid \<Rightarrow> contact_row \<Rightarrow> send_row" where
  "new_send_row did clock sid c =
     \<lparr>s_id = sid, s_owner_id = ct_owner_id c, s_delivery_id = did, s_contact_id = Some (ct_id c),
      s_email_hash = ct_email_hash c, s_state = DS_Queued, s_batch = None,
      s_lease_expires_at = None, s_tries = 0, s_sent_at = None, s_provider_message_id = None,
      s_error_code = None, s_updated_at = clock\<rparr>"

text \<open>\<^verbatim>\<open>INSERT ... ON CONFLICT (delivery_id, contact_id) DO NOTHING\<close>, one contact at a time.\<close>

fun insert_sends ::
  "uuid \<Rightarrow> timestamp \<Rightarrow> uuid list \<Rightarrow> contact_row list \<Rightarrow> send_row list \<Rightarrow> DataError + nat \<times> send_row list" where
  "insert_sends did clock ids [] rows = Inr (0, rows)"
| "insert_sends did clock [] (c # cs) rows = Inl (DE_Sql ''uuidv7'')"
| "insert_sends did clock (i # ids) (c # cs) rows =
     (if list_ex (\<lambda>r. s_delivery_id r = did \<and> s_contact_id r = Some (ct_id c)) rows
      then insert_sends did clock (i # ids) cs rows
      else if list_ex (\<lambda>r. s_id r = i) rows then Inl (DE_Sql ''duplicate key'')
      else bindE (insert_sends did clock ids cs (rows @ [new_send_row did clock i c])) (\<lambda>(n, out).
             Inr (Suc n, out)))"

definition materialize ::
  "db \<Rightarrow> timestamp \<Rightarrow> uuid list \<Rightarrow> ClaimedDelivery \<Rightarrow> Audience \<Rightarrow> timestamp \<Rightarrow> DataError + int \<times> db" where
  "materialize s clock fresh delivery audience now =
     (case row_by d_id (c_id delivery) (deliveries s) of
        None \<Rightarrow> Inl DE_NotFound
      | Some r \<Rightarrow>
          (case Option.bind (Option.bind (d_direct_counts r) (json_get ''audience'')) as_i64 of
             Some existing \<Rightarrow> Inr (existing, s)
           | None \<Rightarrow>
             bindE (insert_sends (c_id delivery) clock fresh
                      (sort_key ct_id (filter (in_audience s (c_owner_id delivery) audience) (contacts s)))
                      (direct_sends s)) (\<lambda>(n, rows).
               let total = int n;
                   s1 = s\<lparr>direct_sends := rows,
                          deliveries := sql_update (\<lambda>r. d_id r = c_id delivery)
                            (\<lambda>r. r\<lparr>d_direct_counts := Some (JObject
                               [(''audience'', JNumber total), (''queued'', JNumber total)])\<rparr>)
                            (deliveries s)\<rparr>
               in bindE (touch_job s1 (c_job_id delivery) now) (\<lambda>(change, s2). Inr (total, s2)))))"

section \<open>Batches\<close>

definition free_row :: "uuid \<Rightarrow> timestamp \<Rightarrow> send_row \<Rightarrow> bool" where
  "free_row did now r =
     (s_delivery_id r = did \<and> s_state r = DS_Queued
      \<and> (case s_lease_expires_at r of None \<Rightarrow> True | Some t \<Rightarrow> t < now))"

definition send_view :: "send_row \<Rightarrow> DirectSendRow" where
  "send_view r = \<lparr>dr_id = s_id r, dr_contact_id = s_contact_id r, dr_email_hash = s_email_hash r,
                  dr_tries = s_tries r\<rparr>"

definition is_current :: "db \<Rightarrow> Fence \<Rightarrow> bool" where
  "is_current s f =
     list_ex (\<lambda>r. d_id r = f_id f \<and> d_dispatch_gen r = f_dispatch_gen f \<and> d_state r = S_Processing)
       (deliveries s)"

definition claim_batch ::
  "db \<Rightarrow> (uuid \<Rightarrow> bool) \<Rightarrow> uuid \<Rightarrow> Fence \<Rightarrow> int \<Rightarrow> timestamp \<Rightarrow> int \<Rightarrow> (AccountQuotaKey \<times> int) option
   \<Rightarrow> BatchClaim \<times> db" where
  "claim_batch s held batch f want now lease cap =
     (if \<not> is_current s f then (BC_Stale, s)
      else
        let (granted, s1) = (case cap of
              Some (key, limit) \<Rightarrow> reserve_up_to s key want limit
            | None \<Rightarrow> (want, s))
        in if granted \<le> 0
           then (if has_queued s1 (f_id f) \<and> want > 0 then BC_CapReached else BC_Empty, s1)
           else
             let picked = take (nat granted) (sort_key s_id
                   (filter (\<lambda>r. free_row (f_id f) now r \<and> \<not> held (s_id r)) (direct_sends s1)));
                 chosen = (\<lambda>r. s_id r \<in> set (map s_id picked));
                 lease_row = (\<lambda>r. r\<lparr>s_batch := Some batch, s_lease_expires_at := Some (now + lease),
                                    s_updated_at := now\<rparr>);
                 rows = sort_key dr_id (map send_view (sql_returning chosen lease_row (direct_sends s1)));
                 s2 = s1\<lparr>direct_sends := sql_update chosen lease_row (direct_sends s1)\<rparr>;
                 s3 = (case cap of
                     Some (key, limit) \<Rightarrow>
                       if limit \<noteq> 0 \<and> int (length rows) < granted
                       then quota_release s2 key (granted - int (length rows)) else s2
                   | None \<Rightarrow> s2)
             in (if rows = [] then BC_Empty else BC_Rows batch rows, s3))"

definition renew_batch :: "db \<Rightarrow> uuid \<Rightarrow> uuid \<Rightarrow> timestamp \<Rightarrow> int \<Rightarrow> nat \<times> db" where
  "renew_batch s did batch now lease =
     (let p = (\<lambda>r. s_delivery_id r = did \<and> s_batch r = Some batch \<and> s_state r = DS_Queued
                   \<and> s_lease_expires_at r \<noteq> None)
      in (length (filter p (direct_sends s)),
          s\<lparr>direct_sends := sql_update p
              (\<lambda>r. r\<lparr>s_lease_expires_at := Some (now + lease), s_updated_at := now\<rparr>) (direct_sends s)\<rparr>))"

definition processing_row :: "Fence \<Rightarrow> delivery_row \<Rightarrow> bool" where
  "processing_row f r =
     (d_id r = f_id f \<and> d_dispatch_gen r = f_dispatch_gen f \<and> d_state r = S_Processing)"

definition wait_for_cap ::
  "db \<Rightarrow> Fence \<Rightarrow> timestamp \<Rightarrow> timestamp \<Rightarrow> DataError + bool \<times> db" where
  "wait_for_cap s f resume_at now =
     (case find (processing_row f) (deliveries s) of
        None \<Rightarrow> Inr (False, s)
      | Some old \<Rightarrow>
          let s1 = s\<lparr>deliveries := sql_update (processing_row f)
                (\<lambda>r. r\<lparr>d_next_attempt_at := Some resume_at, d_updated_at := now\<rparr>) (deliveries s)\<rparr>
          in bindE (touch_job s1 (d_job_id old) now) (\<lambda>(change, s2). Inr (True, s2)))"

section \<open>Results\<close>

fun result_columns :: "DirectResult \<Rightarrow> SendState \<times> string option \<times> string option" where
  "result_columns (DR_Sent m) = (DS_Sent, m, None)"
| "result_columns (DR_Failed code) = (DS_Failed, None, Some code)"
| "result_columns DR_Suppressed = (DS_Suppressed, None, None)"
| "result_columns (DR_Bounced code) = (DS_Bounced, None, Some code)"

definition recordable :: "uuid \<Rightarrow> uuid \<Rightarrow> send_row \<Rightarrow> bool" where
  "recordable sid batch r =
     (s_id r = sid \<and> s_batch r = Some batch \<and> s_lease_expires_at r \<noteq> None
      \<and> (s_state r = DS_Queued \<or> (s_state r = DS_Failed \<and> s_error_code r = Some ''cancelled'')))"

definition record_row :: "DirectResult \<Rightarrow> timestamp \<Rightarrow> send_row \<Rightarrow> send_row" where
  "record_row result now r =
     (case result_columns result of (st, message, code) \<Rightarrow>
        r\<lparr>s_state := st, s_provider_message_id := message, s_error_code := code,
          s_lease_expires_at := None, s_sent_at := (if st = DS_Sent then Some now else None),
          s_updated_at := now\<rparr>)"

definition record_send ::
  "db \<Rightarrow> uuid \<Rightarrow> uuid \<Rightarrow> DirectResult \<Rightarrow> timestamp \<Rightarrow> DataError + bool \<times> db" where
  "record_send s sid batch result now =
     (case find (recordable sid batch) (direct_sends s) of
        None \<Rightarrow> Inr (False, s)
      | Some old \<Rightarrow>
          let s1 = s\<lparr>direct_sends := sql_update (recordable sid batch) (record_row result now)
                       (direct_sends s)\<rparr>
          in bindE (case result of
                DR_Bounced code \<Rightarrow>
                  if length (s_email_hash old) = 32
                  then add_hash s1 (own (s_owner_id old)) (s_email_hash old) SR_Bounced
                  else Inl (DE_Sql ''direct send email_hash is not 32 bytes'')
              | _ \<Rightarrow> Inr s1) (\<lambda>s2.
             if s_state old = DS_Failed then
               bindE (ok_or (DE_Sql ''no rows returned'') (row_by d_id (s_delivery_id old) (deliveries s2)))
                 (\<lambda>d.
               bindE (store_counts s2 (s_delivery_id old)) (\<lambda>s3.
               bindE (touch_job s3 (d_job_id d) now) (\<lambda>(change, s4). Inr (True, s4))))
             else Inr (True, s2)))"

definition requeue :: "db \<Rightarrow> uuid \<Rightarrow> uuid \<Rightarrow> timestamp \<Rightarrow> DataError + bool \<times> db" where
  "requeue s sid batch now =
     (let p = (\<lambda>r. s_id r = sid \<and> s_batch r = Some batch \<and> s_state r = DS_Queued
                   \<and> s_lease_expires_at r \<noteq> None);
          hits = filter p (direct_sends s)
      in if list_ex (\<lambda>r. s_tries r + 1 \<ge> 2 ^ 15) hits then Inl (DE_Sql ''smallint out of range'')
         else Inr (length hits = 1,
           s\<lparr>direct_sends := sql_update p
               (\<lambda>r. r\<lparr>s_batch := None, s_lease_expires_at := None, s_tries := s_tries r + 1,
                      s_updated_at := now\<rparr>) (direct_sends s)\<rparr>))"

definition release_batch :: "db \<Rightarrow> timestamp \<Rightarrow> uuid \<Rightarrow> uuid \<Rightarrow> nat \<times> db" where
  "release_batch s clock did batch =
     (let p = (\<lambda>r. s_delivery_id r = did \<and> s_batch r = Some batch \<and> s_state r = DS_Queued)
      in (length (filter p (direct_sends s)),
          s\<lparr>direct_sends := sql_update p
              (\<lambda>r. r\<lparr>s_batch := None, s_lease_expires_at := None, s_updated_at := clock\<rparr>)
              (direct_sends s)\<rparr>))"

definition finish_if_done ::
  "db \<Rightarrow> Fence \<Rightarrow> timestamp \<Rightarrow> DataError + Applied option \<times> db" where
  "finish_if_done s f now =
     bindE (progress s (f_id f)) (\<lambda>counts.
       if dc_queued counts > 0 then Inr (None, s)
       else bindE (apply_event s f E_Published
                     (td_default\<lparr>td_direct_counts := Some (counts_json counts)\<rparr>) now) (\<lambda>(applied, t).
              Inr (Some applied, t)))"

definition send_owner :: "db \<Rightarrow> uuid \<Rightarrow> uuid option" where
  "send_owner s sid = map_option s_owner_id (row_by s_id sid (direct_sends s))"

definition send_hash :: "db \<Rightarrow> uuid \<Rightarrow> uuid \<Rightarrow> DataError + nat list option" where
  "send_hash s user sid =
     (case find (\<lambda>r. s_owner_id r = user \<and> s_id r = sid) (direct_sends s) of
        None \<Rightarrow> Inr None
      | Some r \<Rightarrow>
          if length (s_email_hash r) = 32 then Inr (Some (s_email_hash r))
          else Inl (DE_Sql ''direct send email_hash is not 32 bytes''))"

section \<open>Recipients\<close>

record DirectRecipientRow =
  rr_id :: uuid
  rr_email :: "string option"
  rr_first_name :: "string option"
  rr_last_name :: "string option"
  rr_fields :: json
  rr_locale :: "string option"
  rr_suppressed :: bool

text \<open>
  A row of the join. \<^verbatim>\<open>c.status IS DISTINCT FROM 'subscribed'\<close> is true without a contact too, and
  the row of a deleted contact is not suppressed: its email is \<^verbatim>\<open>NULL\<close>.
\<close>

definition recipient_row :: "db \<Rightarrow> send_row \<Rightarrow> DirectRecipientRow" where
  "recipient_row s r =
     (case find (\<lambda>c. s_contact_id r = Some (ct_id c) \<and> ct_owner_id c = s_owner_id r) (contacts s) of
        None \<Rightarrow> \<lparr>rr_id = s_id r, rr_email = None, rr_first_name = None, rr_last_name = None,
           rr_fields = JObject [], rr_locale = None, rr_suppressed = False\<rparr>
      | Some c \<Rightarrow> \<lparr>rr_id = s_id r, rr_email = Some (ct_email c), rr_first_name = ct_first_name c,
           rr_last_name = ct_last_name c, rr_fields = ct_fields c, rr_locale = ct_locale c,
           rr_suppressed = (ct_status c \<noteq> ''subscribed'' \<or> suppressed s (s_owner_id r) (s_email_hash r))\<rparr>)"

definition recipients :: "db \<Rightarrow> uuid \<Rightarrow> uuid list \<Rightarrow> DirectRecipientRow list" where
  "recipients s user ids =
     map (recipient_row s) (sort_key s_id (filter (\<lambda>r. s_owner_id r = user \<and> s_id r \<in> set ids) (direct_sends s)))"

section \<open>Campaign writes keep the invariant\<close>

lemma quiet_counts_ok:
  assumes "db_inv X s"
  shows "db_inv X (write_deliveries s p (\<lambda>r. r\<lparr>d_direct_counts := cs\<rparr>))"
  using assms
proof (rule quiet_write_ok)
  fix r assume "r \<in> set (deliveries s)"
  then show "delivery_ok (r\<lparr>d_direct_counts := cs\<rparr>)"
    using db_inv_row [OF assms] by (auto simp: delivery_ok_def row_fits_def)
qed (simp_all add: keeps_keys_def)

lemma add_hash_tables:
  assumes "add_hash s scope hash reason = Inr t"
  shows "deliveries t = deliveries s" "publish_jobs t = publish_jobs s" "direct_sends t = direct_sends s"
  using assms by (auto simp: add_hash_def Let_def result_simps)

lemma materialize_ok:
  assumes ok: "db_inv X s" and run: "materialize s clock fresh d audience now = Inr (n, t)"
  shows "db_inv X t"
proof -
  have "db_inv X (s\<lparr>direct_sends := rows,
      deliveries := sql_update p (\<lambda>r. r\<lparr>d_direct_counts := cs\<rparr>) (deliveries s)\<rparr>)" for p cs rows
    by (rule db_inv_tables [OF quiet_counts_ok [OF ok]]) simp_all
  with run ok show ?thesis
    by (auto simp: materialize_def Let_def result_simps split: option.splits intro: touch_ok)
qed

lemma reserve_up_to_tables:
  fixes s :: db
  assumes "reserve_up_to s k want limit = (n, t)"
  shows "deliveries t = deliveries s" "publish_jobs t = publish_jobs s" "direct_sends t = direct_sends s"
  using assms by (auto simp: reserve_up_to_def Let_def split: if_splits option.splits)

lemma quota_release_tables [simp]:
  fixes s :: db
  shows "deliveries (quota_release s k c) = deliveries s"
    "publish_jobs (quota_release s k c) = publish_jobs s"
    "direct_sends (quota_release s k c) = direct_sends s"
  by (simp_all add: quota_release_def)

lemma claim_batch_tables:
  assumes "claim_batch s held batch f want now lease cap = (r, t)"
  shows "deliveries t = deliveries s \<and> publish_jobs t = publish_jobs s"
proof (cases cap)
  case None
  then show ?thesis using assms by (auto simp: claim_batch_def Let_def split: if_splits)
next
  case (Some kl)
  obtain key limit n s1 where kl: "kl = (key, limit)" and res: "reserve_up_to s key want limit = (n, s1)"
    by (metis surj_pair)
  then show ?thesis
    using assms Some reserve_up_to_tables [OF res]
    by (auto simp: claim_batch_def Let_def split: if_splits)
qed

lemma claim_batch_ok:
  "db_inv X s \<Longrightarrow> claim_batch s held batch f want now lease cap = (r, t) \<Longrightarrow> db_inv X t"
  using claim_batch_tables by (blast intro: db_inv_tables)

lemma wait_for_cap_ok:
  assumes ok: "db_inv X s" and run: "wait_for_cap s f resume_at now = Inr (b, t)"
  shows "db_inv X t"
proof -
  have "db_inv X (write_deliveries s (processing_row f)
      (\<lambda>r. r\<lparr>d_next_attempt_at := Some resume_at, d_updated_at := now\<rparr>))"
    using ok
  proof (rule quiet_write_ok)
    fix r assume "r \<in> set (deliveries s)"
    then show "delivery_ok (r\<lparr>d_next_attempt_at := Some resume_at, d_updated_at := now\<rparr>)"
      using db_inv_row [OF ok] by (auto simp: delivery_ok_def row_fits_def)
  qed (simp_all add: keeps_keys_def)
  with run ok show ?thesis
    by (auto simp: wait_for_cap_def Let_def result_simps split: option.splits intro: touch_ok)
qed

lemma record_send_cases:
  assumes "record_send s sid batch result now = Inr (b, t)"
  obtains (gone) "find (recordable sid batch) (direct_sends s) = None" and "b = False" and "t = s"
    | (landed) old s2 where "find (recordable sid batch) (direct_sends s) = Some old" and "b = True"
      and "(case result of DR_Bounced code \<Rightarrow> length (s_email_hash old) = 32
              \<and> add_hash (s\<lparr>direct_sends := sql_update (recordable sid batch) (record_row result now)
                       (direct_sends s)\<rparr>) (own (s_owner_id old)) (s_email_hash old) SR_Bounced = Inr s2
            | _ \<Rightarrow> s2 = s\<lparr>direct_sends := sql_update (recordable sid batch) (record_row result now)
                       (direct_sends s)\<rparr>)"
      and "t = s2 \<or> (\<exists>job s3 c. store_counts s2 (s_delivery_id old) = Inr s3
              \<and> touch_job s3 job now = Inr (c, t))"
proof (cases "find (recordable sid batch) (direct_sends s)")
  case None
  then have "b = False" and "t = s" using assms by (simp_all add: record_send_def)
  with None show ?thesis by (rule gone)
next
  case (Some old)
  let ?s1 = "s\<lparr>direct_sends := sql_update (recordable sid batch) (record_row result now) (direct_sends s)\<rparr>"
  define m where "m = (case result of
                DR_Bounced code \<Rightarrow>
                  if length (s_email_hash old) = 32
                  then add_hash ?s1 (own (s_owner_id old)) (s_email_hash old) SR_Bounced
                  else Inl (DE_Sql ''direct send email_hash is not 32 bytes'')
              | _ \<Rightarrow> Inr ?s1)"
  from assms Some obtain s2 where first: "m = Inr s2"
    and rest: "(if s_state old = DS_Failed then
               bindE (ok_or (DE_Sql ''no rows returned'') (row_by d_id (s_delivery_id old) (deliveries s2)))
                 (\<lambda>d.
               bindE (store_counts s2 (s_delivery_id old)) (\<lambda>s3.
               bindE (touch_job s3 (d_job_id d) now) (\<lambda>(change, s4). Inr (True, s4))))
             else Inr (True, s2)) = Inr (b, t)"
    by (simp add: record_send_def Let_def m_def [symmetric] bindE_Inr_iff) blast
  from rest have "b = True" and "t = s2 \<or> (\<exists>job s3 c. store_counts s2 (s_delivery_id old) = Inr s3
              \<and> touch_job s3 job now = Inr (c, t))"
    by (auto simp: bindE_Inr_iff ok_or_Inr_iff split: if_split_asm)
  with first landed [OF Some, of s2] show ?thesis
    unfolding m_def by (cases result) (auto split: if_split_asm)
qed

lemma record_send_ok:
  assumes ok: "db_inv X s" and run: "record_send s sid batch result now = Inr (b, t)"
  shows "db_inv X t"
  using run
proof (cases rule: record_send_cases)
  case gone
  then show ?thesis using ok by simp
next
  case (landed old s2)
  let ?s1 = "s\<lparr>direct_sends := sql_update (recordable sid batch) (record_row result now) (direct_sends s)\<rparr>"
  have "deliveries s2 = deliveries s \<and> publish_jobs s2 = publish_jobs s"
    using landed(3) by (cases result) (auto dest: add_hash_tables)
  then have "db_inv X s2" using ok by (blast intro: db_inv_tables)
  then show ?thesis using landed(4) by (blast intro: store_counts_ok touch_ok)
qed

lemma finish_if_done_cases:
  assumes "finish_if_done s f now = Inr (a, t)"
  obtains (waiting) "a = None" and "t = s" and "has_queued s (f_id f)"
    | (finished) counts applied where "a = Some applied" and "progress s (f_id f) = Inr counts"
      and "\<not> has_queued s (f_id f)"
      and "apply_event s f E_Published (td_default\<lparr>td_direct_counts := Some (counts_json counts)\<rparr>) now
           = Inr (applied, t)"
proof -
  from assms obtain counts where p: "progress s (f_id f) = Inr counts"
    by (auto simp: finish_if_done_def bindE_Inr_iff)
  then have q: "dc_queued counts > 0 \<longleftrightarrow> has_queued s (f_id f)"
    by (auto simp: progress_def count_state_def has_queued_def list_ex_iff bindE_Inr_iff
        filter_empty_conv split: option.splits)
  from assms p q that show ?thesis
    by (auto simp: finish_if_done_def bindE_Inr_iff split: if_splits)
qed

lemma finish_if_done_ok:
  "db_inv X s \<Longrightarrow> finish_if_done s f now = Inr (a, t) \<Longrightarrow> db_inv X t"
  by (auto elim!: finish_if_done_cases intro: apply_event_ok)

section \<open>Properties\<close>

definition sends_keys :: "db \<Rightarrow> bool" where
  "sends_keys s = distinct (map s_id (direct_sends s))"

lemma sends_same:
  "sends_keys s \<Longrightarrow> r \<in> set (direct_sends s) \<Longrightarrow> q \<in> set (direct_sends s) \<Longrightarrow> s_id r = s_id q \<Longrightarrow> r = q"
  by (auto simp: sends_keys_def distinct_map inj_on_def)

lemma store_counts_sends: "store_counts s did = Inr t \<Longrightarrow> direct_sends t = direct_sends s"
  by (auto simp: store_counts_def result_simps)

lemma record_send_rows:
  assumes "record_send s sid batch result now = Inr (True, t)"
  shows "direct_sends t = sql_update (recordable sid batch) (record_row result now) (direct_sends s)"
  using assms
proof (cases rule: record_send_cases)
  case (landed old s2)
  then have "direct_sends s2 = sql_update (recordable sid batch) (record_row result now) (direct_sends s)"
    by (cases result) (auto dest: add_hash_tables)
  with landed(4) show ?thesis by (auto dest!: store_counts_sends touch_job_tables(2))
qed simp

lemma record_row_simps [simp]:
  "s_id (record_row result now r) = s_id r"
  "s_lease_expires_at (record_row result now r) = None"
  by (auto simp: record_row_def split: prod.splits)

text \<open>
  C21: what happened to a recipient is recorded once. After a result was recorded, no later result
  of any batch and no requeue changes the row again: each is refused and leaves the tables as
  they are.
\<close>

theorem recorded_result_is_final:
  assumes "sends_keys s" and "record_send s sid batch result now = Inr (True, t)"
  shows "record_send t sid batch' result' now' = Inr (False, t)
    \<and> requeue t sid batch' now' = Inr (False, t)"
proof -
  have found: "find (recordable sid batch) (direct_sends s) \<noteq> None"
    using assms(2) by (auto elim: record_send_cases)
  then obtain old where old: "old \<in> set (direct_sends s)" "recordable sid batch old"
    by (auto dest: find_SomeD)
  have rows: "direct_sends t = sql_update (recordable sid batch) (record_row result now) (direct_sends s)"
    by (rule record_send_rows [OF assms(2)])
  have free: "s_lease_expires_at r = None" if "r \<in> set (direct_sends t)" "s_id r = sid" for r
  proof (rule ccontr)
    assume leased: "s_lease_expires_at r \<noteq> None"
    from that(1) rows leased have "r \<in> set (direct_sends s)" "\<not> recordable sid batch r"
      by (auto simp: set_sql_update)
    with sends_same [OF assms(1) _ old(1)] old(2) that(2) show False
      by (auto simp: recordable_def)
  qed
  then have "find (recordable sid batch') (direct_sends t) = None"
    by (auto simp: find_None_iff recordable_def)
  then have "record_send t sid batch' result' now' = Inr (False, t)"
    by (simp add: record_send_def)
  moreover from free have none: "filter (\<lambda>r. s_id r = sid \<and> s_batch r = Some batch' \<and> s_state r = DS_Queued
      \<and> s_lease_expires_at r \<noteq> None) (direct_sends t) = []"
    by (auto simp: filter_empty_conv)
  then have "sql_update (\<lambda>r. s_id r = sid \<and> s_batch r = Some batch' \<and> s_state r = DS_Queued
      \<and> s_lease_expires_at r \<noteq> None) f (direct_sends t) = direct_sends t" for f
    by (intro sql_update_none) (auto simp: filter_empty_conv)
  with none have "requeue t sid batch' now' = Inr (False, t)"
    by (simp add: requeue_def Let_def)
  ultimately show ?thesis by simp
qed

definition sample_send :: "uuid \<Rightarrow> SendState \<Rightarrow> uuid option \<Rightarrow> send_row" where
  "sample_send sid st batch =
     \<lparr>s_id = sid, s_owner_id = 1, s_delivery_id = 10, s_contact_id = Some (100 + sid),
      s_email_hash = replicate 32 sid, s_state = st, s_batch = batch,
      s_lease_expires_at = (if batch = None then None else Some 900), s_tries = 0, s_sent_at = None,
      s_provider_message_id = None, s_error_code = None, s_updated_at = 0\<rparr>"

definition sample_campaign :: "send_row list \<Rightarrow> db" where
  "sample_campaign sends =
     (sample_db [(sample_row 10 S_Processing 3)\<lparr>d_operation := Op_Direct\<rparr>] (sample_job J_Publishing))
       \<lparr>direct_sends := sends\<rparr>"

definition sample_contact :: "uuid \<Rightarrow> nat \<Rightarrow> contact_row" where
  "sample_contact cid h =
     \<lparr>ct_id = cid, ct_owner_id = 1, ct_email = ''a@b.c'', ct_email_hash = replicate 32 h,
      ct_first_name = Some ''Ada'', ct_last_name = None, ct_fields = JObject [(''first_name'', JString ''x'')],
      ct_locale = None, ct_tags = [], ct_status = ''subscribed'', ct_updated_by = None\<rparr>"

theorem recorded_result_is_final_witness:
  "\<exists>t. record_send (sample_campaign [sample_send 1 DS_Queued (Some 7)]) 1 7 (DR_Sent None) 500 = Inr (True, t)
     \<and> record_send t 1 7 (DR_Failed ''late'') 600 = Inr (False, t) \<and> requeue t 1 7 600 = Inr (False, t)"
proof -
  let ?s = "sample_campaign [sample_send 1 DS_Queued (Some 7)]"
  have "case record_send ?s 1 7 (DR_Sent None) 500 of Inl e \<Rightarrow> False | Inr (b, t) \<Rightarrow> b" by code_simp
  then obtain t where run: "record_send ?s 1 7 (DR_Sent None) 500 = Inr (True, t)"
    by (rule ranE) auto
  have "sends_keys ?s" by code_simp
  from recorded_result_is_final [OF this run] run show ?thesis by blast
qed

definition leased_count :: "BatchClaim \<Rightarrow> int" where
  "leased_count r = (case r of BC_Rows b rows \<Rightarrow> int (length rows) | _ \<Rightarrow> 0)"

lemma picked_rows_bound:
  assumes "distinct (map s_id sends)"
  shows "length (filter (\<lambda>r. s_id r \<in> set (map s_id picked)) sends) \<le> length picked"
proof -
  let ?ids = "map s_id (filter (\<lambda>r. s_id r \<in> set (map s_id picked)) sends)"
  have "distinct ?ids" using assms by (simp add: distinct_map inj_on_def)
  moreover have "set ?ids \<subseteq> set (map s_id picked)" by auto
  ultimately have "length ?ids \<le> card (set (map s_id picked))"
    by (metis card_mono distinct_card finite_set)
  also have "\<dots> \<le> length (map s_id picked)" by (rule card_length)
  finally show ?thesis by simp
qed

lemma quota_used_cong:
  "platform_quota_usage s = platform_quota_usage t \<Longrightarrow> quota_used s k = quota_used t k"
  by (simp add: quota_used_def)

text \<open>
  C22: a batch claim under a daily cap charges exactly the rows it leases. Whatever it answers, the
  bucket grows by the number of leased rows, never passes the limit, and a claim whose fence is
  stale leases nothing.
\<close>

theorem claim_batch_charges_leased_rows:
  assumes "quota_ok s" and "sends_keys s" and "0 < limit" and "0 \<le> want"
    and "quota_used s key \<le> limit"
    and run: "claim_batch s held batch f want now lease (Some (key, limit)) = (r, t)"
  shows "quota_used t key = quota_used s key + leased_count r \<and> quota_used t key \<le> limit
    \<and> (leased_count r > 0 \<longrightarrow> is_current s f) \<and> leased_count r \<le> want"
proof (cases "is_current s f")
  case False
  then show ?thesis using run assms(4,5) by (auto simp: claim_batch_def leased_count_def)
next
  case cur: True
  obtain n s1 where res: "reserve_up_to s key want limit = (n, s1)" by (metis surj_pair)
  have "0 \<le> n \<and> n \<le> want \<and> quota_used s1 key = quota_used s key + n \<and> quota_used s1 key \<le> limit"
  proof (cases "want = 0")
    case True
    then show ?thesis using res assms(5) by (auto simp: reserve_up_to_def)
  next
    case False
    then show ?thesis using reserve_up_to_charge [OF assms(1,3) _ res] assms(4,5) by auto
  qed
  then have charge: "0 \<le> n" "n \<le> want" "quota_used s1 key = quota_used s key + n" "quota_used s1 key \<le> limit"
    by simp_all
  show ?thesis
  proof (cases "n \<le> 0")
    case True
    then show ?thesis using run res cur charge assms(4)
      by (auto simp: claim_batch_def leased_count_def split: if_splits)
  next
    case False
    define picked where "picked = take (nat n) (sort_key s_id
        (filter (\<lambda>r. free_row (f_id f) now r \<and> \<not> held (s_id r)) (direct_sends s1)))"
    define g where "g = (\<lambda>r :: send_row. r\<lparr>s_batch := Some batch, s_lease_expires_at := Some (now + lease), s_updated_at := now\<rparr>)"
    define rows where "rows = sort_key dr_id (map send_view
        (sql_returning (\<lambda>r. s_id r \<in> set (map s_id picked)) g (direct_sends s1)))"
    define s2 where "s2 = s1\<lparr>direct_sends := sql_update (\<lambda>r. s_id r \<in> set (map s_id picked)) g (direct_sends s1)\<rparr>"
    have "claim_batch s held batch f want now lease (Some (key, limit))
        = (if rows = [] then BC_Empty else BC_Rows batch rows,
           if int (length rows) < n then quota_release s2 key (n - int (length rows)) else s2)"
      unfolding claim_batch_def rows_def s2_def g_def picked_def
      using cur False assms(3) by (simp only: res option.case prod.case Let_def not_True_eq_False if_False
          if_True simp_thms) simp
    with run have r: "r = (if rows = [] then BC_Empty else BC_Rows batch rows)"
      and t: "t = (if int (length rows) < n then quota_release s2 key (n - int (length rows)) else s2)"
      by auto
    have "length rows \<le> length picked"
      using picked_rows_bound [of "direct_sends s1" picked] assms(2) reserve_up_to_tables(3) [OF res]
      by (simp add: rows_def sql_returning_def sends_keys_def)
    moreover have "length picked \<le> nat n" by (simp add: picked_def)
    ultimately have len: "int (length rows) \<le> n" using charge(1) by linarith
    have "quota_used s2 key = quota_used s1 key" by (simp add: s2_def quota_used_def)
    then have "quota_used t key = quota_used s key + int (length rows)"
      using len charge quota_used_nonneg [OF assms(1), of key] False
      by (auto simp: t acct.released)
    moreover have "leased_count r = int (length rows)" by (simp add: r leased_count_def)
    ultimately show ?thesis using charge len cur by simp
  qed
qed

theorem claim_batch_charges_leased_rows_witness:
  "let key = \<lparr>qk_owner = 1, qk_account = 40, qk_platform = ''email'', qk_bucket = ''daily_cap'', qk_period_start = 5\<rparr>;
       s = (sample_campaign [sample_send 1 DS_Queued None, sample_send 2 DS_Queued None, sample_send 3 DS_Queued None])
             \<lparr>platform_quota_usage := [quota_row_of key 8]\<rparr>;
       (r, t) = claim_batch s (\<lambda>_. False) 77 \<lparr>f_id = 10, f_dispatch_gen = 3, f_expected = S_Processing\<rparr>
                  50 500 60 (Some (key, 10))
   in leased_count r = 2 \<and> quota_used t key = 10"
proof -
  let ?key = "\<lparr>qk_owner = 1, qk_account = 40, qk_platform = ''email'', qk_bucket = ''daily_cap'', qk_period_start = 5\<rparr>"
  let ?s = "(sample_campaign [sample_send 1 DS_Queued None, sample_send 2 DS_Queued None, sample_send 3 DS_Queued None])
             \<lparr>platform_quota_usage := [quota_row_of ?key 8]\<rparr>"
  let ?f = "\<lparr>f_id = 10, f_dispatch_gen = 3, f_expected = S_Processing\<rparr>"
  obtain r t where run: "claim_batch ?s (\<lambda>_. False) 77 ?f 50 500 60 (Some (?key, 10)) = (r, t)"
    by (metis surj_pair)
  have "leased_count (fst (claim_batch ?s (\<lambda>_. False) 77 ?f 50 500 60 (Some (?key, 10)))) = 2"
    by code_simp
  with run have leased: "leased_count r = 2" by simp
  have used: "quota_used ?s ?key = 8" by code_simp
  have "quota_ok ?s" "sends_keys ?s" by code_simp+
  from claim_batch_charges_leased_rows [OF this _ _ _ run] leased used run show ?thesis by simp
qed

lemma suppress_upsert_has:
  "list_ex (\<lambda>x. sp_owner_id x = owner scope \<and> sp_email_hash x = hash) (suppress_upsert rows scope hash reason)"
  by (auto simp: suppress_upsert_def Let_def list_ex_sql_update_same)

lemma add_hash_suppresses:
  "add_hash s scope hash reason = Inr t \<Longrightarrow> suppressed t (owner scope) hash"
  using suppress_upsert_has [of scope hash "suppressions s" reason]
  by (auto simp: add_hash_def Let_def result_simps suppressed_def)

text \<open>
  C23: an address that bounced leaves every audience. Once a bounce is recorded, no contact of that
  owner with that address is selected for any list and tag filter again.
\<close>

theorem bounce_leaves_every_audience:
  assumes "record_send s sid batch (DR_Bounced code) now = Inr (True, t)"
    and "row_by s_id sid (direct_sends s) = Some r" and "sends_keys s"
    and "ct_email_hash c = s_email_hash r"
  shows "\<not> in_audience t (s_owner_id r) audience c"
  using assms(1)
proof (cases rule: record_send_cases)
  case gone
  then show ?thesis by simp
next
  case (landed old s2)
  from find_SomeD [OF landed(1)] have "old \<in> set (direct_sends s)" "s_id old = sid"
    by (auto simp: recordable_def)
  with sends_same [OF assms(3), of old r] row_by_mem [OF assms(2)] row_by_key [OF assms(2)]
  have old: "old = r" by simp
  have sup: "suppressed s2 (s_owner_id r) (s_email_hash r)"
    using landed(3) by (auto simp: old own_def dest: add_hash_suppresses)
  have "suppressions t = suppressions s2"
    using landed(4)
    by (auto simp: store_counts_def touch_job_def refresh_job_status_def Let_def result_simps
        split: option.splits if_splits)
  with sup have "suppressed t (s_owner_id r) (s_email_hash r)" by (simp add: suppressed_def)
  then show ?thesis using assms(4) by (auto simp: in_audience_def)
qed

theorem bounce_leaves_every_audience_witness:
  "let s = (sample_campaign [sample_send 1 DS_Queued (Some 7)])
         \<lparr>contacts := [sample_contact 101 1],
          contact_list_members := [\<lparr>m_list_id = 5, m_contact_id = 101, m_owner_id = 1\<rparr>]\<rparr>;
       all = \<lparr>au_lists = [5], au_tags = []\<rparr>
   in in_audience s 1 all (hd (contacts s))
      \<and> (\<exists>t. record_send s 1 7 (DR_Bounced ''550'') 500 = Inr (True, t)
           \<and> \<not> in_audience t 1 all (hd (contacts t)) \<and> \<not> in_audience t 1 all (hd (contacts s)))"
proof -
  let ?s = "(sample_campaign [sample_send 1 DS_Queued (Some 7)])
         \<lparr>contacts := [sample_contact 101 1],
          contact_list_members := [\<lparr>m_list_id = 5, m_contact_id = 101, m_owner_id = 1\<rparr>]\<rparr>"
  let ?all = "\<lparr>au_lists = [5], au_tags = []\<rparr>"
  have "case record_send ?s 1 7 (DR_Bounced ''550'') 500 of Inl e \<Rightarrow> False
    | Inr (b, t) \<Rightarrow> b \<and> ct_email_hash (hd (contacts t)) = replicate 32 1" by code_simp
  then obtain t where run: "record_send ?s 1 7 (DR_Bounced ''550'') 500 = Inr (True, t)"
    and hash: "ct_email_hash (hd (contacts t)) = replicate 32 1"
    by (rule ranE) auto
  have row: "row_by s_id 1 (direct_sends ?s) = Some (sample_send 1 DS_Queued (Some 7))" by code_simp
  have keys: "sends_keys ?s" by code_simp
  have "in_audience ?s 1 ?all (hd (contacts ?s))" by code_simp
  moreover note bounce_leaves_every_audience [OF run row keys, of "hd (contacts t)" ?all]
    bounce_leaves_every_audience [OF run row keys, of "hd (contacts ?s)" ?all]
  ultimately show ?thesis using run hash by (auto simp: sample_send_def sample_contact_def)
qed

end
