(* ===== verification/Schema_Round.thy ===== *)
theory Schema_Round
  imports Schema
begin

text \<open>
  What the schema code of the core crate guarantees: a schema that parses is well-formed, prints
  and parses back to itself; the checker accepts exactly the values a declarative reading of the
  schema admits; and credentials split by the schema's \<^verbatim>\<open>x-postit-secret\<close> flags keep every secret
  out of the plain part and come together again unchanged.
\<close>

section \<open>Well-formed schemas\<close>

definition u32_opt :: "nat option \<Rightarrow> bool" where
  "u32_opt x = (case x of None \<Rightarrow> True | Some n \<Rightarrow> n < 2 ^ 32)"

definition i64_opt :: "int option \<Rightarrow> bool" where
  "i64_opt x = (case x of None \<Rightarrow> True | Some n \<Rightarrow> i64_ok n)"

definition kind_ok :: "(string \<Rightarrow> string list) \<Rightarrow> FieldKind \<Rightarrow> bool" where
  "kind_ok gr kind =
     (case kind of
        FK_String mn mx d \<Rightarrow> u32_opt mn \<and> u32_opt mx \<and> \<not> crossed mn mx
          \<and> (case d of None \<Rightarrow> True | Some t \<Rightarrow> \<not> outside mn mx (grapheme_len gr t))
      | FK_MultilineText mx d \<Rightarrow> u32_opt mx
          \<and> (case d of None \<Rightarrow> True | Some t \<Rightarrow> \<not> outside None mx (grapheme_len gr t))
      | FK_Enum values d \<Rightarrow> values \<noteq> [] \<and> distinct (map ev_value values)
          \<and> (case d of None \<Rightarrow> True | Some t \<Rightarrow> t \<in> set (map ev_value values))
      | FK_Boolean d \<Rightarrow> True
      | FK_Integer mn mx d \<Rightarrow> i64_opt mn \<and> i64_opt mx \<and> i64_opt d \<and> \<not> crossed mn mx
          \<and> (case d of None \<Rightarrow> True | Some n \<Rightarrow> \<not> outside mn mx n)
      | FK_DateTime \<Rightarrow> True)"

definition is_boolean :: "FieldKind \<Rightarrow> bool" where
  "is_boolean kind = (case kind of FK_Boolean _ \<Rightarrow> True | _ \<Rightarrow> False)"

definition field_ok :: "(string \<Rightarrow> string list) \<Rightarrow> SchemaField list \<Rightarrow> SchemaField \<Rightarrow> bool" where
  "field_ok gr earlier f =
     (kind_ok gr (sf_kind f)
      \<and> (sf_no_default f \<longrightarrow> default_value f = None)
      \<and> (sf_consent_text f \<noteq> None \<longrightarrow> is_boolean (sf_kind f))
      \<and> (case sf_depends_on f of None \<Rightarrow> True | Some d \<Rightarrow> dep_field d \<in> set (map sf_name earlier)))"

fun fields_ok :: "(string \<Rightarrow> string list) \<Rightarrow> SchemaField list \<Rightarrow> SchemaField list \<Rightarrow> bool" where
  "fields_ok gr earlier [] = True"
| "fields_ok gr earlier (f # fs) =
     (field_ok gr earlier f \<and> sf_name f \<notin> set (map sf_name earlier) \<and> fields_ok gr (earlier @ [f]) fs)"

abbreviation schema_ok :: "(string \<Rightarrow> string list) \<Rightarrow> OptionsSchema \<Rightarrow> bool" where
  "schema_ok gr s \<equiv> fields_ok gr [] s"

lemma fields_ok_append:
  "fields_ok gr earlier (xs @ ys) \<longleftrightarrow> fields_ok gr earlier xs \<and> fields_ok gr (earlier @ xs) ys"
  by (induction xs arbitrary: earlier) auto

lemma fields_ok_distinct: "fields_ok gr earlier s \<Longrightarrow> distinct (map sf_name earlier) \<Longrightarrow> distinct (map sf_name (earlier @ s))"
proof (induction s arbitrary: earlier)
  case (Cons f fs)
  then have "distinct (map sf_name ((earlier @ [f]) @ fs))" by (intro Cons.IH) auto
  then show ?case by simp
qed simp

lemma mapE_str [simp]: "mapE (str_item path reason) (map JString xs) = Inr xs"
  by (induction xs) (auto simp: str_item_def)

lemma mapE_Inr_iff: "mapE f xs = Inr ys \<longleftrightarrow> list_all2 (\<lambda>x y. f x = Inr y) xs ys"
  by (induction xs arbitrary: ys) (auto simp: result_simps list_all2_Cons1)

section \<open>What is printed parses\<close>

lemma take_message_simps:
  "map_of m key = None \<Longrightarrow> take_message key path m = Inr (None, obj_remove key m)"
  "map_of m key = Some (message_json msg) \<Longrightarrow> take_message key path m = Inr (Some msg, obj_remove key m)"
  by (simp_all add: take_message_def schema_message_def)

lemma take_message_opt:
  "map_of m key = map_option message_json msg \<Longrightarrow> take_message key path m = Inr (msg, obj_remove key m)"
  by (cases msg) (simp_all add: take_message_simps)

lemma take_bool_flag:
  "map_of m key = (if b then Some (JBool True) else None) \<Longrightarrow> take_bool key path m = Inr (b, obj_remove key m)"
  by (simp add: take_bool_def split: if_splits)

lemma take_u32_opt:
  "map_of m key = map_option json_num n \<Longrightarrow> u32_opt n \<Longrightarrow> take_u32 key path m = Inr (n, obj_remove key m)"
  by (cases n) (simp_all add: take_u32_def u32_opt_def json_u64_def json_num_def)

lemma take_i64_opt:
  "map_of m key = map_option JNumber n \<Longrightarrow> i64_opt n \<Longrightarrow> take_i64 key path m = Inr (n, obj_remove key m)"
  by (cases n) (simp_all add: take_i64_def i64_opt_def as_i64_def)

lemma parse_printed_depends:
  "dep_field d \<in> set (map sf_name earlier) \<Longrightarrow> parse_depends_on (depends_json d) path earlier = Inr d"
  by (auto simp: parse_depends_on_def depends_json_def list_ex_iff obj_remove_def)

lemma enum_printed:
  assumes "kind_ok gr (FK_Enum vs d)"
  shows "enum_kind (JArray (map (\<lambda>v. JString (ev_value v)) vs))
      (Some (JArray (map (\<lambda>v. message_json (ev_label v)) vs))) d path = Inr (FK_Enum vs d)"
proof -
  have "mapE (\<lambda>(value, label). bindE (schema_message label ''x-postit-enum-labels'' path) (\<lambda>msg. Inr \<lparr>ev_value = value, ev_label = msg\<rparr>))
      (zip (map ev_value vs) (map (\<lambda>v. message_json (ev_label v)) vs)) = Inr vs"
    by (induction vs) (simp_all add: schema_message_def)
  moreover have "mapE (str_item path r) (map (\<lambda>v. JString (ev_value v)) vs) = Inr (map ev_value vs)" for r
    using mapE_str [of path r "map ev_value vs"] by (simp add: comp_def)
  ultimately show ?thesis
    using assms by (auto simp: enum_kind_def kind_ok_def split: option.splits)
qed

text \<open>What a printed property holds under each key, its kind and its default apart.\<close>

definition shared_keys :: "SchemaField \<Rightarrow> string \<rightharpoonup> json" where
  "shared_keys f k =
     (if k = ''x-postit-label'' then Some (message_json (sf_label f))
      else if k = ''x-postit-help'' then map_option message_json (sf_help f)
      else if k = ''x-postit-no-default'' then (if sf_no_default f then Some (JBool True) else None)
      else if k = ''x-postit-secret'' then (if sf_secret f then Some (JBool True) else None)
      else if k = ''x-postit-consent-text'' then map_option message_json (sf_consent_text f)
      else if k = ''x-postit-depends-on'' then map_option depends_json (sf_depends_on f)
      else None)"

lemma shared_none:
  "shared_keys f ''minLength'' = None" "shared_keys f ''maxLength'' = None"
  "shared_keys f ''minimum'' = None" "shared_keys f ''maximum'' = None"
  "shared_keys f ''format'' = None" "shared_keys f ''enum'' = None" "shared_keys f ''x-postit-enum-labels'' = None"
  "shared_keys f ''x-postit-multiline'' = None" "shared_keys f ''default'' = None" "shared_keys f ''type'' = None"
  by (simp_all add: shared_keys_def)

lemma shared_some:
  "shared_keys f ''x-postit-label'' = Some (message_json (sf_label f))"
  "shared_keys f ''x-postit-help'' = map_option message_json (sf_help f)"
  "shared_keys f ''x-postit-no-default'' = (if sf_no_default f then Some (JBool True) else None)"
  "shared_keys f ''x-postit-secret'' = (if sf_secret f then Some (JBool True) else None)"
  "shared_keys f ''x-postit-consent-text'' = map_option message_json (sf_consent_text f)"
  "shared_keys f ''x-postit-depends-on'' = map_option depends_json (sf_depends_on f)"
  by (simp_all add: shared_keys_def)

lemma shared_only:
  "shared_keys f k \<noteq> None \<Longrightarrow> k \<in> {''x-postit-label'', ''x-postit-help'', ''x-postit-no-default'',
     ''x-postit-secret'', ''x-postit-consent-text'', ''x-postit-depends-on''}"
  by (rule ccontr) (simp add: shared_keys_def)

definition field_obj :: "SchemaField \<Rightarrow> obj" where
  "field_obj f = (case field_json f of JObject m \<Rightarrow> m | _ \<Rightarrow> [])"

lemma field_json_obj: "field_json f = JObject (field_obj f)"
  by (simp add: field_json_def field_obj_def Let_def)

lemma map_of_field_obj:
  "map_of (field_obj f) = (case default_value f of None \<Rightarrow> \<lambda>m. m | Some d \<Rightarrow> \<lambda>m. m(''default'' \<mapsto> d))
     (case sf_kind f of
        FK_String mn mx _ \<Rightarrow> (shared_keys f)(''type'' \<mapsto> JString ''string'', ''minLength'' := map_option json_num mn,
          ''maxLength'' := map_option json_num mx)
      | FK_MultilineText mx _ \<Rightarrow> (shared_keys f)(''type'' \<mapsto> JString ''string'', ''x-postit-multiline'' \<mapsto> JBool True,
          ''maxLength'' := map_option json_num mx)
      | FK_Enum vs _ \<Rightarrow> (shared_keys f)(''type'' \<mapsto> JString ''string'',
          ''enum'' \<mapsto> JArray (map (\<lambda>v. JString (ev_value v)) vs),
          ''x-postit-enum-labels'' \<mapsto> JArray (map (\<lambda>v. message_json (ev_label v)) vs))
      | FK_Boolean _ \<Rightarrow> (shared_keys f)(''type'' \<mapsto> JString ''boolean'')
      | FK_Integer mn mx _ \<Rightarrow> (shared_keys f)(''type'' \<mapsto> JString ''integer'', ''minimum'' := map_option JNumber mn,
          ''maximum'' := map_option JNumber mx)
      | FK_DateTime \<Rightarrow> (shared_keys f)(''type'' \<mapsto> JString ''string'', ''format'' \<mapsto> JString ''date-time''))"
proof -
  let ?shared = "insert_opt ''x-postit-depends-on'' depends_json (sf_depends_on f)
    (insert_opt ''x-postit-consent-text'' message_json (sf_consent_text f)
      (let m = insert_opt ''x-postit-help'' message_json (sf_help f) (obj_insert ''x-postit-label'' (message_json (sf_label f)) []);
           m = (if sf_no_default f then obj_insert ''x-postit-no-default'' (JBool True) m else m)
       in (if sf_secret f then obj_insert ''x-postit-secret'' (JBool True) m else m)))"
  have shared: "map_of ?shared = shared_keys f"
    by (rule ext) (simp add: shared_keys_def map_of_insert_opt Let_def split: option.split)
  have "field_obj f = insert_opt ''default'' (\<lambda>v. v) (default_value f) (kind_json (sf_kind f) ?shared)"
    by (simp add: field_obj_def field_json_def Let_def)
  then obtain m where m: "map_of m = shared_keys f"
    and "field_obj f = insert_opt ''default'' (\<lambda>v. v) (default_value f) (kind_json (sf_kind f) m)"
    using shared by blast
  then have "map_of (field_obj f) = (case default_value f of None \<Rightarrow> \<lambda>m. m | Some d \<Rightarrow> \<lambda>m. m(''default'' \<mapsto> d))
      (map_of (kind_json (sf_kind f) m))"
    by (simp add: insert_opt_def split: option.split)
  moreover note m
  ultimately show ?thesis
    by (cases "sf_kind f") (simp_all add: kind_json_def map_of_insert_fresh shared_none)
qed

definition kind_type :: "FieldKind \<Rightarrow> string" where
  "kind_type kind = (case kind of FK_Boolean _ \<Rightarrow> ''boolean'' | FK_Integer _ _ _ \<Rightarrow> ''integer'' | _ \<Rightarrow> ''string'')"

lemma field_lookup:
  "map_of (field_obj f) ''x-postit-label'' = Some (message_json (sf_label f))"
  "map_of (field_obj f) ''x-postit-help'' = map_option message_json (sf_help f)"
  "map_of (field_obj f) ''x-postit-no-default'' = (if sf_no_default f then Some (JBool True) else None)"
  "map_of (field_obj f) ''x-postit-secret'' = (if sf_secret f then Some (JBool True) else None)"
  "map_of (field_obj f) ''x-postit-consent-text'' = map_option message_json (sf_consent_text f)"
  "map_of (field_obj f) ''x-postit-depends-on'' = map_option depends_json (sf_depends_on f)"
  "map_of (field_obj f) ''default'' = default_value f"
  "map_of (field_obj f) ''type'' = Some (JString (kind_type (sf_kind f)))"
  unfolding map_of_field_obj
  by (cases "sf_kind f"; cases "default_value f"; simp add: shared_some shared_none kind_type_def)+

text \<open>The keys that are left once the shared ones are taken belong to the kind.\<close>

definition kind_keys :: "FieldKind \<Rightarrow> string \<rightharpoonup> json" where
  "kind_keys kind =
     (case kind of
        FK_String mn mx _ \<Rightarrow> Map.empty(''minLength'' := map_option json_num mn, ''maxLength'' := map_option json_num mx)
      | FK_MultilineText mx _ \<Rightarrow> Map.empty(''x-postit-multiline'' \<mapsto> JBool True, ''maxLength'' := map_option json_num mx)
      | FK_Enum vs _ \<Rightarrow> Map.empty(''enum'' \<mapsto> JArray (map (\<lambda>v. JString (ev_value v)) vs),
          ''x-postit-enum-labels'' \<mapsto> JArray (map (\<lambda>v. message_json (ev_label v)) vs))
      | FK_Boolean _ \<Rightarrow> Map.empty
      | FK_Integer mn mx _ \<Rightarrow> Map.empty(''minimum'' := map_option JNumber mn, ''maximum'' := map_option JNumber mx)
      | FK_DateTime \<Rightarrow> Map.empty(''format'' \<mapsto> JString ''date-time''))"

abbreviation taken_keys :: "string list" where
  "taken_keys \<equiv> [''type'', ''x-postit-label'', ''x-postit-help'', ''x-postit-no-default'', ''x-postit-secret'',
     ''x-postit-depends-on'', ''default'']"

lemma left_keys:
  assumes "k \<notin> set taken_keys"
  shows "map_of (field_obj f) k = ((kind_keys (sf_kind f))(''x-postit-consent-text'' := map_option message_json (sf_consent_text f))) k"
proof -
  have shared: "shared_keys f k = (if k = ''x-postit-consent-text'' then map_option message_json (sf_consent_text f) else None)"
    using assms by (simp add: shared_keys_def)
  have "k \<noteq> ''type''" and "k \<noteq> ''default''" using assms by simp_all
  then have "map_of (field_obj f) k = (case sf_kind f of
        FK_String mn mx _ \<Rightarrow> (shared_keys f)(''minLength'' := map_option json_num mn, ''maxLength'' := map_option json_num mx)
      | FK_MultilineText mx _ \<Rightarrow> (shared_keys f)(''x-postit-multiline'' \<mapsto> JBool True, ''maxLength'' := map_option json_num mx)
      | FK_Enum vs _ \<Rightarrow> (shared_keys f)(''enum'' \<mapsto> JArray (map (\<lambda>v. JString (ev_value v)) vs),
          ''x-postit-enum-labels'' \<mapsto> JArray (map (\<lambda>v. message_json (ev_label v)) vs))
      | FK_Boolean _ \<Rightarrow> shared_keys f
      | FK_Integer mn mx _ \<Rightarrow> (shared_keys f)(''minimum'' := map_option JNumber mn, ''maximum'' := map_option JNumber mx)
      | FK_DateTime \<Rightarrow> (shared_keys f)(''format'' \<mapsto> JString ''date-time'')) k"
    unfolding map_of_field_obj by (cases "sf_kind f"; cases "default_value f") simp_all
  then show ?thesis
    by (cases "sf_kind f") (simp_all add: kind_keys_def shared shared_some)
qed

lemma known_keys: "map_of (field_obj f) k \<noteq> None \<Longrightarrow> k \<in> set PROPERTY_KEYWORDS"
proof (rule ccontr)
  assume k: "k \<notin> set PROPERTY_KEYWORDS" and key: "map_of (field_obj f) k \<noteq> None"
  then have "k \<notin> set taken_keys" by (simp add: PROPERTY_KEYWORDS_def)
  note left_keys [OF this, of f]
  with k have "map_of (field_obj f) k = None"
    by (cases "sf_kind f") (simp_all add: kind_keys_def PROPERTY_KEYWORDS_def)
  with key show False by simp
qed

text \<open>Reading the kind back from what is left.\<close>

lemma string_kind_reads:
  assumes "map_of m ''x-postit-multiline'' = (if b then Some (JBool True) else None)"
    and "map_of m ''minLength'' = map_option json_num mn" and "u32_opt mn"
    and "map_of m ''maxLength'' = map_option json_num mx" and "u32_opt mx"
    and "string_kind_of gr path (map_of m ''format'') (map_of m ''enum'') (map_of m ''x-postit-enum-labels'') b mn mx d = Inr kind"
    and "\<And>k. k \<notin> {''x-postit-multiline'', ''minLength'', ''maxLength'', ''format'', ''enum'', ''x-postit-enum-labels''}
      \<Longrightarrow> map_of m k = None"
  shows "string_kind gr m path d = Inr (kind, [])"
proof -
  let ?m = "obj_remove ''x-postit-enum-labels'' (obj_remove ''enum'' (obj_remove ''format'' m))"
  let ?m1 = "obj_remove ''x-postit-multiline'' ?m"
  let ?m2 = "obj_remove ''minLength'' ?m1"
  have "take_bool ''x-postit-multiline'' path ?m = Inr (b, ?m1)"
    by (rule take_bool_flag) (simp add: assms(1))
  moreover have "take_u32 ''minLength'' path ?m1 = Inr (mn, ?m2)"
    by (rule take_u32_opt) (simp_all add: assms(2,3))
  moreover have "take_u32 ''maxLength'' path ?m2 = Inr (mx, obj_remove ''maxLength'' ?m2)"
    by (rule take_u32_opt) (simp_all add: assms(4,5))
  moreover have "obj_remove ''maxLength'' ?m2 = []"
    using assms(7) by (simp add: obj_empty_iff)
  ultimately show ?thesis
    using assms(6) by (simp add: string_kind_def Let_def)
qed

lemma kind_printed:
  assumes m: "map_of m = (kind_keys (sf_kind f))(''x-postit-consent-text'' := map_option message_json (sf_consent_text f))"
    and ok: "field_ok gr earlier f"
  shows "field_kind gr (kind_type (sf_kind f)) m path (default_value f) = Inr ((sf_kind f, sf_consent_text f), [])"
proof -
  have kind: "kind_ok gr (sf_kind f)" and none: "\<not> is_boolean (sf_kind f) \<Longrightarrow> sf_consent_text f = None"
    using ok by (auto simp: field_ok_def)
  show ?thesis
  proof (cases "sf_kind f")
    case (FK_Boolean d)
    let ?m = "obj_remove ''x-postit-consent-text'' m"
    have "take_message ''x-postit-consent-text'' path m = Inr (sf_consent_text f, ?m)"
      using m by (intro take_message_opt) simp
    moreover have "?m = []" by (simp add: obj_empty_iff m kind_keys_def FK_Boolean)
    ultimately show ?thesis
      by (cases d) (simp_all add: field_kind_def boolean_kind_def kind_type_def default_value_def FK_Boolean
          boolean_default_def json_bool_def)
  next
    case (FK_Integer mn mx d)
    let ?m = "obj_remove ''maximum'' (obj_remove ''minimum'' m)"
    have bounds: "i64_opt mn" "i64_opt mx" "i64_opt d" "\<not> crossed mn mx" "\<And>n. d = Some n \<Longrightarrow> \<not> outside mn mx n"
      using kind by (auto simp: kind_ok_def FK_Integer)
    have "take_i64 ''minimum'' path m = Inr (mn, obj_remove ''minimum'' m)"
      and "take_i64 ''maximum'' path (obj_remove ''minimum'' m) = Inr (mx, ?m)"
      using bounds by (intro take_i64_opt; simp add: m kind_keys_def FK_Integer)+
    moreover have "?m = []" using none by (simp add: obj_empty_iff m kind_keys_def FK_Integer is_boolean_def)
    ultimately show ?thesis
      using bounds none
      by (cases d) (simp_all add: field_kind_def integer_kind_def kind_type_def default_value_def FK_Integer
          integer_default_def as_i64_def i64_opt_def is_boolean_def)
  next
    case (FK_Enum vs d)
    have "string_kind gr m path (map_option JString d) = Inr (FK_Enum vs d, [])"
    proof (rule string_kind_reads [of _ False None None])
      show "string_kind_of gr path (map_of m ''format'') (map_of m ''enum'') (map_of m ''x-postit-enum-labels'') False None None
          (map_option JString d) = Inr (FK_Enum vs d)"
        using enum_printed [OF kind [unfolded FK_Enum], of path]
        by (cases d) (simp_all add: string_kind_of_def string_default_def string_shape_def json_str_def m kind_keys_def FK_Enum crossed_def outside_def)
    qed (use none in \<open>auto simp: m kind_keys_def FK_Enum u32_opt_def is_boolean_def\<close>)
    then show ?thesis using none by (simp add: field_kind_def kind_type_def default_value_def FK_Enum is_boolean_def)
  next
    case (FK_String mn mx d)
    have "string_kind gr m path (map_option JString d) = Inr (FK_String mn mx d, [])"
    proof (rule string_kind_reads [of _ False mn mx])
      show "string_kind_of gr path (map_of m ''format'') (map_of m ''enum'') (map_of m ''x-postit-enum-labels'') False mn mx
          (map_option JString d) = Inr (FK_String mn mx d)"
        using kind none
        by (cases d) (simp_all add: string_kind_of_def string_default_def string_shape_def json_str_def m kind_keys_def FK_String kind_ok_def is_boolean_def)
    qed (use none kind in \<open>auto simp: m kind_keys_def FK_String kind_ok_def is_boolean_def\<close>)
    then show ?thesis using none by (simp add: field_kind_def kind_type_def default_value_def FK_String is_boolean_def)
  next
    case (FK_MultilineText mx d)
    have "string_kind gr m path (map_option JString d) = Inr (FK_MultilineText mx d, [])"
    proof (rule string_kind_reads [of _ True None mx])
      show "string_kind_of gr path (map_of m ''format'') (map_of m ''enum'') (map_of m ''x-postit-enum-labels'') True None mx
          (map_option JString d) = Inr (FK_MultilineText mx d)"
        using kind none
        by (cases d) (simp_all add: string_kind_of_def string_default_def string_shape_def json_str_def m kind_keys_def FK_MultilineText kind_ok_def is_boolean_def crossed_def)
    qed (use none kind in \<open>auto simp: m kind_keys_def FK_MultilineText kind_ok_def is_boolean_def u32_opt_def\<close>)
    then show ?thesis
      using none by (simp add: field_kind_def kind_type_def default_value_def FK_MultilineText is_boolean_def)
  next
    case FK_DateTime
    have "string_kind gr m path None = Inr (FK_DateTime, [])"
    proof (rule string_kind_reads [of _ False None None])
      show "string_kind_of gr path (map_of m ''format'') (map_of m ''enum'') (map_of m ''x-postit-enum-labels'') False None None
          None = Inr FK_DateTime"
        by (simp add: string_kind_of_def string_default_def string_shape_def m kind_keys_def FK_DateTime crossed_def)
    qed (use none in \<open>auto simp: m kind_keys_def FK_DateTime is_boolean_def u32_opt_def\<close>)
    then show ?thesis using none by (simp add: field_kind_def kind_type_def default_value_def FK_DateTime is_boolean_def)
  qed
qed

lemma parse_printed_field:
  assumes ok: "field_ok gr earlier f"
  shows "parse_field gr (sf_name f) (field_json f) (sf_required f) earlier = Inr f"
proof -
  let ?path = "property_path (sf_name f)"
  let ?m = "field_obj f"
  let ?m1 = "obj_remove ''x-postit-label'' (obj_remove ''type'' ?m)"
  let ?m2 = "obj_remove ''x-postit-help'' ?m1"
  let ?m3 = "obj_remove ''x-postit-no-default'' ?m2"
  let ?m4 = "obj_remove ''x-postit-secret'' ?m3"
  let ?m5 = "obj_remove ''default'' (obj_remove ''x-postit-depends-on'' ?m4)"
  have "find (\<lambda>(k, v). k \<notin> set PROPERTY_KEYWORDS) ?m = None"
    using known_keys [of f] keys_of [of ?m] by (force simp: find_None_iff)
  then have keys: "known_keywords ?path ?m = Inr ()" by (simp add: known_keywords_def)
  have ty: "field_type ?path (map_of ?m ''type'') = Inr (kind_type (sf_kind f))"
    by (simp add: field_lookup field_type_def kind_type_def split: FieldKind.split)
  have label: "take_message ''x-postit-label'' ?path (obj_remove ''type'' ?m) = Inr (Some (sf_label f), ?m1)"
    by (rule take_message_opt) (simp add: field_lookup)
  have hlp: "take_message ''x-postit-help'' ?path ?m1 = Inr (sf_help f, ?m2)"
    by (rule take_message_opt) (simp add: field_lookup)
  have no_default: "take_bool ''x-postit-no-default'' ?path ?m2 = Inr (sf_no_default f, ?m3)"
    by (rule take_bool_flag) (simp add: field_lookup)
  have secret: "take_bool ''x-postit-secret'' ?path ?m3 = Inr (sf_secret f, ?m4)"
    by (rule take_bool_flag) (simp add: field_lookup)
  have dflt: "map_of (obj_remove ''x-postit-depends-on'' ?m4) ''default'' = default_value f"
    by (simp add: field_lookup)
  have "map_of ?m4 ''x-postit-depends-on'' = map_option depends_json (sf_depends_on f)"
    by (simp add: field_lookup)
  then have deps: "take_depends_on ?path earlier ?m4 = Inr (sf_depends_on f, obj_remove ''x-postit-depends-on'' ?m4)"
    using ok by (cases "sf_depends_on f") (simp_all add: take_depends_on_def parse_printed_depends field_ok_def)
  have "map_of ?m5 k = ((kind_keys (sf_kind f))(''x-postit-consent-text'' := map_option message_json (sf_consent_text f))) k" for k
  proof (cases "k \<in> set taken_keys")
    case True
    then show ?thesis by (auto simp: kind_keys_def split: FieldKind.split)
  next
    case False
    then show ?thesis using left_keys [OF False, of f] by simp
  qed
  then have "map_of ?m5 = (kind_keys (sf_kind f))(''x-postit-consent-text'' := map_option message_json (sf_consent_text f))"
    by (rule ext)
  note kind = kind_printed [OF this ok, of ?path]
  have "sf_no_default f \<Longrightarrow> default_value f = None" using ok by (simp add: field_ok_def)
  then show ?thesis
    by (simp add: parse_field_def Let_def field_json_obj keys ty label hlp no_default secret deps dflt kind
        no_more_keys_def del: map_of_obj_remove)
qed

lemma build_loop_printed:
  assumes "fields_ok gr earlier s" and "\<And>f. f \<in> set s \<Longrightarrow> (sf_name f \<in> set required) = sf_required f"
  shows "foldE (\<lambda>fields1 (name, value).
      bindE (parse_field gr name value (name \<in> set required) fields1) (\<lambda>field. Inr (fields1 @ [field])))
      earlier (map (\<lambda>f. (sf_name f, field_json f)) s) = Inr (earlier @ s)"
  using assms
proof (induction s arbitrary: earlier)
  case (Cons f fs)
  then have "parse_field gr (sf_name f) (field_json f) (sf_name f \<in> set required) earlier = Inr f"
    using parse_printed_field by simp
  with Cons show ?case by simp
qed simp

lemma visit_ordered_distinct:
  "distinct (map fst entries) \<Longrightarrow> visit_ordered entries = Inr entries"
proof -
  have "distinct (map fst (pairs @ entries)) \<Longrightarrow>
    foldE (\<lambda>pairs (k, v).
       if list_ex (\<lambda>(a, x). a = k) pairs then Inl (Invalid ''$'' (''duplicate property `'' @ k @ ''`''))
       else Inr (pairs @ [(k, v)])) pairs entries = Inr (pairs @ entries)" for pairs
  proof (induction entries arbitrary: pairs)
    case (Cons e es)
    obtain k v where e: "e = (k, v)" by fastforce
    have "\<not> list_ex (\<lambda>(a, x). a = k) pairs" using Cons.prems by (force simp: e list_ex_iff)
    then show ?case using Cons.IH [of "pairs @ [(k, v)]"] Cons.prems by (simp add: e)
  qed simp
  from this [of "[]"] show "distinct (map fst entries) \<Longrightarrow> visit_ordered entries = Inr entries"
    by (simp add: visit_ordered_def)
qed

lemma parse_printed:
  assumes ok: "schema_ok gr s"
  shows "parse_schema gr (schema_entries s) = Inr s"
proof -
  let ?req = "map sf_name (filter sf_required s)"
  let ?props = "map (\<lambda>f. (sf_name f, field_json f)) s"
  have names: "distinct (map sf_name s)" using fields_ok_distinct [OF ok] by simp
  then have "visit_ordered ?props = Inr ?props"
    by (intro visit_ordered_distinct) (simp add: comp_def)
  then obtain root where root: "visit_root (schema_entries s) = Inr root"
    and props: "root_properties root = Some ?props"
    and rest: "map_of (root_rest root) = (if ?req = [] then Map.empty else [''required'' \<mapsto> JArray (map JString ?req)])
      (''type'' \<mapsto> JString ''object'', ''additionalProperties'' \<mapsto> JBool False)"
    by (cases "?req = []") (auto simp: visit_root_def schema_entries_def Let_def fun_eq_iff)
  have req: "required_names (map_of (obj_remove ''type'' (root_rest root)) ''required'') = Inr ?req"
    using rest by (auto simp: required_names_def mapE_str simp del: map_map)
  have left: "obj_remove ''additionalProperties'' (obj_remove ''required'' (obj_remove ''type'' (root_rest root))) = []"
    by (simp add: obj_empty_iff rest)
  have ghost: "find (\<lambda>r. \<not> list_ex (\<lambda>(n, v). n = r) ?props) ?req = None"
    by (auto simp: find_None_iff list_ex_iff)
  have "(sf_name f \<in> set ?req) = sf_required f" if "f \<in> set s" for f
    using that names by (auto simp: distinct_map dest: inj_onD)
  note loop = build_loop_printed [OF ok this]
  show ?thesis
    using root props left ghost req loop
    by (simp add: parse_schema_def build_def Let_def rest)
qed

section \<open>What parses is well-formed\<close>

lemma take_u32_ok: "take_u32 key path m = Inr (n, m') \<Longrightarrow> u32_opt n"
  by (auto simp: take_u32_def u32_opt_def split: option.splits if_splits)

lemma take_i64_ok: "take_i64 key path m = Inr (n, m') \<Longrightarrow> i64_opt n"
  by (auto simp: take_i64_def i64_opt_def as_i64_def split: option.splits if_splits json.splits)

lemma enum_kind_ok:
  assumes "enum_kind v labels d path = Inr kind"
  obtains vs where "kind = FK_Enum vs d" and "kind_ok gr kind"
proof -
  from assms obtain items names ls vs where v: "v = JArray items"
    and names: "mapE (str_item path ''`enum` entries must be strings'') items = Inr names" "names \<noteq> []" "distinct names"
    and ls: "labels = Some (JArray ls)" "length ls = length names" "\<And>t. d = Some t \<Longrightarrow> t \<in> set names"
    and vs: "mapE (\<lambda>(value, label). bindE (schema_message label ''x-postit-enum-labels'' path) (\<lambda>msg. Inr \<lparr>ev_value = value, ev_label = msg\<rparr>))
        (zip names ls) = Inr vs" and kind: "kind = FK_Enum vs d"
    by (auto simp: enum_kind_def result_simps split: json.splits if_splits option.splits)
  have "map ev_value vs = map fst (zip names ls)"
    using vs unfolding mapE_Inr_iff
    by (induction rule: list_all2_induct) (auto simp: result_simps)
  then have "map ev_value vs = names" using ls(2) by simp
  then have "kind_ok gr kind" using names ls(3) by (auto simp: kind_ok_def kind split: option.splits)
  with kind that show ?thesis by blast
qed

lemma default_ok:
  "string_default path d = Inr t \<Longrightarrow> d = None \<longrightarrow> t = None"
  "boolean_default path d = Inr b \<Longrightarrow> d = None \<longrightarrow> b = None"
  "integer_default path d = Inr n \<Longrightarrow> i64_opt n \<and> (d = None \<longrightarrow> n = None)"
  by (auto simp: string_default_def boolean_default_def integer_default_def i64_opt_def as_i64_def
      split: option.splits json.splits if_splits)

lemma string_shape_cases:
  assumes "string_shape path fmt vs labels b mn mx t = Inr kind"
  obtains "kind = FK_DateTime" | v where "enum_kind v labels t path = Inr kind"
    | "kind = FK_MultilineText mx t" and "mn = None" | "kind = FK_String mn mx t"
proof -
  have "kind = FK_DateTime \<or> (\<exists>v. enum_kind v labels t path = Inr kind)
      \<or> kind = FK_MultilineText mx t \<and> mn = None \<or> kind = FK_String mn mx t"
    using assms unfolding string_shape_def
    by (cases fmt; cases vs; simp split: if_split_asm; blast)
  then show ?thesis using that by blast
qed

lemma string_kind_of_ok:
  assumes "string_kind_of gr path fmt vs labels b mn mx d = Inr kind" and "u32_opt mn" and "u32_opt mx"
  shows "kind_ok gr kind \<and> \<not> is_boolean kind \<and> (d = None \<longrightarrow> default_value (f\<lparr>sf_kind := kind\<rparr>) = None)"
proof -
  from assms(1) obtain t where uncrossed: "\<not> crossed mn mx" and t: "string_default path d = Inr t"
    and inside: "\<And>x. t = Some x \<Longrightarrow> \<not> outside mn mx (grapheme_len gr x)"
    and rest: "string_shape path fmt vs labels b mn mx t = Inr kind"
    by (auto simp: string_kind_of_def bindE_Inr_iff split: if_split_asm option.split_asm)
  from rest default_ok(1) [OF t] show ?thesis
  proof (cases rule: string_shape_cases)
    case (2 v)
    from this obtain ws where "kind = FK_Enum ws t" and "kind_ok gr kind" by (rule enum_kind_ok)
    then show ?thesis using default_ok(1) [OF t] by (simp add: is_boolean_def default_value_def)
  qed (use inside uncrossed assms(2,3) in \<open>auto simp: kind_ok_def is_boolean_def default_value_def split: option.split\<close>)
qed

lemma field_kind_ok:
  assumes "field_kind gr ty m path d = Inr ((kind, consent), m')"
  shows "kind_ok gr kind \<and> (consent \<noteq> None \<longrightarrow> is_boolean kind) \<and> (d = None \<longrightarrow> default_value (f\<lparr>sf_kind := kind\<rparr>) = None)"
proof -
  consider "ty = ''string''" | "ty = ''boolean''" | "ty \<noteq> ''string''" "ty \<noteq> ''boolean''" by blast
  then show ?thesis
  proof cases
    case 1
    with assms obtain fmt vs labels b mn mx m1 m2 m3 where consent: "consent = None"
      and read: "take_u32 ''minLength'' path m1 = Inr (mn, m2)" "take_u32 ''maxLength'' path m2 = Inr (mx, m3)"
      and kind: "string_kind_of gr path fmt vs labels b mn mx d = Inr kind"
      by (auto simp: field_kind_def string_kind_def Let_def result_simps)
    from string_kind_of_ok [OF kind read [THEN take_u32_ok]] consent show ?thesis by blast
  next
    case 2
    with assms obtain b where "boolean_default path d = Inr b" and "kind = FK_Boolean b"
      by (auto simp: field_kind_def boolean_kind_def result_simps)
    then show ?thesis by (auto simp: kind_ok_def is_boolean_def default_value_def dest: default_ok(2))
  next
    case 3
    with assms have consent: "consent = None" and run: "integer_kind m path d = Inr (kind, m')"
      by (auto simp: field_kind_def result_simps)
    from run obtain mn mx n m1 m2 where read: "take_i64 ''minimum'' path m = Inr (mn, m1)"
        "take_i64 ''maximum'' path m1 = Inr (mx, m2)"
      and uncrossed: "\<not> crossed mn mx" and n: "integer_default path d = Inr n"
      and inside: "\<And>x. n = Some x \<Longrightarrow> \<not> outside mn mx x" and kind: "kind = FK_Integer mn mx n"
      by (auto simp: integer_kind_def result_simps split: if_split_asm option.split_asm)
    show ?thesis
      using consent uncrossed inside default_ok(3) [OF n] read [THEN take_i64_ok]
      by (auto simp: kind kind_ok_def default_value_def split: option.split)
  qed
qed

lemma parse_depends_on_ok:
  "parse_depends_on v path earlier = Inr d \<Longrightarrow> dep_field d \<in> set (map sf_name earlier)"
  by (auto simp: parse_depends_on_def list_ex_iff split: json.splits option.splits list.splits if_splits)

lemma parsed_field_ok:
  assumes "parse_field gr name value required earlier = Inr f"
  shows "field_ok gr earlier f \<and> sf_name f = name"
proof -
  let ?path = "property_path name"
  from assms obtain m where run: "parse_field gr name (JObject m) required earlier = Inr f"
    by (cases "value") (auto simp: parse_field_def Let_def)
  from run obtain ty label hlp nd secret m1 m2 m3 dep kind consent where
    dep: "take_depends_on ?path earlier m1 = Inr (dep, m2)" and nd: "nd \<longrightarrow> map_of m2 ''default'' = None"
    and kind: "field_kind gr ty (obj_remove ''default'' m2) ?path (map_of m2 ''default'') = Inr ((kind, consent), m3)"
    and f: "f = \<lparr>sf_name = name, sf_label = label, sf_help = hlp, sf_required = required, sf_kind = kind,
        sf_no_default = nd, sf_secret = secret, sf_consent_text = consent, sf_depends_on = dep\<rparr>"
    by (auto simp: parse_field_def Let_def bindE_Inr_iff split: if_split_asm)
  have "f\<lparr>sf_kind := kind\<rparr> = f" by (simp add: f)
  then have "kind_ok gr kind \<and> (consent \<noteq> None \<longrightarrow> is_boolean kind) \<and> (map_of m2 ''default'' = None \<longrightarrow> default_value f = None)"
    using field_kind_ok [OF kind, of f] by simp
  moreover have "case dep of None \<Rightarrow> True | Some d \<Rightarrow> dep_field d \<in> set (map sf_name earlier)"
    using dep parse_depends_on_ok by (auto simp: take_depends_on_def bindE_Inr_iff split: option.splits)
  ultimately show ?thesis using nd by (auto simp: field_ok_def f)
qed

lemma visit_ordered_Inr: "visit_ordered entries = Inr props \<Longrightarrow> distinct (map fst props)"
proof -
  assume "visit_ordered entries = Inr props"
  then have "distinct (map fst props)"
    unfolding visit_ordered_def
  proof (rule foldE_invariant)
    fix ps :: "(string \<times> json) list" and e ps'
    assume "distinct (map fst ps)"
      and "(case e of (k, v) \<Rightarrow> if list_ex (\<lambda>(a, x). a = k) ps
              then Inl (Invalid ''$'' (''duplicate property `'' @ k @ ''`'')) else Inr (ps @ [(k, v)])) = Inr ps'"
    then show "distinct (map fst ps')"
      by (cases e) (fastforce simp: list_ex_iff split: if_splits)
  qed simp
  then show ?thesis .
qed

lemma visit_root_Inr:
  assumes "visit_root entries = Inr root" and "root_properties root = Some props"
  shows "distinct (map fst props)"
proof -
  have "\<forall>ps. root_properties root = Some ps \<longrightarrow> distinct (map fst ps)"
    using assms(1) unfolding visit_root_def
  proof (rule foldE_invariant)
    fix r :: Root and e r'
    assume "\<forall>ps. root_properties r = Some ps \<longrightarrow> distinct (map fst ps)"
      and "(case e of (k, v) \<Rightarrow>
         if (k = ''properties'' \<and> root_properties r \<noteq> None) \<or> map_of (root_rest r) k \<noteq> None
         then Inl (Invalid ''$'' (''duplicate key `'' @ k @ ''`''))
         else if k = ''properties''
         then (case v of
                 JObject props \<Rightarrow>
                   bindE (visit_ordered props) (\<lambda>props. Inr (r\<lparr>root_properties := Some props\<rparr>))
               | _ \<Rightarrow> Inl (Invalid ''$'' ''expected an object''))
         else Inr (r\<lparr>root_rest := obj_insert k v (root_rest r)\<rparr>)) = Inr r'"
    then show "\<forall>ps. root_properties r' = Some ps \<longrightarrow> distinct (map fst ps)"
      by (cases e; cases "snd e")
        (auto simp: bindE_Inr_iff dest: visit_ordered_Inr split: if_split_asm)
  qed simp
  then show ?thesis using assms(2) by blast
qed

lemma build_loop_ok:
  assumes "foldE (\<lambda>fields1 (name, value).
      bindE (parse_field gr name value (name \<in> set required) fields1) (\<lambda>field. Inr (fields1 @ [field])))
      earlier props = Inr s"
    and "distinct (map sf_name earlier @ map fst props)" and "fields_ok gr [] earlier"
  shows "fields_ok gr [] s"
  using assms
proof (induction props arbitrary: earlier)
  case (Cons e es)
  obtain name v where e: "e = (name, v)" by fastforce
  from Cons.prems(1) obtain f where f: "parse_field gr name v (name \<in> set required) earlier = Inr f"
    and rest: "foldE (\<lambda>fields1 (name, value).
      bindE (parse_field gr name value (name \<in> set required) fields1) (\<lambda>field. Inr (fields1 @ [field])))
      (earlier @ [f]) es = Inr s"
    by (auto simp: e bindE_Inr_iff)
  from parsed_field_ok [OF f] Cons.prems(2,3) show ?case
    by (intro Cons.IH [OF rest]) (auto simp: e fields_ok_append)
qed simp

lemma parsed_ok:
  assumes "parse_schema gr entries = Inr s"
  shows "schema_ok gr s"
proof -
  from assms obtain root where root: "visit_root entries = Inr root" and run: "build gr root = Inr s"
    by (auto simp: parse_schema_def bindE_Inr_iff)
  from run obtain props required where props: "root_properties root = Some props"
    and loop: "foldE (\<lambda>fields1 (name, value).
      bindE (parse_field gr name value (name \<in> set required) fields1) (\<lambda>field. Inr (fields1 @ [field])))
      [] props = Inr s"
    by (auto simp: build_def Let_def result_simps split: option.split_asm if_split_asm list.split_asm)
  have "distinct (map fst props)" using visit_root_Inr [OF root props] .
  then show ?thesis using build_loop_ok [OF loop] by simp
qed

section \<open>A reference reading of the schema\<close>

text \<open>The values of a field's type and range, case by case.\<close>

definition within :: "'n::linorder option \<Rightarrow> 'n option \<Rightarrow> 'n \<Rightarrow> bool" where
  "within mn mx n \<longleftrightarrow> (\<forall>a. mn = Some a \<longrightarrow> a \<le> n) \<and> (\<forall>b. mx = Some b \<longrightarrow> n \<le> b)"

inductive fits :: "(string \<Rightarrow> string list) \<Rightarrow> (string \<Rightarrow> bool) \<Rightarrow> SchemaField \<Rightarrow> json \<Rightarrow> bool" for gr rfc f where
  fit_string: "sf_kind f = FK_String mn mx d \<Longrightarrow> within mn mx (length (gr t)) \<Longrightarrow> fits gr rfc f (JString t)"
| fit_multiline: "sf_kind f = FK_MultilineText mx d \<Longrightarrow> within None mx (length (gr t)) \<Longrightarrow> fits gr rfc f (JString t)"
| fit_enum: "sf_kind f = FK_Enum vs d \<Longrightarrow> t \<in> ev_value ` set vs \<Longrightarrow> fits gr rfc f (JString t)"
| fit_boolean: "sf_kind f = FK_Boolean d \<Longrightarrow> sf_consent_text f \<noteq> None \<longrightarrow> b \<Longrightarrow> fits gr rfc f (JBool b)"
| fit_integer: "sf_kind f = FK_Integer mn mx d \<Longrightarrow> i64_ok n \<Longrightarrow> within mn mx n \<Longrightarrow> fits gr rfc f (JNumber n)"
| fit_time: "sf_kind f = FK_DateTime \<Longrightarrow> rfc t \<Longrightarrow> fits gr rfc f (JString t)"

inductive_simps fits_simps [simp]:
  "fits gr rfc f JNull" "fits gr rfc f (JBool b)" "fits gr rfc f (JNumber n)" "fits gr rfc f (JString t)"
  "fits gr rfc f (JArray vs)" "fits gr rfc f (JObject m)"

text \<open>
  When a field is in force: it depends on nothing, or the field it depends on is given the value it
  waits for, or is not given and has that value as its default.
\<close>

inductive defaults_to :: "SchemaField \<Rightarrow> json \<Rightarrow> bool" where
  "sf_kind f = FK_String mn mx (Some t) \<Longrightarrow> defaults_to f (JString t)"
| "sf_kind f = FK_MultilineText mx (Some t) \<Longrightarrow> defaults_to f (JString t)"
| "sf_kind f = FK_Enum vs (Some t) \<Longrightarrow> defaults_to f (JString t)"
| "sf_kind f = FK_Boolean (Some b) \<Longrightarrow> defaults_to f (JBool b)"
| "sf_kind f = FK_Integer mn mx (Some n) \<Longrightarrow> defaults_to f (JNumber n)"

inductive_simps defaults_to_simps: "defaults_to f v"

definition in_force :: "OptionsSchema \<Rightarrow> obj \<Rightarrow> SchemaField \<Rightarrow> bool" where
  "in_force s m f \<longleftrightarrow> (\<forall>dep. sf_depends_on f = Some dep \<longrightarrow>
     map_of m (dep_field dep) = Some (dep_equals dep)
     \<or> map_of m (dep_field dep) = None
       \<and> (\<exists>g. find (\<lambda>g. sf_name g = dep_field dep) s = Some g \<and> defaults_to g (dep_equals dep)))"

lemma default_value_iff: "default_value f = Some v \<longleftrightarrow> defaults_to f v"
  by (cases "sf_kind f") (auto simp: default_value_def defaults_to_simps)

lemma applies_iff: "applies s f m \<longleftrightarrow> in_force s m f"
  by (cases "sf_depends_on f")
    (auto simp: applies_def in_force_def field_named_def default_value_iff [symmetric] bind_eq_Some_conv
      split: option.split)

definition conforms :: "(string \<Rightarrow> string list) \<Rightarrow> (string \<Rightarrow> bool) \<Rightarrow> OptionsSchema \<Rightarrow> obj \<Rightarrow> bool" where
  "conforms gr rfc s m \<longleftrightarrow>
     dom (map_of m) \<subseteq> sf_name ` set s
     \<and> (\<forall>f \<in> set s. in_force s m f \<longrightarrow>
          (case map_of m (sf_name f) of
             None \<Rightarrow> \<not> sf_required f \<and> \<not> sf_no_default f
           | Some v \<Rightarrow> fits gr rfc f v))"

lemma within_iff: "within mn mx n \<longleftrightarrow> \<not> outside mn mx n"
  by (auto simp: within_def outside_def not_less split: option.splits)

lemma check_option_text_iff:
  "check_option_text gr f v mn mx = [] \<longleftrightarrow> (\<exists>t. v = JString t \<and> within mn mx (length (gr t)))"
  by (auto simp: check_option_text_def json_str_def within_iff outside_def grapheme_len_def
      split: json.splits option.splits)

lemma check_value_iff: "check_value gr rfc f v = [] \<longleftrightarrow> fits gr rfc f v"
proof (cases "sf_kind f")
  case (FK_Enum vs d)
  then show ?thesis
    by (cases v) (auto simp: check_value_def json_str_def list_ex_iff)
next
  case (FK_Integer mn mx d)
  then show ?thesis
    by (cases v) (simp_all add: check_value_def as_i64_def within_iff)
qed (cases v; auto simp: check_value_def check_option_text_iff json_str_def json_bool_def)+

lemma field_named_None_iff: "field_named s k = None \<longleftrightarrow> k \<notin> sf_name ` set s"
  by (auto simp: field_named_def find_None_iff)

lemma validate_options_iff: "validate_options gr rfc s m = [] \<longleftrightarrow> conforms gr rfc s m"
proof -
  have "check_field gr rfc s m f = [] \<longleftrightarrow> (applies s f m \<longrightarrow>
      (case map_of m (sf_name f) of None \<Rightarrow> \<not> sf_required f \<and> \<not> sf_no_default f | Some v \<Rightarrow> fits gr rfc f v))" for f
    by (simp add: check_field_def check_value_iff split: option.split)
  moreover have "filter (\<lambda>key. field_named s key = None) (map fst m) = [] \<longleftrightarrow> dom (map_of m) \<subseteq> sf_name ` set s"
    by (auto simp: filter_empty_conv field_named_None_iff dom_map_of_conv_image_fst)
  ultimately show ?thesis
    by (auto simp: validate_options_def conforms_def applies_iff)
qed

lemma check_value_path:
  "v \<in> set (check_value gr rfc f x) \<Longrightarrow> v_path v = Some (''options.'' @ sf_name f)"
  by (auto simp: check_value_def check_option_text_def wrong_type_def option_violation_def param_opt_def
      split: FieldKind.splits option.splits if_splits)

definition misses :: "(string \<Rightarrow> string list) \<Rightarrow> (string \<Rightarrow> bool) \<Rightarrow> OptionsSchema \<Rightarrow> obj \<Rightarrow> SchemaField \<Rightarrow> bool" where
  "misses gr rfc s m f \<longleftrightarrow> in_force s m f \<and> \<not> (case map_of m (sf_name f) of
     None \<Rightarrow> \<not> sf_required f \<and> \<not> sf_no_default f | Some v \<Rightarrow> fits gr rfc f v)"

lemma check_field_paths:
  "v_path ` set (check_field gr rfc s m f)
     = (if misses gr rfc s m f then {Some (''options.'' @ sf_name f)} else {})"
proof (cases "map_of m (sf_name f)")
  case None
  then show ?thesis by (auto simp: check_field_def misses_def applies_iff option_violation_def)
next
  case (Some x)
  have "v_path ` set (check_value gr rfc f x) = (if fits gr rfc f x then {} else {Some (''options.'' @ sf_name f)})"
  proof (cases "fits gr rfc f x")
    case True
    then show ?thesis by (simp add: check_value_iff [symmetric])
  next
    case False
    then have "check_value gr rfc f x \<noteq> []" by (simp add: check_value_iff)
    then obtain v vs where "check_value gr rfc f x = v # vs" by (meson neq_Nil_conv)
    then show ?thesis using False check_value_path [of _ gr rfc f x] by (auto simp: image_iff)
  qed
  then show ?thesis using Some by (auto simp: check_field_def misses_def applies_iff)
qed

section \<open>Credentials\<close>

lemma split_lookup:
  assumes "distinct (map fst es)"
  shows "map_of (fst (split_credentials es)) = get_plain es \<and> map_of (snd (split_credentials es)) = get_secret es"
  using assms
proof (induction es rule: rev_induct)
  case Nil
  then show ?case by (simp add: split_credentials_def get_plain_def get_secret_def fun_eq_iff)
next
  case (snoc e es)
  obtain k c where e: "e = (k, c)" by fastforce
  from snoc.prems have none: "map_of es k = None" by (auto simp: e map_of_eq_None_iff)
  then have "map_of (es @ [(k, c)]) = (map_of es)(k \<mapsto> c)"
    by (auto simp: map_add_def fun_eq_iff split: option.split)
  with none snoc show ?case
    by (cases c) (auto simp: e split_credentials_def get_plain_def get_secret_def fun_eq_iff split: prod.splits)
qed

lemma parsed_credentials:
  assumes "parse_credentials gr rfc s m = Inr es" and "distinct (map sf_name s)"
  shows "distinct (map fst es)"
    and "f \<in> set s \<Longrightarrow> map_of es (sf_name f) =
      (if applies s f m then map_option (credential f) (map_of m (sf_name f)) else None)"
proof -
  let ?fs = "filter (\<lambda>f. applies s f m) s"
  have es: "es = List.map_filter (\<lambda>f. map_option (\<lambda>v. (sf_name f, credential f v)) (map_of m (sf_name f))) ?fs"
    using assms(1) by (auto simp: parse_credentials_def Let_def split: if_splits)
  have names: "fst ` set (List.map_filter (\<lambda>f. map_option (\<lambda>v. (sf_name f, credential f v)) (map_of m (sf_name f))) fs)
      \<subseteq> sf_name ` set fs" for fs
    by (induction fs) (auto simp: List.map_filter_simps split: option.split)
  have "distinct (map fst (List.map_filter (\<lambda>f. map_option (\<lambda>v. (sf_name f, credential f v)) (map_of m (sf_name f))) fs))"
    if "distinct (map sf_name fs)" for fs
    using that
  proof (induction fs)
    case (Cons g fs)
    then show ?case using names [of fs] by (auto simp: List.map_filter_simps split: option.split)
  qed (simp add: List.map_filter_simps)
  moreover have "distinct (map sf_name ?fs)" using assms(2) by (simp add: distinct_map_filter)
  ultimately show dist: "distinct (map fst es)" by (simp add: es)
  assume f: "f \<in> set s"
  show "map_of es (sf_name f) = (if applies s f m then map_option (credential f) (map_of m (sf_name f)) else None)"
  proof (cases "applies s f m \<and> map_of m (sf_name f) \<noteq> None")
    case True
    then obtain v where v: "map_of m (sf_name f) = Some v" by blast
    with True f have "(sf_name f, credential f v) \<in> set es"
      by (force simp: es List.map_filter_def)
    then show ?thesis using dist True v by simp
  next
    case False
    have "sf_name f \<notin> fst ` set es"
    proof
      assume "sf_name f \<in> fst ` set es"
      then obtain g where "g \<in> set s" "applies s g m" "sf_name g = sf_name f" "map_of m (sf_name g) \<noteq> None"
        by (auto simp: es List.map_filter_def)
      moreover from this f assms(2) have "g = f" by (auto simp: distinct_map dest: inj_onD)
      ultimately show False using False by simp
    qed
    then have "map_of es (sf_name f) = None" by (simp add: map_of_eq_None_iff)
    then show ?thesis using False by auto
  qed
qed

lemma from_parts_lookup:
  assumes "\<And>k. map_of plain k \<noteq> None \<Longrightarrow> map_of secret k = None"
  shows "get_plain (credentials_from_parts plain secret) = map_of plain"
    and "get_secret (credentials_from_parts plain secret) = map_of secret"
proof -
  have "map_of (map (\<lambda>(k, v). (k, Plain v)) plain) = map_option Plain \<circ> map_of plain"
    and "map_of (map (\<lambda>(k, t). (k, Secret t)) secret) = map_option Secret \<circ> map_of secret"
    by (induction plain) (auto simp: fun_eq_iff, induction secret, auto simp: fun_eq_iff)
  then have "map_of (credentials_from_parts plain secret) = (\<lambda>k. case map_of plain k of
      Some v \<Rightarrow> Some (Plain v) | None \<Rightarrow> map_option Secret (map_of secret k))"
    using assms by (auto simp: credentials_from_parts_def map_add_def fun_eq_iff split: option.split)
  then show "get_plain (credentials_from_parts plain secret) = map_of plain"
    and "get_secret (credentials_from_parts plain secret) = map_of secret"
    using assms by (force simp: get_plain_def get_secret_def fun_eq_iff split: option.split)+
qed

section \<open>Consent\<close>

text \<open>The reading of the comment on \<^verbatim>\<open>consent_text\<close>: the value is \<^verbatim>\<open>true\<close>.\<close>

definition consented :: "OptionsSchema \<Rightarrow> obj \<Rightarrow> bool" where
  "consented s m \<longleftrightarrow> (\<forall>f \<in> set s. in_force s m f \<and> sf_consent_text f \<noteq> None \<longrightarrow>
     map_of m (sf_name f) = Some (JBool True))"

lemma consent_is_boolean:
  "fields_ok gr earlier s \<Longrightarrow> f \<in> set s \<Longrightarrow> sf_consent_text f \<noteq> None \<Longrightarrow> is_boolean (sf_kind f)"
  by (induction s arbitrary: earlier) (auto simp: field_ok_def)

lemma conforms_consent:
  assumes "schema_ok gr s" and "conforms gr rfc s m" and "f \<in> set s" and "in_force s m f"
    and "sf_consent_text f \<noteq> None"
  shows "map_of m (sf_name f) = Some (JBool True)
    \<or> map_of m (sf_name f) = None \<and> \<not> sf_required f \<and> \<not> sf_no_default f"
proof (cases "map_of m (sf_name f)")
  case None
  then show ?thesis using assms by (auto simp: conforms_def)
next
  case (Some v)
  then have "fits gr rfc f v" using assms by (force simp: conforms_def)
  moreover obtain d where "sf_kind f = FK_Boolean d"
    using consent_is_boolean [OF assms(1,3,5)] by (auto simp: is_boolean_def split: FieldKind.splits)
  ultimately show ?thesis using Some assms(5) by (cases v) auto
qed

lemma validate_options_paths:
  "v_path ` set (validate_options gr rfc s m)
     = (\<lambda>f. Some (''options.'' @ sf_name f)) ` {f \<in> set s. misses gr rfc s m f}
       \<union> (\<lambda>k. Some (''options.'' @ k)) ` (dom (map_of m) - sf_name ` set s)"
proof -
  have "v_path ` set (validate_options gr rfc s m)
      = (\<Union>f \<in> set s. v_path ` set (check_field gr rfc s m f))
        \<union> (\<lambda>k. Some (''options.'' @ k)) ` {k \<in> fst ` set m. field_named s k = None}"
    by (auto simp: validate_options_def image_Un image_UN image_image)
  moreover have "{k \<in> fst ` set m. field_named s k = None} = dom (map_of m) - sf_name ` set s"
    by (auto simp: field_named_None_iff dom_map_of_conv_image_fst)
  moreover have "(\<Union>f \<in> set s. v_path ` set (check_field gr rfc s m f))
      = (\<lambda>f. Some (''options.'' @ sf_name f)) ` {f \<in> set s. misses gr rfc s m f}"
    by (auto simp: check_field_paths split: if_splits)
  ultimately show ?thesis by simp
qed

section \<open>Properties\<close>

definition sample_message :: Message where
  "sample_message = \<lparr>msg_key = ''k'', msg_en = ''E''\<rparr>"

definition sample_token :: SchemaField where
  "sample_token = \<lparr>sf_name = ''token'', sf_label = sample_message, sf_help = None, sf_required = True,
     sf_kind = FK_String (Some 1) (Some 40) None, sf_no_default = False, sf_secret = True,
     sf_consent_text = None, sf_depends_on = None\<rparr>"

definition sample_privacy :: SchemaField where
  "sample_privacy = \<lparr>sf_name = ''privacy'', sf_label = sample_message, sf_help = Some sample_message,
     sf_required = False,
     sf_kind = FK_Enum [\<lparr>ev_value = ''public'', ev_label = sample_message\<rparr>,
       \<lparr>ev_value = ''private'', ev_label = sample_message\<rparr>] (Some ''public''),
     sf_no_default = False, sf_secret = False, sf_consent_text = None, sf_depends_on = None\<rparr>"

definition sample_rating :: SchemaField where
  "sample_rating = \<lparr>sf_name = ''rating'', sf_label = sample_message, sf_help = None, sf_required = False,
     sf_kind = FK_Integer (Some 1) (Some 5) (Some 3), sf_no_default = False, sf_secret = False,
     sf_consent_text = None, sf_depends_on = Some \<lparr>dep_field = ''privacy'', dep_equals = JString ''public''\<rparr>\<rparr>"

definition sample_consent :: SchemaField where
  "sample_consent = \<lparr>sf_name = ''agree'', sf_label = sample_message, sf_help = None, sf_required = True,
     sf_kind = FK_Boolean None, sf_no_default = False, sf_secret = False,
     sf_consent_text = Some sample_message, sf_depends_on = None\<rparr>"

definition sample_schema :: OptionsSchema where
  "sample_schema = [sample_token, sample_privacy, sample_rating]"

abbreviation bytes_as_graphemes :: "string \<Rightarrow> string list" where
  "bytes_as_graphemes \<equiv> map (\<lambda>c. [c])"

lemma sample_schema_ok: "schema_ok bytes_as_graphemes sample_schema"
  by (simp add: sample_schema_def sample_token_def sample_privacy_def sample_rating_def field_ok_def kind_ok_def
      u32_opt_def i64_opt_def i64_ok_def crossed_def outside_def)

text \<open>
  C16: printing and parsing a schema are inverse. A schema that parsed is well-formed (names are
  unique, bounds fit their types and do not cross, defaults are values of their field, dependencies
  name earlier fields), and what it prints as parses to the same schema again.
\<close>

theorem parsed_schema_prints_back:
  assumes "parse_schema gr entries = Inr s"
  shows "schema_ok gr s \<and> parse_schema gr (schema_entries s) = Inr s"
  using parsed_ok [OF assms] parse_printed by blast

theorem parsed_schema_prints_back_witness:
  "parse_schema bytes_as_graphemes (schema_entries sample_schema) = Inr sample_schema
   \<and> schema_ok bytes_as_graphemes sample_schema"
  using parsed_schema_prints_back [OF parse_printed [OF sample_schema_ok]] by blast

text \<open>
  C15: the checker of option values is equivalent to the reference reading \<open>conforms\<close>. It reports
  nothing exactly when every given option is one of the schema's, every field in force that is given
  has a value of its type and range (\<^verbatim>\<open>true\<close>, when it asks for consent), and the fields in force that
  must be given are given; and every violation it reports is at a field of the schema in force or at
  an unknown option, and names it. The comment on \<^verbatim>\<open>consent_text\<close> asks for more: that the value is
  \<^verbatim>\<open>true\<close>. In a schema that parsed, the checker grants this for every consent field in force that
  must be given, and only then: one that need not be given may be left out. So it agrees with the
  documented reading (\<open>conforms\<close> and \<open>consented\<close>) where every consent field must be given.
\<close>

theorem option_check_matches_reference:
  "(validate_options gr rfc s m = [] \<longleftrightarrow> conforms gr rfc s m)
   \<and> v_path ` set (validate_options gr rfc s m)
     = (\<lambda>f. Some (''options.'' @ sf_name f)) ` {f \<in> set s. misses gr rfc s m f}
       \<union> (\<lambda>k. Some (''options.'' @ k)) ` (dom (map_of m) - sf_name ` set s)
   \<and> (schema_ok gr s \<and> validate_options gr rfc s m = [] \<longrightarrow>
        (\<forall>f \<in> set s. in_force s m f \<and> sf_consent_text f \<noteq> None \<longrightarrow>
           map_of m (sf_name f) = Some (JBool True)
           \<or> map_of m (sf_name f) = None \<and> \<not> sf_required f \<and> \<not> sf_no_default f))
   \<and> (schema_ok gr s \<and> (\<forall>f \<in> set s. sf_consent_text f \<noteq> None \<longrightarrow> sf_required f \<or> sf_no_default f) \<longrightarrow>
        (validate_options gr rfc s m = [] \<longleftrightarrow> conforms gr rfc s m \<and> consented s m))"
proof (intro conjI)
  show "validate_options gr rfc s m = [] \<longleftrightarrow> conforms gr rfc s m" by (rule validate_options_iff)
  show "v_path ` set (validate_options gr rfc s m)
     = (\<lambda>f. Some (''options.'' @ sf_name f)) ` {f \<in> set s. misses gr rfc s m f}
       \<union> (\<lambda>k. Some (''options.'' @ k)) ` (dom (map_of m) - sf_name ` set s)"
    by (rule validate_options_paths)
  show "schema_ok gr s \<and> validate_options gr rfc s m = [] \<longrightarrow>
        (\<forall>f \<in> set s. in_force s m f \<and> sf_consent_text f \<noteq> None \<longrightarrow>
           map_of m (sf_name f) = Some (JBool True)
           \<or> map_of m (sf_name f) = None \<and> \<not> sf_required f \<and> \<not> sf_no_default f)"
    unfolding validate_options_iff using conforms_consent by blast
  show "schema_ok gr s \<and> (\<forall>f \<in> set s. sf_consent_text f \<noteq> None \<longrightarrow> sf_required f \<or> sf_no_default f) \<longrightarrow>
        (validate_options gr rfc s m = [] \<longleftrightarrow> conforms gr rfc s m \<and> consented s m)"
    unfolding validate_options_iff consented_def using conforms_consent by blast
qed

theorem option_check_matches_reference_witness:
  "validate_options bytes_as_graphemes (\<lambda>_. True) [sample_consent] [(''agree'', JBool True)] = []
   \<and> consented [sample_consent] [(''agree'', JBool True)]"
proof -
  let ?s = "[sample_consent]" and ?m = "[(''agree'', JBool True)]"
  have "schema_ok bytes_as_graphemes ?s"
    by (simp add: sample_consent_def field_ok_def kind_ok_def is_boolean_def)
  moreover have "\<forall>f \<in> set ?s. sf_consent_text f \<noteq> None \<longrightarrow> sf_required f \<or> sf_no_default f"
    by (simp add: sample_consent_def)
  moreover have "validate_options bytes_as_graphemes (\<lambda>_. True) ?s ?m = []" by code_simp
  ultimately show ?thesis
    using option_check_matches_reference [of bytes_as_graphemes "\<lambda>_. True" ?s ?m] by blast
qed

text \<open>What the comment on \<^verbatim>\<open>consent_text\<close> does not say: consent that is not required is not asked for.\<close>

lemma unrequired_consent_may_be_left_out:
  "validate_options bytes_as_graphemes (\<lambda>_. True) [sample_consent\<lparr>sf_required := False\<rparr>] [] = []
   \<and> \<not> consented [sample_consent\<lparr>sf_required := False\<rparr>] []"
proof
  show "validate_options bytes_as_graphemes (\<lambda>_. True) [sample_consent\<lparr>sf_required := False\<rparr>] [] = []"
    by code_simp
  show "\<not> consented [sample_consent\<lparr>sf_required := False\<rparr>] []"
    by (simp add: consented_def in_force_def sample_consent_def)
qed

text \<open>
  C17: no secret leaves through the plain part. When credentials parse against a schema with
  unique field names, the plain part of their split has exactly the given values of the applying
  fields that are not secret, the secret part the text of the secret ones, and rebuilding the
  fields from the two parts gives every field back.
\<close>

theorem secrets_stay_out_of_plain:
  assumes "parse_credentials gr rfc s m = Inr es" and "distinct (map sf_name s)"
    and "split_credentials es = (plain, secret)"
  shows "(\<forall>f \<in> set s.
       map_of plain (sf_name f) = (if applies s f m \<and> \<not> sf_secret f then map_of m (sf_name f) else None)
     \<and> map_of secret (sf_name f)
         = (if applies s f m \<and> sf_secret f then map_option type_text (map_of m (sf_name f)) else None))
   \<and> get_plain (credentials_from_parts plain secret) = get_plain es
   \<and> get_secret (credentials_from_parts plain secret) = get_secret es"
proof -
  note es = parsed_credentials [OF assms(1,2)]
  have parts: "map_of plain = get_plain es" "map_of secret = get_secret es"
    using split_lookup [OF es(1)] assms(3) by simp_all
  have "map_of plain k \<noteq> None \<Longrightarrow> map_of secret k = None" for k
    by (auto simp: parts get_plain_def get_secret_def split: option.splits CredentialValue.splits)
  note again = from_parts_lookup [of plain secret, OF this]
  have "map_of plain (sf_name f) = (if applies s f m \<and> \<not> sf_secret f then map_of m (sf_name f) else None)
     \<and> map_of secret (sf_name f) = (if applies s f m \<and> sf_secret f then map_option type_text (map_of m (sf_name f)) else None)"
    if "f \<in> set s" for f
    using es(2) [OF that]
    by (auto simp: parts get_plain_def get_secret_def credential_def split: option.split)
  then show ?thesis using again parts by auto
qed

theorem secrets_stay_out_of_plain_witness:
  "\<exists>es plain secret. parse_credentials bytes_as_graphemes (\<lambda>_. True) sample_schema
       [(''privacy'', JString ''private''), (''rating'', JNumber 9), (''token'', JString ''s3cret'')] = Inr es
     \<and> split_credentials es = (plain, secret) \<and> plain = [(''privacy'', JString ''private'')]
     \<and> map_of plain (sf_name sample_token) = None \<and> map_of secret (sf_name sample_token) = Some ''s3cret''"
proof -
  let ?m = "[(''privacy'', JString ''private''), (''rating'', JNumber 9), (''token'', JString ''s3cret'')]"
  let ?es = "[(''token'', Secret ''s3cret''), (''privacy'', Plain (JString ''private''))]"
  have run: "parse_credentials bytes_as_graphemes (\<lambda>_. True) sample_schema ?m = Inr ?es"
    and split: "split_credentials ?es = ([(''privacy'', JString ''private'')], [(''token'', ''s3cret'')])"
    and names: "distinct (map sf_name sample_schema)"
    and here: "applies sample_schema sample_token ?m" "sf_secret sample_token" "sf_name sample_token = ''token''"
    by code_simp+
  have "sample_token \<in> set sample_schema" by (simp add: sample_schema_def)
  with secrets_stay_out_of_plain [OF run names split] here run split show ?thesis by simp
qed

end
