(* ===== verification/Descriptor.thy ===== *)
theory Descriptor
  imports Post
begin

text \<open>
  What an agent declares of its platform: the model of \<^verbatim>\<open>backend/crates/core/src/format.rs\<close>,
  \<^verbatim>\<open>media.rs\<close> (assets), \<^verbatim>\<open>descriptor.rs\<close> with its check, \<^verbatim>\<open>agent/registry.rs\<close> and the identifiers
  of \<^verbatim>\<open>platform.rs\<close>. How an account is connected and the safe zones of a format are left out of the
  records: nothing here reads them.
\<close>

section \<open>Media assets\<close>

datatype MediaKind = MK_Image | MK_Video

fun media_kind_str :: "MediaKind \<Rightarrow> string" where
  "media_kind_str MK_Image = ''image''"
| "media_kind_str MK_Video = ''video''"

text \<open>The extension of the last path component: what follows its last dot, unless that dot comes first.\<close>

definition file_extension :: "string \<Rightarrow> string option" where
  "file_extension name =
     (let parts = filter (\<lambda>c. c \<noteq> [] \<and> c \<noteq> ''.'') (split_on (CHR ''/'') name)
      in if parts = [] \<or> last parts = ''..'' then None
         else
           let r = rev (last parts); ext = takeWhile (\<lambda>c. c \<noteq> CHR ''.'') r
           in if length ext = length r \<or> length ext + 1 = length r then None else Some (rev ext))"

definition for_filename :: "string \<Rightarrow> MediaKind option" where
  "for_filename name =
     Option.bind (file_extension name) (\<lambda>ext.
       let low = map ascii_lower ext
       in if low \<in> set [''jpg'', ''jpeg'', ''png'', ''gif'', ''webp''] then Some MK_Image
          else if low \<in> set [''mp4'', ''m4v'', ''mov''] then Some MK_Video
          else None)"

datatype MediaAssetState = MA_Uploading | MA_Ready | MA_Failed

record MediaAsset =
  ma_id :: uuid
  ma_owner_id :: uuid
  ma_kind :: MediaKind
  ma_mime :: string
  ma_bytes :: nat
  ma_width :: "nat option"
  ma_height :: "nat option"
  ma_duration_ms :: "nat option"
  ma_sha256 :: "string option"
  ma_state :: MediaAssetState
  ma_derived_from :: "uuid option"

definition is_vertical :: "MediaAsset \<Rightarrow> bool" where
  "is_vertical a = (case (ma_width a, ma_height a) of (Some w, Some h) \<Rightarrow> w < h | _ \<Rightarrow> False)"

section \<open>Formats\<close>

datatype FormatId = F_Text | F_Link | F_Image | F_Carousel | F_Video | F_ShortVideo | F_Story | F_Reel | F_HtmlEmail

fun format_id_str :: "FormatId \<Rightarrow> string" where
  "format_id_str F_Text = ''text''"
| "format_id_str F_Link = ''link''"
| "format_id_str F_Image = ''image''"
| "format_id_str F_Carousel = ''carousel''"
| "format_id_str F_Video = ''video''"
| "format_id_str F_ShortVideo = ''short_video''"
| "format_id_str F_Story = ''story''"
| "format_id_str F_Reel = ''reel''"
| "format_id_str F_HtmlEmail = ''html_email''"

record TextRules =
  tr_measure :: TextMeasure
  tr_max :: nat
  tr_required :: bool
  tr_includes_link_and_tags :: bool

record AspectRange =
  rng_min :: AspectRatio
  rng_max :: AspectRatio
  rng_preferred :: AspectRatio

record MediaRules =
  mr_min_count :: nat
  mr_max_count :: nat
  mr_kinds :: "MediaKind list"
  mr_mime_types :: "string list"
  mr_max_bytes :: "nat option"
  mr_min_width :: "nat option"
  mr_max_width :: "nat option"
  mr_min_height :: "nat option"
  mr_max_height :: "nat option"
  mr_aspect_ratios :: "AspectRange list"
  mr_min_duration_ms :: "nat option"
  mr_max_duration_ms :: "nat option"

definition no_media :: MediaRules where
  "no_media = \<lparr>mr_min_count = 0, mr_max_count = 0, mr_kinds = [], mr_mime_types = [], mr_max_bytes = None,
     mr_min_width = None, mr_max_width = None, mr_min_height = None, mr_max_height = None,
     mr_aspect_ratios = [], mr_min_duration_ms = None, mr_max_duration_ms = None\<rparr>"

record FormatSelector =
  fs_option :: string
  fs_value :: string

record FormatSpec =
  fm_id :: FormatId
  fm_text :: TextRules
  fm_media :: MediaRules
  fm_selected_by :: "FormatSelector option"

section \<open>Descriptors\<close>

datatype AgentKind = Broadcast | Direct

datatype QuotaScope = QS_App | QS_Account

datatype QuotaPeriod = QP_Day | QP_Month

record QuotaCosts =
  qc_publish :: nat
  qc_comment :: nat
  qc_inbox_poll :: nat
  qc_metrics :: nat

record QuotaBucket =
  qb_id :: string
  qb_scope :: QuotaScope
  qb_period :: QuotaPeriod
  qb_default_limit :: nat
  qb_reset_time_zone :: string
  qb_costs :: QuotaCosts

record NativeScheduleWindow =
  nw_min_lead_secs :: nat
  nw_max_lead_secs :: nat

record AgentDescriptor =
  ad_platform :: string
  ad_display_name :: string
  ad_icon_png :: "nat list"
  ad_brand_color :: string
  ad_kind :: AgentKind
  ad_formats :: "FormatSpec list"
  ad_capabilities :: "AgentCapability list"
  ad_config_schema_version :: nat
  ad_native_schedule :: "NativeScheduleWindow option"
  ad_quota_buckets :: "QuotaBucket list"
  ad_options_schema :: OptionsSchema

definition supports_native_schedule :: "AgentDescriptor \<Rightarrow> bool" where
  "supports_native_schedule d =
     (ad_native_schedule d \<noteq> None \<and> NativeScheduler \<in> set (ad_capabilities d))"

datatype DescriptorError =
    NoFormats
  | DuplicateFormat FormatId
  | InvalidBrandColor string
  | EmptyIcon
  | DirectWithoutCapability
  | NativeScheduleWithoutCapability
  | InvalidNativeScheduleWindow
  | NativeSchedulerWithoutWindow
  | InvalidSelectorValue string
  | UnknownSelectorOption string
  | DuplicateQuotaBucket string
  | InvalidQuotaBucket string

definition is_ascii_hexdigit :: "char \<Rightarrow> bool" where
  "is_ascii_hexdigit c =
     (is_ascii_digit c \<or> 65 \<le> byte c \<and> byte c \<le> 70 \<or> 97 \<le> byte c \<and> byte c \<le> 102)"

definition is_hex_color :: "string \<Rightarrow> bool" where
  "is_hex_color s = (length s = 7 \<and> hd s = CHR ''#'' \<and> list_all is_ascii_hexdigit (tl s))"

text \<open>The loops over formats, selectors and buckets stop at the first error.\<close>

definition check_formats :: "FormatSpec list \<Rightarrow> DescriptorError + FormatId list" where
  "check_formats fs =
     foldE (\<lambda>seen f. if fm_id f \<in> set seen then Inl (DuplicateFormat (fm_id f)) else Inr (seen @ [fm_id f])) [] fs"

definition check_selector ::
  "unicode \<Rightarrow> OptionsSchema \<Rightarrow> unit \<Rightarrow> FormatSpec \<Rightarrow> DescriptorError + unit" where
  "check_selector uc schema u f =
     (case fm_selected_by f of
        None \<Rightarrow> Inr ()
      | Some sel \<Rightarrow>
          (case find (\<lambda>fld. sf_name fld = fs_option sel) schema of
             None \<Rightarrow> Inl (UnknownSelectorOption (fs_option sel))
           | Some fld \<Rightarrow>
               if accepts (uc_graphemes uc) (uc_rfc3339 uc) fld (JString (fs_value sel)) then Inr ()
               else Inl (InvalidSelectorValue (fs_option sel))))"

definition costs_zero :: "QuotaCosts \<Rightarrow> bool" where
  "costs_zero c = (qc_publish c = 0 \<and> qc_comment c = 0 \<and> qc_inbox_poll c = 0 \<and> qc_metrics c = 0)"

definition check_bucket :: "string list \<Rightarrow> QuotaBucket \<Rightarrow> DescriptorError + string list" where
  "check_bucket seen b =
     (if qb_id b \<in> set seen then Inl (DuplicateQuotaBucket (qb_id b))
      else if qb_default_limit b = 0 \<or> qb_reset_time_zone b = [] \<or> costs_zero (qb_costs b)
      then Inl (InvalidQuotaBucket (qb_id b))
      else Inr (seen @ [qb_id b]))"

definition check_window :: "AgentDescriptor \<Rightarrow> DescriptorError + unit" where
  "check_window d =
     (case ad_native_schedule d of
        Some window \<Rightarrow>
          if nw_max_lead_secs window < nw_min_lead_secs window then Inl InvalidNativeScheduleWindow else Inr ()
      | None \<Rightarrow>
          if NativeScheduler \<in> set (ad_capabilities d) then Inl NativeSchedulerWithoutWindow else Inr ())"

definition validate_descriptor :: "unicode \<Rightarrow> AgentDescriptor \<Rightarrow> DescriptorError + unit" where
  "validate_descriptor uc d =
     (if ad_formats d = [] then Inl NoFormats
      else
        bindE (check_formats (ad_formats d)) (\<lambda>_.
          if \<not> is_hex_color (ad_brand_color d) then Inl (InvalidBrandColor (ad_brand_color d))
          else if ad_icon_png d = [] then Inl EmptyIcon
          else if ad_kind d = Direct \<and> DirectSender \<notin> set (ad_capabilities d) then Inl DirectWithoutCapability
          else if ad_native_schedule d \<noteq> None \<and> NativeScheduler \<notin> set (ad_capabilities d)
          then Inl NativeScheduleWithoutCapability
          else
            bindE (check_window d) (\<lambda>_.
            bindE (foldE (check_selector uc (ad_options_schema d)) () (ad_formats d)) (\<lambda>_.
            bindE (foldE check_bucket [] (ad_quota_buckets d)) (\<lambda>_. Inr ())))))"

section \<open>Platform identifiers and the registry\<close>

datatype PlatformIdError = PI_Empty | PI_TooLong | PI_InvalidChar

definition is_ascii_lowercase :: "char \<Rightarrow> bool" where
  "is_ascii_lowercase c = (97 \<le> byte c \<and> byte c \<le> 122)"

definition platform_id_new :: "string \<Rightarrow> PlatformIdError + string" where
  "platform_id_new s =
     (if s = [] then Inl PI_Empty
      else if 32 < length s then Inl PI_TooLong
      else if is_ascii_lowercase (hd s)
              \<and> list_all (\<lambda>c. is_ascii_lowercase c \<or> is_ascii_digit c \<or> c = CHR ''_'') (tl s)
      then Inr s
      else Inl PI_InvalidChar)"

datatype RegistryError = RE_Duplicate string | RE_InvalidDescriptor string DescriptorError

type_synonym AgentRegistry = "(string \<times> AgentDescriptor) list"

definition register :: "unicode \<Rightarrow> AgentRegistry \<Rightarrow> AgentDescriptor \<Rightarrow> RegistryError + AgentRegistry" where
  "register uc registry d =
     bindE (map_err (RE_InvalidDescriptor (ad_platform d)) (validate_descriptor uc d)) (\<lambda>_.
       if map_of registry (ad_platform d) \<noteq> None then Inl (RE_Duplicate (ad_platform d))
       else Inr (obj_insert (ad_platform d) d registry))"

definition registry_get :: "AgentRegistry \<Rightarrow> string \<Rightarrow> AgentDescriptor option" where
  "registry_get registry platform = map_of registry platform"

end
