(* ===== verification/Validation.thy ===== *)
theory Validation
  imports Descriptor
begin

text \<open>
  The checks of a target before it is published: the model of
  \<^verbatim>\<open>backend/crates/core/src/validation/engine.rs\<close> and \<^verbatim>\<open>format_pick.rs\<close>. A function that pushes to
  \<^verbatim>\<open>out\<close> returns what it pushes.

  \<^verbatim>\<open>f64\<close> arithmetic on ratios is written out: a quotient, sum or difference is the exact value
  rounded to 53 significant bits, ties to even. A value is an integer number of units of
  \<open>2\<close> to the power \<open>-100\<close>: every result is a multiple of it, for quotients of \<^verbatim>\<open>u32\<close>s have 53
  significant bits from \<open>2\<close> to the power \<open>-32\<close> on, and none is subnormal or infinite. A lead time is compared in nanoseconds. \<^verbatim>\<open>Duration::seconds\<close> panics for
  a number of seconds that \<^verbatim>\<open>TimeDelta\<close> cannot hold: \<open>window_panics\<close> says when \<open>check_time\<close> gets
  there, and the value of the checks means something only where it does not.
\<close>

section \<open>Floating point\<close>

type_synonym f64 = int

definition f64_one :: f64 where
  "f64_one = 2 ^ 100"

function ilog2 :: "int \<Rightarrow> nat" where
  "ilog2 n = (if n \<le> 1 then 0 else Suc (ilog2 (n div 2)))"
  by pat_completeness auto

termination
  by (relation "measure nat") auto

declare ilog2.simps [simp del]

text \<open>The integer nearest to \<open>n / d\<close>, the even one of two.\<close>

definition round_div :: "int \<Rightarrow> int \<Rightarrow> int" where
  "round_div n d =
     (let q = n div d; r = n mod d
      in if 2 * r < d then q else if d < 2 * r then q + 1 else if even q then q else q + 1)"

text \<open>\<open>n / d\<close> units, rounded to 53 significant bits.\<close>

definition round53 :: "int \<Rightarrow> int \<Rightarrow> f64" where
  "round53 n d = (let u = 2 ^ (ilog2 (n div d) - 52) in round_div n (d * u) * u)"

definition f64_div :: "nat \<Rightarrow> nat \<Rightarrow> f64" where
  "f64_div a b = round53 (int a * f64_one) (int b)"

definition f64_round :: "int \<Rightarrow> f64" where
  "f64_round x = (if 0 \<le> x then round53 x 1 else - round53 (- x) 1)"

definition ratio_f64 :: "AspectRatio \<Rightarrow> f64" where
  "ratio_f64 r = f64_div (ar_width r) (ar_height r)"

definition ASPECT_EPSILON :: f64 where
  "ASPECT_EPSILON = f64_div 1 1000"

definition aspect :: "MediaAsset \<Rightarrow> f64 option" where
  "aspect a =
     (case (ma_width a, ma_height a) of
        (Some w, Some h) \<Rightarrow> if 0 < w \<and> 0 < h then Some (f64_div w h) else None
      | _ \<Rightarrow> None)"

definition ratio_text :: "nat \<Rightarrow> nat \<Rightarrow> string" where
  "ratio_text w h = decimal w @ '':'' @ decimal h"

section \<open>Choosing a format\<close>

definition selected :: "Variant \<Rightarrow> FormatSpec \<Rightarrow> bool" where
  "selected v f =
     (case fm_selected_by f of
        None \<Rightarrow> False
      | Some sel \<Rightarrow> map_of (va_options v) (fs_option sel) = Some (JString (fs_value sel)))"

definition text_takes :: "FormatSpec \<Rightarrow> MediaAsset list \<Rightarrow> bool" where
  "text_takes f media =
     (let rules = fm_media f; n = sat32 (length media)
      in mr_min_count rules \<le> n \<and> n \<le> mr_max_count rules
         \<and> list_all (\<lambda>m. ma_kind m \<in> set (mr_kinds rules)) media)"

definition fits_short_video :: "AgentDescriptor \<Rightarrow> MediaAsset \<Rightarrow> bool" where
  "fits_short_video d clip =
     (case find (\<lambda>f. fm_id f = F_ShortVideo) (ad_formats d) of
        None \<Rightarrow> False
      | Some f \<Rightarrow>
          (case (mr_max_duration_ms (fm_media f), ma_duration_ms clip) of
             (Some mx, Some actual) \<Rightarrow> actual \<le> mx
           | _ \<Rightarrow> True))"

definition candidates :: "AgentDescriptor \<Rightarrow> Variant \<Rightarrow> MediaAsset list \<Rightarrow> FormatId list" where
  "candidates d v media =
     (if va_email v \<noteq> None then [F_HtmlEmail]
      else
        (case media of
           [] \<Rightarrow> if va_link v \<noteq> None then [F_Link, F_Text] else [F_Text, F_Link]
         | [one] \<Rightarrow>
             (case ma_kind one of
                MK_Image \<Rightarrow> [F_Image, F_Text, F_Carousel]
              | MK_Video \<Rightarrow>
                  if is_vertical one \<and> fits_short_video d one then [F_ShortVideo, F_Reel, F_Video, F_Text]
                  else [F_Video, F_Text])
         | many \<Rightarrow>
             if list_all (\<lambda>m. ma_kind m = MK_Image) many then [F_Carousel, F_Text] else [F_Carousel]))"

definition declared :: "AgentDescriptor \<Rightarrow> MediaAsset list \<Rightarrow> FormatId \<Rightarrow> FormatSpec option" where
  "declared d media i =
     find (\<lambda>f. fm_id f = i \<and> (i \<noteq> F_Text \<or> media = [] \<or> text_takes f media)) (ad_formats d)"

definition pick_format :: "AgentDescriptor \<Rightarrow> Variant \<Rightarrow> MediaAsset list \<Rightarrow> Violation + FormatSpec" where
  "pick_format d v media =
     (case find (selected v) (ad_formats d) of
        Some f \<Rightarrow> Inr f
      | None \<Rightarrow>
          (let cs = candidates d v media
           in case List.map_filter (declared d media) cs of
                f # _ \<Rightarrow> Inr f
              | [] \<Rightarrow>
                  Inl (param ''inferred'' (JString (format_id_str (case cs of [] \<Rightarrow> F_Text | c # _ \<Rightarrow> c)))
                         (violation_new FormatUnsupported))))"

section \<open>The checks\<close>

datatype Schedule = Sch_Now | Sch_At timestamp bool

record ValidationInput =
  vi_descriptor :: AgentDescriptor
  vi_options_schema :: OptionsSchema
  vi_variant :: Variant
  vi_media :: "MediaAsset list"
  vi_schedule :: Schedule
  vi_now :: timestamp

definition SCHEDULE_GRACE_SECS :: int where
  "SCHEDULE_GRACE_SECS = 60"

definition seconds :: "int \<Rightarrow> int" where
  "seconds n = n * 1000000000"

definition find_asset :: "MediaAsset list \<Rightarrow> uuid \<Rightarrow> MediaAsset option" where
  "find_asset media i = find (\<lambda>m. ma_id m = i) media"

text \<open>\<^verbatim>\<open>i64::try_from(n).unwrap_or(i64::MAX)\<close> and \<^verbatim>\<open>u64::saturating_mul\<close>.\<close>

definition as_i64_sat :: "nat \<Rightarrow> int" where
  "as_i64_sat n = min (int n) (2 ^ 63 - 1)"

definition sat_mul64 :: "nat \<Rightarrow> nat \<Rightarrow> nat" where
  "sat_mul64 a b = min (a * b) (2 ^ 64 - 1)"

definition check_time :: "ValidationInput \<Rightarrow> timestamp \<Rightarrow> bool \<Rightarrow> Violation list" where
  "check_time vi at native =
     (let lead = at - vi_now vi
      in if lead < - seconds SCHEDULE_GRACE_SECS then [at_path ''schedule'' (violation_new ScheduleInPast)]
         else if \<not> native \<or> \<not> supports_native_schedule (vi_descriptor vi) then []
         else
           (case ad_native_schedule (vi_descriptor vi) of
              None \<Rightarrow> []
            | Some window \<Rightarrow>
                if lead < seconds (as_i64_sat (nw_min_lead_secs window))
                   \<or> seconds (as_i64_sat (nw_max_lead_secs window)) < lead
                then [param ''max_ms'' (json_num (sat_mul64 (nw_max_lead_secs window) 1000))
                       (param ''min_ms'' (json_num (sat_mul64 (nw_min_lead_secs window) 1000))
                         (at_path ''schedule'' (violation_new NativeScheduleOutsideWindow)))]
                else []))"

text \<open>
  The panic of \<^verbatim>\<open>Duration::seconds\<close>: it takes at most \<^verbatim>\<open>i64::MAX\<close> milliseconds. The bounds of the
  window are converted only for a native schedule the agent supports, after the test for the past.
\<close>

definition seconds_panics :: "int \<Rightarrow> bool" where
  "seconds_panics n = (n < - ((2 ^ 63 - 1) div 1000) \<or> (2 ^ 63 - 1) div 1000 < n)"

definition window_panics :: "ValidationInput \<Rightarrow> bool" where
  "window_panics vi =
     (case vi_schedule vi of
        Sch_Now \<Rightarrow> False
      | Sch_At at native \<Rightarrow>
          \<not> at - vi_now vi < - seconds SCHEDULE_GRACE_SECS
          \<and> native \<and> supports_native_schedule (vi_descriptor vi)
          \<and> (case ad_native_schedule (vi_descriptor vi) of
               None \<Rightarrow> False
             | Some window \<Rightarrow> seconds_panics (as_i64_sat (nw_min_lead_secs window))
                 \<or> seconds_panics (as_i64_sat (nw_max_lead_secs window))))"

definition check_schedule :: "ValidationInput \<Rightarrow> Violation list" where
  "check_schedule vi =
     (case vi_schedule vi of Sch_Now \<Rightarrow> [] | Sch_At at native \<Rightarrow> check_time vi at native)"

text \<open>The code equations here and below keep evaluation out of cases that do not apply.\<close>

lemma check_schedule_code [code]:
  "check_schedule vi = (if vi_schedule vi = Sch_Now then [] else
     case vi_schedule vi of Sch_Now \<Rightarrow> [] | Sch_At at native \<Rightarrow> check_time vi at native)"
  by (simp add: check_schedule_def)

definition check_text :: "unicode \<Rightarrow> Variant \<Rightarrow> FormatSpec \<Rightarrow> Violation list" where
  "check_text uc v f =
     (let rules = fm_text f
      in if tr_required rules \<and> blank (va_text v) then [at_path ''text'' (violation_new TextRequired)]
         else
           let own = measure_text uc (va_text v) (tr_measure rules);
               actual = (if tr_includes_link_and_tags rules
                         then measure_text uc (post_text uc v) (tr_measure rules) else own);
               overhead = actual - own
           in if tr_max rules < actual
              then let x = param ''measure'' (JString (measure_str (tr_measure rules)))
                         (param ''actual'' (json_num actual) (param ''max'' (json_num (tr_max rules))
                           (at_path ''text'' (violation_new TextTooLong))))
                   in [if overhead < tr_max rules then with_fix (ShortenText (tr_max rules - overhead)) x else x]
              else [])"

definition check_count :: "nat \<Rightarrow> bool \<Rightarrow> MediaRules \<Rightarrow> Violation list" where
  "check_count n some_missing rules =
     (let actual = sat32 n
      in if actual = 0 \<and> 0 < mr_min_count rules
         then if some_missing then [] else [at_path ''media'' (violation_new MediaRequired)]
         else if (actual < mr_min_count rules \<and> \<not> some_missing) \<or> mr_max_count rules < actual
         then let x = param ''actual'' (json_num actual) (param ''max'' (json_num (mr_max_count rules))
                    (param ''min'' (json_num (mr_min_count rules)) (at_path ''media'' (violation_new MediaCount))))
              in [if mr_max_count rules < actual then with_fix (RemoveMedia None) x else x]
         else [])"

definition missing_asset :: "uuid \<Rightarrow> string \<Rightarrow> Violation" where
  "missing_asset i path = param ''id'' (JString (uuid_text i)) (at_path path (violation_new MediaMissing))"

definition check_dimensions :: "MediaAsset \<Rightarrow> MediaRules \<Rightarrow> string \<Rightarrow> Violation list" where
  "check_dimensions a rules path =
     (case (ma_width a, ma_height a) of
        (Some w, Some h) \<Rightarrow>
          if \<not> (outside (mr_min_width rules) (mr_max_width rules) w
               \<or> outside (mr_min_height rules) (mr_max_height rules) h)
          then []
          else
            [param ''height'' (json_num h) (param ''width'' (json_num w)
              (param_opt ''max_height'' (map_option json_num (mr_max_height rules))
              (param_opt ''min_height'' (map_option json_num (mr_min_height rules))
              (param_opt ''max_width'' (map_option json_num (mr_max_width rules))
              (param_opt ''min_width'' (map_option json_num (mr_min_width rules))
                (at_path path (violation_new MediaDimensions)))))))]
      | _ \<Rightarrow> [])"

definition in_range :: "f64 \<Rightarrow> AspectRange \<Rightarrow> bool" where
  "in_range actual r =
     (f64_round (ratio_f64 (rng_min r) - ASPECT_EPSILON) \<le> actual
      \<and> actual \<le> f64_round (ratio_f64 (rng_max r) + ASPECT_EPSILON))"

definition reduce :: "('a \<Rightarrow> 'a \<Rightarrow> 'a) \<Rightarrow> 'a \<Rightarrow> 'a list \<Rightarrow> 'a" where
  "reduce f x xs = foldl f x xs"

definition check_aspect :: "MediaAsset \<Rightarrow> MediaRules \<Rightarrow> string \<Rightarrow> Violation list" where
  "check_aspect a rules path =
     (case (aspect a, ma_width a, ma_height a, mr_aspect_ratios rules) of
        (Some actual, Some w, Some h, first # rest) \<Rightarrow>
          if list_ex (in_range actual) (first # rest) then []
          else
            let mn = reduce (\<lambda>x y. if ratio_f64 x \<le> ratio_f64 y then x else y) (rng_min first) (map rng_min rest);
                mx = reduce (\<lambda>x y. if ratio_f64 y \<le> ratio_f64 x then x else y) (rng_max first) (map rng_max rest)
            in [with_fix (Fit (rng_preferred first))
                 (param ''actual'' (JString (ratio_text w h))
                 (param ''max'' (JString (ratio_text (ar_width mx) (ar_height mx)))
                 (param ''min'' (JString (ratio_text (ar_width mn) (ar_height mn)))
                   (at_path path (violation_new MediaAspectRatio)))))]
      | _ \<Rightarrow> [])"

definition check_duration :: "MediaAsset \<Rightarrow> MediaRules \<Rightarrow> string \<Rightarrow> Violation list" where
  "check_duration a rules path =
     (case ma_duration_ms a of
        None \<Rightarrow> []
      | Some actual \<Rightarrow>
          if \<not> outside (mr_min_duration_ms rules) (mr_max_duration_ms rules) actual then []
          else
            let x = param ''actual_ms'' (json_num actual)
                  (param_opt ''max_ms'' (map_option json_num (mr_max_duration_ms rules))
                  (param_opt ''min_ms'' (map_option json_num (mr_min_duration_ms rules))
                    (at_path path (violation_new MediaDuration))))
            in [case mr_max_duration_ms rules of
                  Some mx \<Rightarrow> if mx < actual then with_fix (Trim mx) x else x
                | None \<Rightarrow> x])"

text \<open>\<open>place\<close> is the index of an attachment, for whose path \<^verbatim>\<open>media_index\<close> reads it back.\<close>

definition check_asset :: "MediaAsset \<Rightarrow> MediaRules \<Rightarrow> string \<Rightarrow> nat option \<Rightarrow> Violation list" where
  "check_asset a rules path place =
     (if ma_state a \<noteq> MA_Ready
      then [param ''id'' (JString (uuid_text (ma_id a))) (at_path path (violation_new MediaNotReady))]
      else if ma_kind a \<notin> set (mr_kinds rules)
      then let x = param ''allowed'' (JArray (map (\<lambda>k. JString (media_kind_str k)) (mr_kinds rules)))
                 (param ''kind'' (JString (media_kind_str (ma_kind a)))
                   (at_path path (violation_new MediaKindNotAllowed)))
           in [case place of Some i \<Rightarrow> with_fix (RemoveMedia (Some i)) x | None \<Rightarrow> x]
      else
        (if mr_mime_types rules \<noteq> []
            \<and> \<not> list_ex (\<lambda>m. map ascii_lower m = map ascii_lower (ma_mime a)) (mr_mime_types rules)
         then [param ''allowed'' (JArray (map JString (mr_mime_types rules)))
                (param ''content_type'' (JString (ma_mime a)) (at_path path (violation_new MediaTypeNotAllowed)))]
         else [])
        @ (case mr_max_bytes rules of
             Some mx \<Rightarrow>
               if mx < ma_bytes a
               then [param ''actual_bytes'' (json_num (ma_bytes a)) (param ''max_bytes'' (json_num mx)
                      (at_path path (violation_new MediaTooLarge)))]
               else []
           | None \<Rightarrow> [])
        @ check_dimensions a rules path @ check_aspect a rules path @ check_duration a rules path)"

definition check_use :: "MediaAsset list \<Rightarrow> MediaRules \<Rightarrow> string \<Rightarrow> nat option \<Rightarrow> uuid \<Rightarrow> Violation list" where
  "check_use media rules path place i =
     (case find_asset media i of
        Some a \<Rightarrow> check_asset a rules path place
      | None \<Rightarrow> [missing_asset i path])"

definition check_email :: "FormatSpec \<Rightarrow> Variant \<Rightarrow> Violation list" where
  "check_email f v =
     (if fm_id f \<noteq> F_HtmlEmail then []
      else
        (case va_email v of
           None \<Rightarrow> [at_path ''email'' (violation_new EmailDocumentRequired)]
         | Some d \<Rightarrow>
             if blank (ed_subject d) then [at_path ''email.subject'' (violation_new EmailSubjectRequired)] else []))"

definition check_attachments :: "MediaAsset list \<Rightarrow> MediaRules \<Rightarrow> MediaItem list \<Rightarrow> Violation list" where
  "check_attachments media rules items =
     concat (map (\<lambda>(i, item). check_use media rules (indexed ''media'' i) (Some i) (mi_asset item))
       (enumerate 0 items))"

definition check_embedded :: "MediaAsset list \<Rightarrow> MediaRules \<Rightarrow> EmailBlock list \<Rightarrow> Violation list" where
  "check_embedded media rules blocks =
     concat (map (\<lambda>(i, b).
       case block_asset b of
         None \<Rightarrow> []
       | Some asset \<Rightarrow> check_use media rules (indexed ''email.blocks'' i) None asset) (enumerate 0 blocks))"

lemma check_loops_code [code]:
  "check_attachments media rules items = (if items = [] then [] else
     concat (map (\<lambda>(i, item). check_use media rules (indexed ''media'' i) (Some i) (mi_asset item))
       (enumerate 0 items)))"
  "check_embedded media rules blocks = (if blocks = [] then [] else
     concat (map (\<lambda>(i, b).
       case block_asset b of
         None \<Rightarrow> []
       | Some asset \<Rightarrow> check_use media rules (indexed ''email.blocks'' i) None asset) (enumerate 0 blocks)))"
  by (simp_all add: check_attachments_def check_embedded_def)

definition check_format :: "unicode \<Rightarrow> ValidationInput \<Rightarrow> FormatSpec \<Rightarrow> Violation list" where
  "check_format uc vi f =
     (let v = vi_variant vi; media = vi_media vi;
          found = filter (\<lambda>item. find_asset media (mi_asset item) \<noteq> None) (va_media v)
      in check_text uc v f
         @ check_attachments media (fm_media f) (va_media v)
         @ (case va_email v of None \<Rightarrow> [] | Some d \<Rightarrow> check_embedded media (fm_media f) (ed_blocks d))
         @ check_count (length found) (length found < length (va_media v)) (fm_media f)
         @ check_email f v)"

definition validate_target :: "unicode \<Rightarrow> ValidationInput \<Rightarrow> Violation list" where
  "validate_target uc vi =
     (let v = vi_variant vi;
          resolved = List.map_filter (\<lambda>item. find_asset (vi_media vi) (mi_asset item)) (va_media v)
      in kind_violations (va_kind v) (va_reply_to v)
         @ check_schedule vi
         @ (case pick_format (vi_descriptor vi) v resolved of
              Inr f \<Rightarrow> check_format uc vi f
            | Inl x \<Rightarrow> [x])
         @ validate_options (uc_graphemes uc) (uc_rfc3339 uc) (vi_options_schema vi) (va_options v))"

end
