(* ===== verification/Validation_Spec.thy ===== *)
theory Validation_Spec
  imports Validation Schema_Round
begin

text \<open>
  What the checks of a target decide: a target passes exactly when it is \<open>publishable\<close>, a reading
  of the rules that does not follow the order of the checks; a ratio inside an allowed range is
  never refused by the floating-point test; what a registered descriptor guarantees; and what an
  override can change in a post.
\<close>

section \<open>The rules\<close>

definition asset_ok :: "MediaRules \<Rightarrow> MediaAsset \<Rightarrow> bool" where
  "asset_ok rules a \<longleftrightarrow>
     ma_state a = MA_Ready \<and> ma_kind a \<in> set (mr_kinds rules)
     \<and> (mr_mime_types rules = [] \<or> map ascii_lower (ma_mime a) \<in> map ascii_lower ` set (mr_mime_types rules))
     \<and> within None (mr_max_bytes rules) (ma_bytes a)
     \<and> (\<forall>w h. ma_width a = Some w \<and> ma_height a = Some h \<longrightarrow>
          within (mr_min_width rules) (mr_max_width rules) w \<and> within (mr_min_height rules) (mr_max_height rules) h)
     \<and> (\<forall>x. aspect a = Some x \<and> mr_aspect_ratios rules \<noteq> [] \<longrightarrow> (\<exists>r \<in> set (mr_aspect_ratios rules). in_range x r))
     \<and> (\<forall>ms. ma_duration_ms a = Some ms \<longrightarrow> within (mr_min_duration_ms rules) (mr_max_duration_ms rules) ms)"

definition sent_text :: "unicode \<Rightarrow> TextRules \<Rightarrow> Variant \<Rightarrow> string" where
  "sent_text uc rules v = (if tr_includes_link_and_tags rules then post_text uc v else va_text v)"

definition text_ok :: "unicode \<Rightarrow> TextRules \<Rightarrow> Variant \<Rightarrow> bool" where
  "text_ok uc rules v \<longleftrightarrow>
     (tr_required rules \<longrightarrow> \<not> blank (va_text v))
     \<and> measure_text uc (sent_text uc rules v) (tr_measure rules) \<le> tr_max rules"

definition used_assets :: "Variant \<Rightarrow> uuid set" where
  "used_assets v = mi_asset ` set (va_media v)
     \<union> (case va_email v of None \<Rightarrow> {} | Some d \<Rightarrow> set (email_media_ids d))"

definition schedule_ok :: "AgentDescriptor \<Rightarrow> Schedule \<Rightarrow> timestamp \<Rightarrow> bool" where
  "schedule_ok d sch now \<longleftrightarrow>
     (\<forall>t native. sch = Sch_At t native \<longrightarrow>
        now - seconds 60 \<le> t
        \<and> (\<forall>w. native \<and> NativeScheduler \<in> set (ad_capabilities d) \<and> ad_native_schedule d = Some w \<longrightarrow>
             now + seconds (as_i64_sat (nw_min_lead_secs w)) \<le> t
             \<and> t \<le> now + seconds (as_i64_sat (nw_max_lead_secs w))))"

definition format_ok :: "unicode \<Rightarrow> ValidationInput \<Rightarrow> FormatSpec \<Rightarrow> bool" where
  "format_ok uc vi f \<longleftrightarrow>
     text_ok uc (fm_text f) (vi_variant vi)
     \<and> (\<forall>i \<in> used_assets (vi_variant vi). \<exists>a. find_asset (vi_media vi) i = Some a \<and> asset_ok (fm_media f) a)
     \<and> mr_min_count (fm_media f) \<le> sat32 (length (va_media (vi_variant vi)))
     \<and> sat32 (length (va_media (vi_variant vi))) \<le> mr_max_count (fm_media f)
     \<and> (fm_id f = F_HtmlEmail \<longrightarrow> (\<exists>d. va_email (vi_variant vi) = Some d \<and> \<not> blank (ed_subject d)))"

definition resolved_media :: "ValidationInput \<Rightarrow> MediaAsset list" where
  "resolved_media vi = List.map_filter (\<lambda>item. find_asset (vi_media vi) (mi_asset item)) (va_media (vi_variant vi))"

text \<open>
  Which format a target is published as. A declared format whose selector the options name comes
  before all others, the earliest of several. Otherwise the content ranks the kinds of format: an
  email document calls for an email; no media for a link post or a text, the link first when there is
  one; one image for an image, else a text, else a carousel; one video for a video, else a text, but
  for a short video, then a reel, when it is upright and no longer than the declared short video
  allows; several media for a carousel and, if all are images, else a text. Of the declared formats
  the best ranked one is taken, where a text format counts for media only if it takes them.
\<close>

definition earliest :: "('a \<Rightarrow> bool) \<Rightarrow> 'a list \<Rightarrow> 'a \<Rightarrow> bool" where
  "earliest P xs x \<longleftrightarrow> (\<exists>before after. xs = before @ x # after \<and> P x \<and> (\<forall>y \<in> set before. \<not> P y))"

definition named_by_options :: "Variant \<Rightarrow> FormatSpec \<Rightarrow> bool" where
  "named_by_options v f \<longleftrightarrow> (\<exists>sel. fm_selected_by f = Some sel
     \<and> map_of (va_options v) (fs_option sel) = Some (JString (fs_value sel)))"

definition upright_clip :: "AgentDescriptor \<Rightarrow> MediaAsset \<Rightarrow> bool" where
  "upright_clip d a \<longleftrightarrow>
     (\<exists>w h. ma_width a = Some w \<and> ma_height a = Some h \<and> w < h)
     \<and> (\<exists>f. earliest (\<lambda>f. fm_id f = F_ShortVideo) (ad_formats d) f
          \<and> (\<forall>mx ms. mr_max_duration_ms (fm_media f) = Some mx \<and> ma_duration_ms a = Some ms \<longrightarrow> ms \<le> mx))"

definition ranked :: "AgentDescriptor \<Rightarrow> Variant \<Rightarrow> MediaAsset list \<Rightarrow> FormatId \<Rightarrow> nat \<Rightarrow> bool" where
  "ranked d v media i n \<longleftrightarrow>
     va_email v \<noteq> None \<and> i = F_HtmlEmail \<and> n = 0
     \<or> va_email v = None
       \<and> (media = [] \<and> va_link v \<noteq> None \<and> (i, n) \<in> {(F_Link, 0), (F_Text, 1)}
          \<or> media = [] \<and> va_link v = None \<and> (i, n) \<in> {(F_Text, 0), (F_Link, 1)}
          \<or> (\<exists>a. media = [a] \<and> ma_kind a = MK_Image \<and> (i, n) \<in> {(F_Image, 0), (F_Text, 1), (F_Carousel, 2)})
          \<or> (\<exists>a. media = [a] \<and> ma_kind a = MK_Video \<and> upright_clip d a
               \<and> (i, n) \<in> {(F_ShortVideo, 0), (F_Reel, 1), (F_Video, 2), (F_Text, 3)})
          \<or> (\<exists>a. media = [a] \<and> ma_kind a = MK_Video \<and> \<not> upright_clip d a \<and> (i, n) \<in> {(F_Video, 0), (F_Text, 1)})
          \<or> 2 \<le> length media \<and> (i, n) = (F_Carousel, 0)
          \<or> 2 \<le> length media \<and> (\<forall>a \<in> set media. ma_kind a = MK_Image) \<and> (i, n) = (F_Text, 1))"

definition usable :: "MediaAsset list \<Rightarrow> FormatSpec \<Rightarrow> bool" where
  "usable media f \<longleftrightarrow> (fm_id f = F_Text \<and> media \<noteq> [] \<longrightarrow>
     mr_min_count (fm_media f) \<le> sat32 (length media) \<and> sat32 (length media) \<le> mr_max_count (fm_media f)
     \<and> (\<forall>a \<in> set media. ma_kind a \<in> set (mr_kinds (fm_media f))))"

definition chosen :: "AgentDescriptor \<Rightarrow> Variant \<Rightarrow> MediaAsset list \<Rightarrow> FormatSpec \<Rightarrow> bool" where
  "chosen d v media f \<longleftrightarrow>
     earliest (named_by_options v) (ad_formats d) f
     \<or> (\<forall>g \<in> set (ad_formats d). \<not> named_by_options v g)
       \<and> earliest (\<lambda>g. fm_id g = fm_id f \<and> usable media g) (ad_formats d) f
       \<and> (\<exists>n. ranked d v media (fm_id f) n
            \<and> (\<forall>g \<in> set (ad_formats d). \<forall>m. usable media g \<and> ranked d v media (fm_id g) m \<longrightarrow> n \<le> m))"

definition publishable :: "unicode \<Rightarrow> ValidationInput \<Rightarrow> bool" where
  "publishable uc vi \<longleftrightarrow>
     (va_kind (vi_variant vi) = PK_Comment \<longleftrightarrow> va_reply_to (vi_variant vi) \<noteq> None)
     \<and> schedule_ok (vi_descriptor vi) (vi_schedule vi) (vi_now vi)
     \<and> (\<exists>f. chosen (vi_descriptor vi) (vi_variant vi) (resolved_media vi) f \<and> format_ok uc vi f)
     \<and> conforms (uc_graphemes uc) (uc_rfc3339 uc) (vi_options_schema vi) (va_options (vi_variant vi))"

section \<open>The checks one by one\<close>

lemma kind_violations_iff: "kind_violations k r = [] \<longleftrightarrow> (k = PK_Comment \<longleftrightarrow> r \<noteq> None)"
  by (cases k; cases r) (simp_all add: kind_violations_def)

lemma check_schedule_iff:
  "check_schedule vi = [] \<longleftrightarrow> schedule_ok (vi_descriptor vi) (vi_schedule vi) (vi_now vi)"
proof (cases "vi_schedule vi")
  case Sch_Now
  then show ?thesis by (simp add: check_schedule_def schedule_ok_def)
next
  case (Sch_At t native)
  then show ?thesis
    by (cases "ad_native_schedule (vi_descriptor vi)")
      (auto simp: check_schedule_def check_time_def schedule_ok_def supports_native_schedule_def SCHEDULE_GRACE_SECS_def Let_def
        split: if_splits)
qed

lemma check_text_iff: "check_text uc v f = [] \<longleftrightarrow> text_ok uc (fm_text f) v"
  by (auto simp: check_text_def text_ok_def sent_text_def Let_def not_less)

lemma check_dimensions_iff:
  "check_dimensions a rules path = [] \<longleftrightarrow> (\<forall>w h. ma_width a = Some w \<and> ma_height a = Some h \<longrightarrow>
      within (mr_min_width rules) (mr_max_width rules) w \<and> within (mr_min_height rules) (mr_max_height rules) h)"
  by (auto simp: check_dimensions_def within_iff split: option.splits)

lemma check_aspect_iff:
  "check_aspect a rules path = [] \<longleftrightarrow> (\<forall>x. aspect a = Some x \<and> mr_aspect_ratios rules \<noteq> []
      \<longrightarrow> (\<exists>r \<in> set (mr_aspect_ratios rules). in_range x r))"
proof (cases "aspect a")
  case (Some x)
  then obtain w h where "ma_width a = Some w" "ma_height a = Some h"
    by (auto simp: aspect_def split: option.splits)
  with Some show ?thesis
    by (cases "mr_aspect_ratios rules") (auto simp: check_aspect_def Let_def list_ex_iff)
qed (simp add: check_aspect_def)

lemma check_duration_iff:
  "check_duration a rules path = [] \<longleftrightarrow>
     (\<forall>ms. ma_duration_ms a = Some ms \<longrightarrow> within (mr_min_duration_ms rules) (mr_max_duration_ms rules) ms)"
  by (simp add: check_duration_def within_iff Let_def split: option.split)

lemma check_asset_iff: "check_asset a rules path place = [] \<longleftrightarrow> asset_ok rules a"
proof (cases "ma_state a = MA_Ready \<and> ma_kind a \<in> set (mr_kinds rules)")
  case True
  have "list_ex (\<lambda>m. map ascii_lower m = map ascii_lower (ma_mime a)) (mr_mime_types rules)
      \<longleftrightarrow> map ascii_lower (ma_mime a) \<in> map ascii_lower ` set (mr_mime_types rules)"
    by (auto simp: list_ex_iff image_iff) metis+
  with True show ?thesis
    by (simp add: check_asset_def asset_ok_def check_dimensions_iff check_aspect_iff check_duration_iff
        within_iff outside_def split: option.split)
qed (auto simp: check_asset_def asset_ok_def Let_def)

lemma check_use_iff:
  "check_use media rules path place i = [] \<longleftrightarrow> (\<exists>a. find_asset media i = Some a \<and> asset_ok rules a)"
  by (simp add: check_use_def check_asset_iff split: option.split)

lemma check_count_iff:
  "check_count n False rules = [] \<longleftrightarrow> mr_min_count rules \<le> sat32 n \<and> sat32 n \<le> mr_max_count rules"
  by (auto simp: check_count_def Let_def)

lemma check_email_iff:
  "check_email f v = [] \<longleftrightarrow> (fm_id f = F_HtmlEmail \<longrightarrow> (\<exists>d. va_email v = Some d \<and> \<not> blank (ed_subject d)))"
  by (auto simp: check_email_def split: option.split)

lemma attachments_iff:
  "check_attachments media rules items = []
     \<longleftrightarrow> (\<forall>item \<in> set items. \<exists>a. find_asset media (mi_asset item) = Some a \<and> asset_ok rules a)"
proof -
  have "concat (map (\<lambda>(i, item). check_use media rules (indexed ''media'' i) (Some i) (mi_asset item)) (enumerate n items)) = []
      \<longleftrightarrow> (\<forall>item \<in> set items. \<exists>a. find_asset media (mi_asset item) = Some a \<and> asset_ok rules a)" for n
    by (induction items arbitrary: n) (simp_all add: check_use_iff del: concat_eq_Nil_conv)
  then show ?thesis unfolding check_attachments_def .
qed

lemma embedded_iff:
  "check_embedded media rules blocks = []
     \<longleftrightarrow> (\<forall>i \<in> set (List.map_filter block_asset blocks). \<exists>a. find_asset media i = Some a \<and> asset_ok rules a)"
proof -
  have "concat (map (\<lambda>(i, b). case block_asset b of None \<Rightarrow> []
        | Some asset \<Rightarrow> check_use media rules (indexed ''email.blocks'' i) None asset) (enumerate n blocks)) = []
      \<longleftrightarrow> (\<forall>i \<in> set (List.map_filter block_asset blocks). \<exists>a. find_asset media i = Some a \<and> asset_ok rules a)" for n
    by (induction blocks arbitrary: n) (simp_all add: check_use_iff del: concat_eq_Nil_conv split: option.split)
  then show ?thesis unfolding check_embedded_def .
qed

lemma check_format_iff: "check_format uc vi f = [] \<longleftrightarrow> format_ok uc vi f"
proof -
  let ?v = "vi_variant vi" and ?rules = "fm_media f"
  let ?found = "filter (\<lambda>item. find_asset (vi_media vi) (mi_asset item) \<noteq> None) (va_media ?v)"
  have all_used: "(\<forall>i \<in> used_assets ?v. P i) \<longleftrightarrow> (\<forall>item \<in> set (va_media ?v). P (mi_asset item))
      \<and> (case va_email ?v of None \<Rightarrow> True | Some d \<Rightarrow> \<forall>i \<in> set (List.map_filter block_asset (ed_blocks d)). P i)" for P
    by (auto simp: used_assets_def email_media_ids_def split: option.split)
  have found: "?found = va_media ?v" if "\<forall>item \<in> set (va_media ?v). \<exists>a. find_asset (vi_media vi) (mi_asset item) = Some a \<and> asset_ok ?rules a"
    using that by (intro filter_True) auto
  show ?thesis
  proof (cases "check_attachments (vi_media vi) ?rules (va_media ?v) = []")
    case True
    then have "?found = va_media ?v" using found by (simp only: attachments_iff)
    then have "check_format uc vi f = check_text uc ?v f
        @ (case va_email ?v of None \<Rightarrow> [] | Some d \<Rightarrow> check_embedded (vi_media vi) ?rules (ed_blocks d))
        @ check_count (length (va_media ?v)) False ?rules @ check_email f ?v"
      using True by (simp add: check_format_def Let_def)
    moreover have "format_ok uc vi f \<longleftrightarrow> text_ok uc (fm_text f) ?v
        \<and> (case va_email ?v of None \<Rightarrow> True | Some d \<Rightarrow> \<forall>i \<in> set (List.map_filter block_asset (ed_blocks d)).
             \<exists>a. find_asset (vi_media vi) i = Some a \<and> asset_ok ?rules a)
        \<and> check_count (length (va_media ?v)) False ?rules = [] \<and> check_email f ?v = []"
      using True unfolding format_ok_def all_used attachments_iff check_count_iff check_email_iff by blast
    ultimately show ?thesis by (cases "va_email ?v") (simp_all add: check_text_iff embedded_iff)
  next
    case False
    then have "check_format uc vi f \<noteq> []" by (simp add: check_format_def Let_def)
    moreover have "\<not> format_ok uc vi f"
      using False unfolding format_ok_def all_used attachments_iff by blast
    ultimately show ?thesis by blast
  qed
qed

section \<open>The choice of the format\<close>

lemma find_earliest: "find P xs = Some x \<longleftrightarrow> earliest P xs x"
proof (induction xs)
  case (Cons y ys)
  show ?case
  proof (cases "P y")
    case True
    then show ?thesis
      by (auto simp: earliest_def Cons_eq_append_conv intro: exI [of _ "[]"])
  next
    case False
    then have "earliest P (y # ys) x \<longleftrightarrow> earliest P ys x"
      unfolding earliest_def
      by (auto simp: Cons_eq_append_conv) (metis append_Cons set_ConsD)
    with False Cons show ?thesis by simp
  qed
qed (simp add: earliest_def)

lemma selected_iff: "selected v = named_by_options v"
  by (rule ext) (auto simp: selected_def named_by_options_def split: option.split)

lemma short_clip_iff: "is_vertical a \<and> fits_short_video d a \<longleftrightarrow> upright_clip d a"
  unfolding upright_clip_def is_vertical_def fits_short_video_def find_earliest [symmetric]
  by (auto split: option.splits)

lemma declared_iff: "declared d media i = Some f \<longleftrightarrow>
    fm_id f = i \<and> earliest (\<lambda>g. fm_id g = i \<and> usable media g) (ad_formats d) f"
proof -
  have "(\<lambda>g. fm_id g = i \<and> (i \<noteq> F_Text \<or> media = [] \<or> text_takes g media)) = (\<lambda>g. fm_id g = i \<and> usable media g)"
    by (auto simp: usable_def text_takes_def Let_def list_all_iff)
  then show ?thesis by (auto simp: declared_def find_earliest earliest_def)
qed

lemma declared_None: "declared d media i = None \<longleftrightarrow> (\<forall>g \<in> set (ad_formats d). usable media g \<longrightarrow> fm_id g \<noteq> i)"
  by (auto simp: declared_def find_None_iff usable_def text_takes_def Let_def list_all_iff)

lemma candidates_media_cases:
  obtains "media = []" | a where "media = [a]" | a b rest where "media = a # b # rest"
  by (cases media rule: remdups_adj.cases) auto

lemma ranked_iff:
  "ranked d v media i n \<longleftrightarrow> n < length (candidates d v media) \<and> candidates d v media ! n = i"
proof (cases "va_email v \<noteq> None")
  case True
  then show ?thesis by (auto simp: ranked_def candidates_def)
next
  case False
  then show ?thesis
    by (cases media rule: candidates_media_cases)
      (auto simp: ranked_def candidates_def less_Suc_eq short_clip_iff list_all_iff split: MediaKind.split)
qed

lemma candidates_distinct: "distinct (candidates d v media)"
  by (auto simp: candidates_def split: list.split MediaKind.split)

lemma map_filter_first:
  "(\<exists>ys. List.map_filter g xs = y # ys) \<longleftrightarrow> (\<exists>n < length xs. g (xs ! n) = Some y \<and> (\<forall>m < n. g (xs ! m) = None))"
proof (induction xs)
  case (Cons x xs)
  show ?case
  proof (cases "g x")
    case None
    have "(\<exists>n < length (x # xs). g ((x # xs) ! n) = Some y \<and> (\<forall>m < n. g ((x # xs) ! m) = None))
        \<longleftrightarrow> (\<exists>n < length xs. g (xs ! n) = Some y \<and> (\<forall>m < n. g (xs ! m) = None))"
      using None by (auto simp: Ex_less_Suc2 All_less_Suc2)
    with None Cons show ?thesis by simp
  next
    case (Some z)
    then show ?thesis by (auto simp: Ex_less_Suc2 All_less_Suc2)
  qed
qed simp

lemma pick_format_chosen: "pick_format d v media = Inr f \<longleftrightarrow> chosen d v media f"
proof (cases "find (selected v) (ad_formats d)")
  case (Some g)
  then have "earliest (named_by_options v) (ad_formats d) f \<longleftrightarrow> f = g"
    using find_earliest [of "selected v" "ad_formats d" f] by (auto simp: selected_iff)
  moreover have "\<exists>g \<in> set (ad_formats d). named_by_options v g"
    using Some by (auto simp: find_Some_iff selected_iff)
  ultimately show ?thesis using Some by (auto simp: pick_format_def chosen_def)
next
  case None
  let ?cs = "candidates d v media"
  have none: "\<forall>g \<in> set (ad_formats d). \<not> named_by_options v g"
    using None by (auto simp: find_None_iff selected_iff)
  have "pick_format d v media = Inr f \<longleftrightarrow> (\<exists>ys. List.map_filter (declared d media) ?cs = f # ys)"
    using None by (auto simp: pick_format_def Let_def split: list.split)
  also have "\<dots> \<longleftrightarrow> (\<exists>n. ranked d v media (fm_id f) n \<and> declared d media (fm_id f) = Some f
      \<and> (\<forall>m < n. declared d media (?cs ! m) = None))"
    unfolding map_filter_first ranked_iff using declared_iff by metis
  also have "\<dots> \<longleftrightarrow> chosen d v media f"
  proof -
    have "(\<forall>m < n. declared d media (?cs ! m) = None)
        \<longleftrightarrow> (\<forall>g \<in> set (ad_formats d). \<forall>m. usable media g \<and> ranked d v media (fm_id g) m \<longrightarrow> n \<le> m)"
      if "n < length ?cs" for n
      unfolding ranked_iff declared_None
    proof (intro iffI allI ballI impI)
      fix g m
      assume none: "\<forall>m < n. \<forall>g \<in> set (ad_formats d). usable media g \<longrightarrow> fm_id g \<noteq> ?cs ! m"
        and g: "g \<in> set (ad_formats d)" "usable media g \<and> m < length ?cs \<and> ?cs ! m = fm_id g"
      then have "\<not> m < n" by metis
      then show "n \<le> m" by simp
    next
      fix m g
      assume least: "\<forall>g \<in> set (ad_formats d). \<forall>m. usable media g \<and> m < length ?cs \<and> ?cs ! m = fm_id g \<longrightarrow> n \<le> m"
        and g: "m < n" "g \<in> set (ad_formats d)" "usable media g"
      have "n \<le> m" if "fm_id g = ?cs ! m" using least g that \<open>n < length ?cs\<close> by auto
      then show "fm_id g \<noteq> ?cs ! m" using \<open>m < n\<close> by auto
    qed
    moreover have "\<not> earliest (named_by_options v) (ad_formats d) f"
      using none by (auto simp: earliest_def)
    ultimately show ?thesis
      using none unfolding chosen_def declared_iff ranked_iff by auto
  qed
  finally show ?thesis .
qed

lemma validate_target_iff: "validate_target uc vi = [] \<longleftrightarrow> publishable uc vi"
proof -
  let ?pick = "pick_format (vi_descriptor vi) (vi_variant vi) (resolved_media vi)"
  have "(case ?pick of Inr f \<Rightarrow> check_format uc vi f | Inl x \<Rightarrow> [x]) = []
      \<longleftrightarrow> (\<exists>f. chosen (vi_descriptor vi) (vi_variant vi) (resolved_media vi) f \<and> format_ok uc vi f)"
    unfolding pick_format_chosen [symmetric] by (cases ?pick) (auto simp: check_format_iff)
  then show ?thesis
    by (auto simp: validate_target_def publishable_def Let_def resolved_media_def kind_violations_iff
        check_schedule_iff validate_options_iff)
qed

section \<open>The floating-point test of a ratio\<close>

lemma ilog2_le: "0 < n \<Longrightarrow> 2 ^ ilog2 n \<le> n"
proof (induction n rule: ilog2.induct)
  case (1 n)
  show ?case
  proof (cases "n \<le> 1")
    case True
    then show ?thesis using 1 by (simp add: ilog2.simps)
  next
    case False
    then have "2 ^ ilog2 (n div 2) \<le> n div 2" using 1 by simp
    then show ?thesis using False by (subst ilog2.simps) simp
  qed
qed

lemma round_div_error:
  assumes "0 < d"
  shows "\<bar>2 * (d * round_div n d - n)\<bar> \<le> d"
proof -
  let ?q = "n div d" and ?r = "n mod d"
  have r: "0 \<le> ?r" "?r < d" using assms by simp_all
  have "(round_div n d = ?q \<and> 2 * ?r \<le> d) \<or> (round_div n d = ?q + 1 \<and> d \<le> 2 * ?r)"
    by (simp add: round_div_def Let_def)
  then show ?thesis
  proof
    assume down: "round_div n d = ?q \<and> 2 * ?r \<le> d"
    then have "d * round_div n d - n = - ?r" using mult_div_mod_eq [of d n] by (simp add: algebra_simps)
    then show ?thesis using down r by simp
  next
    assume up: "round_div n d = ?q + 1 \<and> d \<le> 2 * ?r"
    then have "d * round_div n d - n = d - ?r" using mult_div_mod_eq [of d n] by (simp add: algebra_simps)
    then show ?thesis using up r by simp
  qed
qed

lemma abs_half_le: "\<bar>2 * (x - y)\<bar> \<le> e \<Longrightarrow> \<bar>x - y\<bar> \<le> e" for x y e :: int
  by (auto simp: abs_if split: if_splits)

lemma round53_error:
  assumes "0 < d" and "n < d * 2 ^ m" and "52 \<le> m"
  shows "\<bar>d * round53 n d - n\<bar> \<le> d * 2 ^ (m - 52)"
proof -
  define u :: int where "u = 2 ^ (ilog2 (n div d) - 52)"
  have u: "u \<le> 2 ^ (m - 52)"
  proof (cases "n div d \<le> 0")
    case True
    then show ?thesis by (simp add: u_def ilog2.simps)
  next
    case False
    then have "2 ^ ilog2 (n div d) \<le> n div d" using ilog2_le by simp
    also have "n div d < 2 ^ m"
    proof (rule ccontr)
      assume "\<not> n div d < 2 ^ m"
      then have "d * 2 ^ m \<le> d * (n div d)" using assms(1) by (simp add: mult_left_mono)
      also have "\<dots> \<le> n" using assms(1) using pos_mod_sign [of d n] mult_div_mod_eq [of d n] by linarith
      finally show False using assms(2) by simp
    qed
    finally have "ilog2 (n div d) < m" by simp
    then show ?thesis by (simp add: u_def)
  qed
  have "\<bar>2 * (d * u * round_div n (d * u) - n)\<bar> \<le> d * u"
    using assms(1) by (intro round_div_error) (simp add: u_def)
  moreover have "d * u * round_div n (d * u) = d * round53 n d"
    by (simp add: round53_def Let_def algebra_simps flip: u_def)
  moreover have "d * u \<le> d * 2 ^ (m - 52)" using u assms(1) by (simp add: mult_left_mono)
  ultimately show ?thesis by (metis abs_half_le order_trans)
qed

lemma f64_div_error:
  assumes "0 < b" and "a < 2 ^ 32"
  shows "\<bar>int b * f64_div a b - int a * 2 ^ 100\<bar> \<le> int b * 2 ^ 80"
proof -
  have "int a * f64_one < 2 ^ 132" using assms(2) by (simp add: f64_one_def)
  also have "(2::int) ^ 132 \<le> int b * 2 ^ 132" using assms(1) by simp
  finally have "\<bar>int b * round53 (int a * f64_one) (int b) - int a * f64_one\<bar> \<le> int b * 2 ^ (132 - 52)"
    using assms(1) by (intro round53_error) simp_all
  then show ?thesis by (simp add: f64_div_def f64_one_def)
qed

lemma f64_round_error:
  assumes "\<bar>x\<bar> < 2 ^ 134"
  shows "\<bar>f64_round x - x\<bar> \<le> 2 ^ 82"
proof -
  have "\<bar>round53 (\<bar>x\<bar>) 1 - (\<bar>x\<bar>)\<bar> \<le> 2 ^ 82"
    using round53_error [of 1 "\<bar>x\<bar>" 134] assms by simp
  then show ?thesis by (auto simp: f64_round_def abs_if split: if_splits)
qed

lemma f64_div_size:
  assumes "0 < b" and "a < 2 ^ 32"
  shows "\<bar>f64_div a b\<bar> < 2 ^ 133"
proof -
  have a: "int a \<le> int b * 2 ^ 32"
    using assms mult_mono [of 1 "int b" "int a" "2 ^ 32"] by simp
  have "\<bar>int b * f64_div a b\<bar> \<le> int b * (2 ^ 80 + 2 ^ 132)"
    using f64_div_error [OF assms] a by (simp add: abs_le_iff)
  then have "int b * \<bar>f64_div a b\<bar> \<le> int b * (2 ^ 80 + 2 ^ 132)" by (simp add: abs_mult)
  then show ?thesis using assms(1) by simp
qed

text \<open>Quotients that differ by \<open>k\<close> thousandths still differ by almost as much after rounding.\<close>

lemma f64_div_gap:
  assumes "0 < b" "a < 2 ^ 32" "0 < d" "c < 2 ^ 32" and gap: "1000 * (a * d) + k * (b * d) \<le> 1000 * (c * b)"
  shows "1000 * f64_div a b + int k * 2 ^ 100 \<le> 1000 * (f64_div c d + 2 ^ 81)"
proof -
  let ?A = "f64_div a b" and ?C = "f64_div c d" and ?P = "2 ^ 100 :: int"
  have "int b * ?A \<le> int a * ?P + int b * 2 ^ 80" using f64_div_error [of b a] assms by simp
  then have A: "int d * (int b * ?A) \<le> int d * (int a * ?P + int b * 2 ^ 80)" by (simp add: mult_left_mono)
  have "int c * ?P \<le> int d * ?C + int d * 2 ^ 80" using f64_div_error [of d c] assms by simp
  then have C: "int b * (int c * ?P) \<le> int b * (int d * ?C + int d * 2 ^ 80)" by (simp add: mult_left_mono)
  have "1000 * (int a * int d) + int k * (int b * int d) \<le> 1000 * (int c * int b)"
    using gap by (metis of_nat_add of_nat_le_iff of_nat_mult of_nat_numeral)
  then have g: "(1000 * (int a * int d) + int k * (int b * int d)) * ?P \<le> (1000 * (int c * int b)) * ?P"
    by (rule mult_right_mono) simp
  have "(int b * int d) * (1000 * ?A + int k * ?P) \<le> (int b * int d) * (1000 * (?C + 2 ^ 81))"
    using A C g by (simp add: algebra_simps)
  then show ?thesis using assms(1,3) by (simp add: zero_less_mult_iff)
qed

lemma epsilon_size: "2 ^ 90 \<le> ASPECT_EPSILON" "1000 * ASPECT_EPSILON \<le> 2 ^ 100 + 1000 * 2 ^ 80"
proof -
  have "\<bar>1000 * ASPECT_EPSILON - 2 ^ 100\<bar> \<le> 1000 * 2 ^ 80"
    using f64_div_error [of 1000 1] by (simp add: ASPECT_EPSILON_def)
  then show "2 ^ 90 \<le> ASPECT_EPSILON" "1000 * ASPECT_EPSILON \<le> 2 ^ 100 + 1000 * 2 ^ 80" by simp_all
qed

text \<open>An inclusive comparison of two quotients of sizes \<^verbatim>\<open>u32\<close>, \<open>k\<close> thousandths apart.\<close>

definition ratio_le :: "nat \<Rightarrow> nat \<times> nat \<Rightarrow> nat \<times> nat \<Rightarrow> bool" where
  "ratio_le k x y \<longleftrightarrow> 1000 * (fst x * snd y) + k * (snd x * snd y) \<le> 1000 * (fst y * snd x)"

definition sides :: "AspectRatio \<Rightarrow> nat \<times> nat" where
  "sides r = (ar_width r, ar_height r)"

definition u32_sides :: "nat \<times> nat \<Rightarrow> bool" where
  "u32_sides x \<longleftrightarrow> 0 < fst x \<and> fst x < 2 ^ 32 \<and> 0 < snd x \<and> snd x < 2 ^ 32"

lemma f64_near:
  assumes "0 < b" "a < 2 ^ 32"
  shows "\<bar>f64_round (f64_div a b - ASPECT_EPSILON) - (f64_div a b - ASPECT_EPSILON)\<bar> \<le> 2 ^ 82"
    and "\<bar>f64_round (f64_div a b + ASPECT_EPSILON) - (f64_div a b + ASPECT_EPSILON)\<bar> \<le> 2 ^ 82"
proof -
  have small: "\<bar>f64_div a b - ASPECT_EPSILON\<bar> < 2 ^ 134" "\<bar>f64_div a b + ASPECT_EPSILON\<bar> < 2 ^ 134"
    using f64_div_size [OF assms] epsilon_size by simp_all
  show "\<bar>f64_round (f64_div a b - ASPECT_EPSILON) - (f64_div a b - ASPECT_EPSILON)\<bar> \<le> 2 ^ 82"
    and "\<bar>f64_round (f64_div a b + ASPECT_EPSILON) - (f64_div a b + ASPECT_EPSILON)\<bar> \<le> 2 ^ 82"
    by (fact f64_round_error [OF small(1)], fact f64_round_error [OF small(2)])
qed

lemma in_range_of_ratio:
  assumes "u32_sides (w, h)" "u32_sides (sides (rng_min r))" "u32_sides (sides (rng_max r))"
    and "ratio_le 0 (sides (rng_min r)) (w, h)" "ratio_le 0 (w, h) (sides (rng_max r))"
  shows "in_range (f64_div w h) r"
proof -
  let ?lo = "rng_min r" and ?hi = "rng_max r"
  have "ratio_f64 ?lo \<le> f64_div w h + 2 ^ 81" "f64_div w h \<le> ratio_f64 ?hi + 2 ^ 81"
    using assms f64_div_gap [of "ar_height ?lo" "ar_width ?lo" h w 0] f64_div_gap [of h w "ar_height ?hi" "ar_width ?hi" 0]
    by (simp_all add: u32_sides_def sides_def ratio_le_def ratio_f64_def)
  moreover have "\<bar>f64_round (ratio_f64 ?lo - ASPECT_EPSILON) - (ratio_f64 ?lo - ASPECT_EPSILON)\<bar> \<le> 2 ^ 82"
      "\<bar>f64_round (ratio_f64 ?hi + ASPECT_EPSILON) - (ratio_f64 ?hi + ASPECT_EPSILON)\<bar> \<le> 2 ^ 82"
    using assms f64_near by (simp_all add: u32_sides_def sides_def ratio_f64_def)
  ultimately show ?thesis using epsilon_size(1) unfolding in_range_def by auto
qed

lemma ratio_of_in_range:
  assumes "u32_sides (w, h)" "u32_sides (sides (rng_min r))" "u32_sides (sides (rng_max r))"
    and "in_range (f64_div w h) r"
  shows "\<not> ratio_le 2 (w, h) (sides (rng_min r))" and "\<not> ratio_le 2 (sides (rng_max r)) (w, h)"
proof -
  let ?lo = "rng_min r" and ?hi = "rng_max r"
  have near: "\<bar>f64_round (ratio_f64 ?lo - ASPECT_EPSILON) - (ratio_f64 ?lo - ASPECT_EPSILON)\<bar> \<le> 2 ^ 82"
      "\<bar>f64_round (ratio_f64 ?hi + ASPECT_EPSILON) - (ratio_f64 ?hi + ASPECT_EPSILON)\<bar> \<le> 2 ^ 82"
    using assms f64_near by (simp_all add: u32_sides_def sides_def ratio_f64_def)
  show "\<not> ratio_le 2 (w, h) (sides ?lo)"
  proof
    assume "ratio_le 2 (w, h) (sides ?lo)"
    then have "1000 * f64_div w h + 2 * 2 ^ 100 \<le> 1000 * (ratio_f64 ?lo + 2 ^ 81)"
      using assms f64_div_gap [of h w "ar_height ?lo" "ar_width ?lo" 2]
      by (simp add: u32_sides_def sides_def ratio_le_def ratio_f64_def)
    then show False using near epsilon_size(2) assms(4) unfolding in_range_def by simp
  qed
  show "\<not> ratio_le 2 (sides ?hi) (w, h)"
  proof
    assume "ratio_le 2 (sides ?hi) (w, h)"
    then have "1000 * ratio_f64 ?hi + 2 * 2 ^ 100 \<le> 1000 * (f64_div w h + 2 ^ 81)"
      using assms f64_div_gap [of "ar_height ?hi" "ar_width ?hi" h w 2]
      by (simp add: u32_sides_def sides_def ratio_le_def ratio_f64_def)
    then show False using near epsilon_size(2) assms(4) unfolding in_range_def by simp
  qed
qed

section \<open>Registered descriptors\<close>

definition bucket_ok :: "QuotaBucket \<Rightarrow> bool" where
  "bucket_ok b \<longleftrightarrow> 0 < qb_default_limit b \<and> qb_reset_time_zone b \<noteq> [] \<and> \<not> costs_zero (qb_costs b)"

definition selector_ok :: "unicode \<Rightarrow> OptionsSchema \<Rightarrow> FormatSpec \<Rightarrow> bool" where
  "selector_ok uc schema f \<longleftrightarrow>
     (\<forall>sel. fm_selected_by f = Some sel \<longrightarrow>
        (\<exists>fld. find (\<lambda>fld. sf_name fld = fs_option sel) schema = Some fld
           \<and> accepts (uc_graphemes uc) (uc_rfc3339 uc) fld (JString (fs_value sel))))"

definition descriptor_ok :: "unicode \<Rightarrow> AgentDescriptor \<Rightarrow> bool" where
  "descriptor_ok uc d \<longleftrightarrow>
     ad_formats d \<noteq> [] \<and> distinct (map fm_id (ad_formats d)) \<and> is_hex_color (ad_brand_color d)
     \<and> ad_icon_png d \<noteq> [] \<and> (ad_kind d = Direct \<longrightarrow> DirectSender \<in> set (ad_capabilities d))
     \<and> (ad_native_schedule d \<noteq> None \<longleftrightarrow> NativeScheduler \<in> set (ad_capabilities d))
     \<and> (\<forall>w. ad_native_schedule d = Some w \<longrightarrow> nw_min_lead_secs w \<le> nw_max_lead_secs w)
     \<and> list_all (selector_ok uc (ad_options_schema d)) (ad_formats d)
     \<and> distinct (map qb_id (ad_quota_buckets d)) \<and> list_all bucket_ok (ad_quota_buckets d)"

lemma formats_distinct:
  "(\<exists>r. foldE (\<lambda>seen f. if fm_id f \<in> set seen then Inl (DuplicateFormat (fm_id f)) else Inr (seen @ [fm_id f])) seen fs = Inr r)
   \<longleftrightarrow> distinct (map fm_id fs) \<and> fm_id ` set fs \<inter> set seen = {}"
  by (induction fs arbitrary: seen) auto

lemma selectors_ok:
  "foldE (check_selector uc schema) u fs = Inr () \<longleftrightarrow> list_all (selector_ok uc schema) fs"
  by (induction fs arbitrary: u)
    (auto simp: check_selector_def selector_ok_def split: option.splits if_splits)

lemma buckets_ok:
  "(\<exists>r. foldE check_bucket seen bs = Inr r)
   \<longleftrightarrow> distinct (map qb_id bs) \<and> qb_id ` set bs \<inter> set seen = {} \<and> list_all bucket_ok bs"
  by (induction bs arbitrary: seen) (auto simp: check_bucket_def bucket_ok_def)

lemma validate_descriptor_iff: "validate_descriptor uc d = Inr () \<longleftrightarrow> descriptor_ok uc d"
proof -
  have formats: "(\<exists>r. check_formats (ad_formats d) = Inr r) \<longleftrightarrow> distinct (map fm_id (ad_formats d))"
    unfolding check_formats_def formats_distinct by simp
  have buckets: "(\<exists>r. foldE check_bucket [] (ad_quota_buckets d) = Inr r)
      \<longleftrightarrow> distinct (map qb_id (ad_quota_buckets d)) \<and> list_all bucket_ok (ad_quota_buckets d)"
    unfolding buckets_ok by simp
  have window: "check_window d = Inr () \<longleftrightarrow>
      (NativeScheduler \<in> set (ad_capabilities d) \<longrightarrow> ad_native_schedule d \<noteq> None)
      \<and> (\<forall>w. ad_native_schedule d = Some w \<longrightarrow> nw_min_lead_secs w \<le> nw_max_lead_secs w)"
    by (auto simp: check_window_def split: option.split)
  show ?thesis
    unfolding validate_descriptor_def descriptor_ok_def
    using formats buckets window selectors_ok [of uc "ad_options_schema d" "()" "ad_formats d"]
    by (auto simp: result_simps)
qed

definition registry_ok :: "unicode \<Rightarrow> AgentRegistry \<Rightarrow> bool" where
  "registry_ok uc registry \<longleftrightarrow>
     (\<forall>p d. registry_get registry p = Some d \<longrightarrow> ad_platform d = p \<and> descriptor_ok uc d)"

section \<open>Overrides\<close>

lemma lefts_Nil_iff: "lefts xs = [] \<longleftrightarrow> (\<forall>x \<in> set xs. \<exists>b. x = Inr b)"
  by (induction xs) (auto simp: lefts_def List.map_filter_simps split: sum.splits)

lemma map_rights: "lefts xs = [] \<Longrightarrow> map Inr (rights xs) = xs"
  by (induction xs) (auto simp: lefts_def rights_def List.map_filter_simps split: sum.splits)

lemma override_item_iff:
  "(\<exists>b. override_item post target ids i = Inr b)
     \<longleftrightarrow> ids ! i \<notin> set (take i ids) \<and> ids ! i \<in> mi_asset ` set (po_media post)"
proof (cases "find (\<lambda>item. mi_asset item = ids ! i) (po_media post)")
  case None
  then have "ids ! i \<notin> mi_asset ` set (po_media post)" by (auto simp: find_None_iff)
  with None show ?thesis by (simp add: override_item_def Let_def)
next
  case (Some item)
  then obtain j where "j < length (po_media post)" "mi_asset (po_media post ! j) = ids ! i"
    by (auto simp: find_Some_iff)
  then have "ids ! i \<in> mi_asset ` set (po_media post)" by (metis image_eqI nth_mem)
  with Some show ?thesis by (simp add: override_item_def Let_def)
qed

lemma override_item_Inr:
  "override_item post target ids i = Inr b \<Longrightarrow> mi_asset b = ids ! i \<and> b \<in> set (po_media post)"
  by (auto simp: override_item_def Let_def find_Some_iff split: option.splits if_splits)

lemma distinct_by_prefix: "distinct xs \<longleftrightarrow> (\<forall>i < length xs. xs ! i \<notin> set (take i xs))"
  by (induction xs rule: rev_induct) (auto simp: nth_append less_Suc_eq)

lemma override_media:
  fixes post target ids
  defines "items \<equiv> map (override_item post target ids) [0..<length ids]"
  assumes "lefts items = []"
  shows "map mi_asset (rights items) = ids" and "set (rights items) \<subseteq> set (po_media post)"
proof -
  have items: "map Inr (rights items) = items" by (rule map_rights [OF assms(2)])
  then have len: "length (rights items) = length ids" by (metis assms(1) length_map length_upt minus_nat.diff_0)
  have item: "override_item post target ids i = Inr (rights items ! i)" if "i < length ids" for i
    using arg_cong [OF items, of "\<lambda>xs. xs ! i"] that len by (simp add: items_def)
  have "map mi_asset (rights items) ! i = ids ! i" if "i < length ids" for i
    using override_item_Inr [OF item [OF that]] that len by simp
  then show "map mi_asset (rights items) = ids" using len by (intro nth_equalityI) simp_all
  show "set (rights items) \<subseteq> set (po_media post)"
    using override_item_Inr [OF item] len by (auto simp: in_set_conv_nth)
qed

lemma override_allowed:
  "lefts (map (override_item post target ids) [0..<length ids]) = []
     \<longleftrightarrow> distinct ids \<and> set ids \<subseteq> mi_asset ` set (po_media post)"
proof -
  have "lefts (map (override_item post target ids) [0..<length ids]) = []
      \<longleftrightarrow> (\<forall>i < length ids. ids ! i \<notin> set (take i ids) \<and> ids ! i \<in> mi_asset ` set (po_media post))"
    by (auto simp: lefts_Nil_iff simp flip: override_item_iff [of post target])
  also have "\<dots> \<longleftrightarrow> distinct ids \<and> set ids \<subseteq> mi_asset ` set (po_media post)"
    unfolding distinct_by_prefix [of ids] by (auto simp: set_conv_nth)
  finally show ?thesis .
qed

section \<open>Samples\<close>

definition ratio :: "nat \<Rightarrow> nat \<Rightarrow> AspectRatio" where
  "ratio w h = \<lparr>ar_width = w, ar_height = h\<rparr>"

definition sample_rules :: MediaRules where
  "sample_rules = no_media\<lparr>mr_max_count := 1, mr_kinds := [MK_Image],
     mr_aspect_ratios := [\<lparr>rng_min = ratio 4 5, rng_max = ratio 191 100, rng_preferred = ratio 1 1\<rparr>]\<rparr>"

definition sample_asset :: MediaAsset where
  "sample_asset = \<lparr>ma_id = 7, ma_owner_id = 1, ma_kind = MK_Image, ma_mime = ''image/png'', ma_bytes = 10,
     ma_width = Some 1080, ma_height = Some 1350, ma_duration_ms = None, ma_sha256 = None,
     ma_state = MA_Ready, ma_derived_from = None\<rparr>"

definition plain_unicode :: unicode where
  "plain_unicode = \<lparr>uc_graphemes = bytes_as_graphemes, uc_nfc = (\<lambda>s. s), uc_lowercase = map ascii_lower,
     uc_alphanumeric = (\<lambda>n. 48 \<le> n \<and> n \<le> 57), uc_rfc3339 = (\<lambda>_. True)\<rparr>"

definition sample_text_format :: FormatSpec where
  "sample_text_format = \<lparr>fm_id = F_Text,
     fm_text = \<lparr>tr_measure = Bytes, tr_max = 280, tr_required = True, tr_includes_link_and_tags = True\<rparr>,
     fm_media = sample_rules,
     fm_selected_by = Some \<lparr>fs_option = ''privacy'', fs_value = ''public''\<rparr>\<rparr>"

definition sample_agent :: AgentDescriptor where
  "sample_agent = \<lparr>ad_platform = ''acme'', ad_display_name = ''Acme'', ad_icon_png = [1],
     ad_brand_color = ''#12aBcF'', ad_kind = Broadcast, ad_formats = [sample_text_format],
     ad_capabilities = [NativeScheduler], ad_config_schema_version = 1,
     ad_native_schedule = Some \<lparr>nw_min_lead_secs = 10, nw_max_lead_secs = 60\<rparr>,
     ad_quota_buckets = [], ad_options_schema = sample_schema\<rparr>"

definition sample_post :: Post where
  "sample_post = \<lparr>po_kind = PK_Post, po_text = ''hello'',
     po_media = [\<lparr>mi_asset = 7, mi_alt_text = None\<rparr>, \<lparr>mi_asset = 8, mi_alt_text = Some ''b''\<rparr>],
     po_link = None, po_tags = [], po_disclose_ai_generated = False, po_reply_to = None\<rparr>"

definition sample_target :: AccountRef where
  "sample_target = \<lparr>acr_platform = ''acme'', acr_account = 3, acr_remote_id = ''r''\<rparr>"

definition sample_override :: PostOverride where
  "sample_override = \<lparr>ov_text = None, ov_link = None, ov_tags = None, ov_media = Some [8, 7], ov_email = None,
     ov_options = []\<rparr>"

definition sample_target_input :: ValidationInput where
  "sample_target_input = \<lparr>vi_descriptor = sample_agent, vi_options_schema = sample_schema,
     vi_variant = (variant_of sample_post sample_target)\<lparr>va_media := [], va_options := [(''token'', JString ''t'')]\<rparr>, vi_media = [],
     vi_schedule = Sch_At 30000000000 True, vi_now = 0\<rparr>"

section \<open>Properties\<close>

text \<open>
  C14: the check of a target is equivalent to the rules. Unless the check panics, which it does
  exactly for a native schedule whose window has a bound over \<^verbatim>\<open>i64::MAX\<close> milliseconds, it reports
  nothing exactly when the target is publishable: a comment and nothing else answers something; a
  time lies no more than a minute back and, where the platform holds the post, inside its window; the
  agent declares a format for the content (\<open>chosen\<close>: the one the options name, else the best ranked
  one for the media, link and email of the target), and the rules of that format hold of the text as
  sent, of every asset used in the attachments or in the email, of the number of attachments and of
  the email document; and the options conform to the schema.
\<close>

theorem target_check_matches_rules:
  assumes "\<not> window_panics vi"
  shows "validate_target uc vi = [] \<longleftrightarrow> publishable uc vi"
  by (rule validate_target_iff)

theorem target_check_matches_rules_witness:
  "\<not> window_panics sample_target_input \<and> publishable plain_unicode sample_target_input"
proof -
  have "\<not> window_panics sample_target_input" by code_simp
  moreover have "validate_target plain_unicode sample_target_input = []" by code_simp
  ultimately show ?thesis using target_check_matches_rules [of sample_target_input plain_unicode] by blast
qed

text \<open>
  C20: the ratio test decides within two thousandths in spite of its floating point. For sides that
  are positive 32-bit numbers, an image whose exact ratio lies inside an allowed range is never
  refused for its ratio, and one that is accepted lies within two thousandths of such a range.
\<close>

theorem aspect_check_decides_within_two_thousandths:
  assumes "ma_width a = Some w" "ma_height a = Some h" "u32_sides (w, h)" "mr_aspect_ratios rules \<noteq> []"
    and "\<forall>r \<in> set (mr_aspect_ratios rules). u32_sides (sides (rng_min r)) \<and> u32_sides (sides (rng_max r))"
  shows "((\<exists>r \<in> set (mr_aspect_ratios rules).
             ratio_le 0 (sides (rng_min r)) (w, h) \<and> ratio_le 0 (w, h) (sides (rng_max r)))
            \<longrightarrow> check_aspect a rules path = [])
       \<and> (check_aspect a rules path = [] \<longrightarrow>
            (\<exists>r \<in> set (mr_aspect_ratios rules).
               \<not> ratio_le 2 (w, h) (sides (rng_min r)) \<and> \<not> ratio_le 2 (sides (rng_max r)) (w, h)))"
proof -
  have "check_aspect a rules path = [] \<longleftrightarrow> (\<exists>r \<in> set (mr_aspect_ratios rules). in_range (f64_div w h) r)"
    using assms by (auto simp: check_aspect_iff aspect_def u32_sides_def)
  then show ?thesis using in_range_of_ratio ratio_of_in_range assms by blast
qed

theorem aspect_check_decides_within_two_thousandths_witness:
  "check_aspect sample_asset sample_rules ''media[0]'' = []"
  by (rule aspect_check_decides_within_two_thousandths
        [of sample_asset 1080 1350 sample_rules "''media[0]''", THEN conjunct1, rule_format])
    (simp_all add: sample_asset_def sample_rules_def u32_sides_def sides_def ratio_def ratio_le_def)

text \<open>
  C18: every registered descriptor is well-formed. A descriptor that registers has formats of
  distinct kinds, a colour and an icon, the capabilities its kind and its window need, an ordered
  window, selectors that name an option of its schema and a value that option takes, and distinct
  quota buckets that can be charged; it is then found under its platform, nothing registered before
  is replaced, and one that is not well-formed is refused.
\<close>

theorem registry_holds_checked_descriptors:
  assumes "registry_ok uc registry"
  shows "(\<forall>registry'. register uc registry d = Inr registry' \<longrightarrow>
            registry_ok uc registry' \<and> registry_get registry (ad_platform d) = None
            \<and> registry_get registry' = (registry_get registry)(ad_platform d \<mapsto> d))
       \<and> ((\<exists>registry'. register uc registry d = Inr registry')
            \<longleftrightarrow> descriptor_ok uc d \<and> registry_get registry (ad_platform d) = None)"
proof -
  have "register uc registry d = Inr registry' \<longleftrightarrow>
      descriptor_ok uc d \<and> registry_get registry (ad_platform d) = None
      \<and> registry' = obj_insert (ad_platform d) d registry" for registry'
    by (auto simp: register_def registry_get_def result_simps simp flip: validate_descriptor_iff)
  moreover have "registry_get (obj_insert (ad_platform d) d registry) = (registry_get registry)(ad_platform d \<mapsto> d)"
    by (auto simp: registry_get_def)
  ultimately show ?thesis using assms by (auto simp: registry_ok_def)
qed

lemma sample_agent_ok: "descriptor_ok plain_unicode sample_agent"
proof -
  have "validate_descriptor plain_unicode sample_agent = Inr ()" by code_simp
  then show ?thesis by (simp only: validate_descriptor_iff)
qed

theorem registry_holds_checked_descriptors_witness:
  "\<exists>registry'. register plain_unicode [] sample_agent = Inr registry'
     \<and> registry_get registry' ''acme'' = Some sample_agent \<and> registry_ok plain_unicode registry'"
proof -
  have "registry_ok plain_unicode []" by (simp add: registry_ok_def registry_get_def)
  moreover have "registry_get [] (ad_platform sample_agent) = None" by (simp add: registry_get_def)
  moreover have "ad_platform sample_agent = ''acme''" by (simp add: sample_agent_def)
  ultimately show ?thesis
    using registry_holds_checked_descriptors [of plain_unicode "[]" sample_agent] sample_agent_ok
    by (metis fun_upd_same)
qed

text \<open>
  C19: an override publishes only media of the post. It is accepted exactly when the assets it
  names are distinct and all attached to the post; then the variant has these attachments, in the
  order of the override and with the post's alternative texts, the text, link and tags it sets, and
  the post's where it sets none; the kind, what the post answers and whether it is disclosed as made
  by AI are always the post's, the options and the email document are the override's.
\<close>

theorem override_publishes_media_of_the_post:
  "((\<exists>v. resolve_variant post target (Some over) = Inr v) \<longleftrightarrow>
      (\<forall>ids. ov_media over = Some ids \<longrightarrow> distinct ids \<and> set ids \<subseteq> mi_asset ` set (po_media post)))
   \<and> (\<forall>v. resolve_variant post target (Some over) = Inr v \<longrightarrow>
        set (va_media v) \<subseteq> set (po_media post)
        \<and> (case ov_media over of Some ids \<Rightarrow> map mi_asset (va_media v) = ids | None \<Rightarrow> va_media v = po_media post)
        \<and> va_text v = (case ov_text over of Some t \<Rightarrow> t | None \<Rightarrow> po_text post)
        \<and> va_link v = (case ov_link over of Some l \<Rightarrow> l | None \<Rightarrow> po_link post)
        \<and> va_tags v = (case ov_tags over of Some ts \<Rightarrow> ts | None \<Rightarrow> po_tags post)
        \<and> va_kind v = po_kind post \<and> va_reply_to v = po_reply_to post \<and> va_target v = target
        \<and> va_disclose_ai_generated v = po_disclose_ai_generated post
        \<and> va_options v = ov_options over \<and> va_email v = ov_email over)"
proof (cases "ov_media over")
  case None
  then show ?thesis by (auto simp: resolve_variant_def variant_of_def Let_def split: option.split)
next
  case (Some ids)
  let ?items = "map (override_item post target ids) [0..<length ids]"
  show ?thesis
  proof (cases "lefts ?items = []")
    case True
    with Some override_media [OF True] override_allowed [of post target ids] show ?thesis
      by (auto simp: resolve_variant_def variant_of_def Let_def split: option.split)
  next
    case False
    with Some override_allowed [of post target ids] show ?thesis
      by (auto simp: resolve_variant_def Let_def)
  qed
qed

theorem override_publishes_media_of_the_post_witness:
  "\<exists>v. resolve_variant sample_post sample_target (Some sample_override) = Inr v
     \<and> map mi_asset (va_media v) = [8, 7] \<and> va_text v = ''hello''"
proof -
  have "distinct [8, 7 :: nat] \<and> {8, 7} \<subseteq> mi_asset ` set (po_media sample_post)"
    by (simp add: sample_post_def)
  with override_publishes_media_of_the_post [of sample_post sample_target sample_override] show ?thesis
    by (auto simp: sample_override_def sample_post_def)
qed

end
