(* ===== verification/Request.thy ===== *)
theory Request
  imports Validation
begin

text \<open>
  Request assembly: the model of \<^verbatim>\<open>backend/crates/publishing/src/request.rs\<close>. The media service is
  the argument \<open>media\<close>: \<open>media n ids\<close> is what its \<^verbatim>\<open>n\<close>-th call during one run answers when asked
  for the owner's assets \<open>ids\<close>. Its errors other than \<^verbatim>\<open>NotFound\<close> and \<^verbatim>\<open>Data\<close> keep only their text,
  which is all \<^verbatim>\<open>data_error\<close> reads.
\<close>

datatype MediaServiceError = ME_NotFound | ME_Data DataError | ME_Other string

type_synonym media = "nat \<Rightarrow> uuid list \<Rightarrow> MediaServiceError + MediaAsset list"

record Assembled =
  asm_variant :: Variant
  asm_assets :: "MediaAsset list"

datatype AssembleError = VariantMissing | AssetsMissing "uuid list" | AssembleData DataError

definition media_data_error :: "MediaServiceError \<Rightarrow> DataError" where
  "media_data_error e =
     (case e of ME_Data d \<Rightarrow> d | ME_NotFound \<Rightarrow> DE_Conflict ''media not found'' | ME_Other t \<Rightarrow> DE_Conflict t)"

definition dedup :: "uuid list \<Rightarrow> uuid list" where
  "dedup ids = foldl (\<lambda>seen i. if i \<in> set seen then seen else seen @ [i]) [] ids"

definition ready :: "MediaAsset \<Rightarrow> bool" where
  "ready a = (ma_state a = MA_Ready)"

text \<open>The assets that are gone or not ready, asked for one by one from the \<open>n\<close>-th call on.\<close>

fun missing :: "media \<Rightarrow> nat \<Rightarrow> uuid list \<Rightarrow> AssembleError + uuid list" where
  "missing media n [] = Inr []"
| "missing media n (i # ids) =
     (case media n [i] of
        Inl ME_NotFound \<Rightarrow> bindE (missing media (Suc n) ids) (\<lambda>gone. Inr (i # gone))
      | Inl e \<Rightarrow> Inl (AssembleData (media_data_error e))
      | Inr found \<Rightarrow>
          if list_all ready found then missing media (Suc n) ids
          else bindE (missing media (Suc n) ids) (\<lambda>gone. Inr (i # gone)))"

definition ask_again :: "media \<Rightarrow> uuid list \<Rightarrow> AssembleError + MediaAsset list" where
  "ask_again media ids =
     bindE (missing media 1 (dedup ids)) (\<lambda>gone.
       if gone \<noteq> [] then Inl (AssetsMissing gone)
       else
         (case media (Suc (length (dedup ids))) ids of
            Inr assets \<Rightarrow> Inr assets
          | Inl ME_NotFound \<Rightarrow> Inl (AssetsMissing (dedup ids))
          | Inl e \<Rightarrow> Inl (AssembleData (media_data_error e))))"

definition assemble :: "media \<Rightarrow> PublishSnapshot \<Rightarrow> uuid \<Rightarrow> AssembleError + Assembled" where
  "assemble media snapshot account =
     bindE (ok_or VariantMissing (variant_for snapshot account)) (\<lambda>v.
       let ids = variant_media_ids v
       in if ids = [] then Inr \<lparr>asm_variant = v, asm_assets = []\<rparr>
          else
            bindE (case media 0 ids of
                     Inr assets \<Rightarrow> Inr assets
                   | Inl ME_NotFound \<Rightarrow> ask_again media ids
                   | Inl e \<Rightarrow> Inl (AssembleData (media_data_error e))) (\<lambda>assets.
              let unready = map ma_id (filter (\<lambda>a. \<not> ready a) assets)
              in if unready \<noteq> [] then Inl (AssetsMissing (dedup unready))
                 else Inr \<lparr>asm_variant = v, asm_assets = assets\<rparr>))"

section \<open>What an assembled request has\<close>

lemma dedup_step:
  "set (foldl (\<lambda>seen i. if i \<in> set seen then seen else seen @ [i]) acc ids) = set acc \<union> set ids
   \<and> (distinct acc \<longrightarrow> distinct (foldl (\<lambda>seen i. if i \<in> set seen then seen else seen @ [i]) acc ids))"
  by (induction ids arbitrary: acc) auto

lemma set_dedup [simp]: "set (dedup ids) = set ids"
  and distinct_dedup [simp]: "distinct (dedup ids)"
  using dedup_step [of "[]" ids] by (simp_all add: dedup_def)

lemma assembled:
  assumes "assemble media snapshot account = Inr a"
  shows "variant_for snapshot account = Some (asm_variant a)"
    and "acr_account (va_target (asm_variant a)) = account"
    and "list_all ready (asm_assets a)"
proof -
  show v: "variant_for snapshot account = Some (asm_variant a)"
    using assms by (auto simp: assemble_def Let_def result_simps split: if_splits)
  then show "acr_account (va_target (asm_variant a)) = account"
    by (auto simp: variant_for_def find_Some_iff)
  show "list_all ready (asm_assets a)"
    using assms by (auto simp: assemble_def Let_def result_simps list_all_iff filter_empty_conv split: if_splits)
qed

end
