(* ===== verification/Delivery_Quota.thy ===== *)
theory Delivery_Quota
  imports Store Descriptor Backoff
begin

text \<open>
  Quota of one delivery: the model of \<^verbatim>\<open>backend/crates/publishing/src/quota.rs\<close> . Every bucket of
  the descriptor that charges the operation is reserved, all or nothing, and the units taken can be
  given back.

  Time zones and the calendar belong to the crates \<^verbatim>\<open>chrono\<close> and \<^verbatim>\<open>chrono-tz\<close>: they are the
  parameter \<open>cal\<close>, a record of the functions the source calls. A day is an integer. The range of
  \<^verbatim>\<open>chrono\<close>'s dates shows in \<open>next_day\<close> only; \<^verbatim>\<open>+\<close> on a date, which panics at its end, is the
  total function \<open>plus_days\<close> or \<open>plus_months\<close>.

  The buckets of both tables together keep the contract \<open>quota_bucket\<close> once more
  (interpretation \<open>bucket\<close>); what a whole reservation charges and gives back follows from it.
\<close>

section \<open>The calendar\<close>

datatype 'a LocalResult = LR_Single 'a | LR_Ambiguous 'a 'a | LR_None

fun lr_earliest :: "'a LocalResult \<Rightarrow> 'a option" where
  "lr_earliest (LR_Single a) = Some a"
| "lr_earliest (LR_Ambiguous a b) = Some a"
| "lr_earliest LR_None = None"

record 'z calendar =
  parse_zone :: "string \<Rightarrow> 'z option"
  zone_utc :: 'z
  local_date :: "'z \<Rightarrow> timestamp \<Rightarrow> int"
  first_of_month :: "int \<Rightarrow> int option"
  plus_days :: "int \<Rightarrow> nat \<Rightarrow> int"
  next_day :: "int \<Rightarrow> int option"
  plus_months :: "int \<Rightarrow> nat \<Rightarrow> int"
  from_local :: "'z \<Rightarrow> int \<Rightarrow> nat \<Rightarrow> timestamp LocalResult"
  midnight_utc :: "int \<Rightarrow> timestamp"
  max_utc :: timestamp

section \<open>Periods\<close>

text \<open>
  \<^verbatim>\<open>start_of\<close>: the hours \<^verbatim>\<open>1..=24\<close> after a skipped midnight are tried in order.
\<close>

definition start_of :: "'z calendar \<Rightarrow> 'z \<Rightarrow> int \<Rightarrow> timestamp" where
  "start_of cal zone day =
     (case from_local cal zone day 0 of
        LR_Single at \<Rightarrow> at
      | LR_Ambiguous at _ \<Rightarrow> at
      | LR_None \<Rightarrow>
          (case List.map_filter (\<lambda>h. lr_earliest (from_local cal zone day h)) [1..<25] of
             [] \<Rightarrow> midnight_utc cal day
           | at # _ \<Rightarrow> at))"

definition zone_of :: "'z calendar \<Rightarrow> string \<Rightarrow> 'z" where
  "zone_of cal name = (case parse_zone cal name of None \<Rightarrow> zone_utc cal | Some z \<Rightarrow> z)"

definition period :: "'z calendar \<Rightarrow> QuotaBucket \<Rightarrow> timestamp \<Rightarrow> int \<times> timestamp" where
  "period cal bucket now =
     (let zone = zone_of cal (qb_reset_time_zone bucket);
          today = local_date cal zone now;
          (start, next) = (case qb_period bucket of
             QP_Day \<Rightarrow> (today, plus_days cal today 1)
           | QP_Month \<Rightarrow>
               let first = (case first_of_month cal today of None \<Rightarrow> today | Some d \<Rightarrow> d)
               in (first, plus_months cal first 1))
      in (start, start_of cal zone next))"

definition local_day :: "'z calendar \<Rightarrow> string \<Rightarrow> timestamp \<Rightarrow> int \<times> timestamp" where
  "local_day cal name now =
     (let zone = zone_of cal name;
          today = local_date cal zone now
      in (today, case next_day cal today of
            None \<Rightarrow> max_utc cal
          | Some tomorrow \<Rightarrow> start_of cal zone tomorrow))"

section \<open>Limits\<close>

text \<open>
  \<^verbatim>\<open>str::trim\<close>: the characters with the Unicode property White\_Space, each as its UTF-8
  bytes, are removed from both ends.
\<close>

definition bytes :: "nat list \<Rightarrow> string" where
  "bytes ns = map char_of ns"

definition whitespace :: "string list" where
  "whitespace = map (\<lambda>n. bytes [n]) [9, 10, 11, 12, 13, 32]
     @ map bytes [[0xC2, 0x85], [0xC2, 0xA0], [0xE1, 0x9A, 0x80], [0xE2, 0x80, 0xA8],
         [0xE2, 0x80, 0xA9], [0xE2, 0x80, 0xAF], [0xE2, 0x81, 0x9F], [0xE3, 0x80, 0x80]]
     @ map (\<lambda>n. bytes [0xE2, 0x80, n]) [0x80..<0x8B]"

function trim_front :: "string list \<Rightarrow> string \<Rightarrow> string" where
  "trim_front ws s =
     (case find (\<lambda>w. w \<noteq> [] \<and> take (length w) s = w) ws of
        None \<Rightarrow> s
      | Some w \<Rightarrow> trim_front ws (drop (length w) s))"
  by pat_completeness auto

termination
proof (relation "measure (\<lambda>(ws, s). length s)")
  fix ws s w assume "find (\<lambda>w. w \<noteq> [] \<and> take (length w) s = w) ws = Some w"
  then have "w \<noteq> []" and "take (length w) s = w" by (auto simp: find_Some_iff)
  then have "0 < length w" and "s \<noteq> []" by auto
  then show "((ws, drop (length w) s), (ws, s)) \<in> measure (\<lambda>(ws, s). length s)" by simp
qed simp

declare trim_front.simps [simp del]

definition trim :: "string \<Rightarrow> string" where
  "trim s = (let t = trim_front whitespace s
     in rev (trim_front (map rev whitespace) (rev t)))"

text \<open>\<^verbatim>\<open>str::parse::<i64>\<close>: an optional sign, digits, and a value in range.\<close>

definition parse_i64 :: "string \<Rightarrow> int option" where
  "parse_i64 s =
     (let (neg, digits) = (case s of
            c # rest \<Rightarrow> if c = CHR ''-'' then (True, rest) else if c = CHR ''+'' then (False, rest) else (False, s)
          | [] \<Rightarrow> (False, s));
          n = (if neg then - int (decimal_value digits) else int (decimal_value digits))
      in if digits \<noteq> [] \<and> list_all is_ascii_digit digits \<and> i64_ok n then Some n else None)"

definition QUOTA_KEY :: string where "QUOTA_KEY = ''quota''"

definition quota_limit :: "QuotaBucket \<Rightarrow> json \<Rightarrow> int" where
  "quota_limit bucket config =
     (let configured = Option.bind (Option.bind (json_get QUOTA_KEY config) (json_get (qb_id bucket)))
            (\<lambda>value. case value of
               JNumber _ \<Rightarrow> as_i64 value
             | JString s \<Rightarrow> parse_i64 (trim s)
             | _ \<Rightarrow> None)
      in case configured of
           Some limit \<Rightarrow> if limit \<ge> 0 then limit else int (qb_default_limit bucket)
         | None \<Rightarrow> int (qb_default_limit bucket))"

section \<open>Reservations\<close>

datatype QuotaOp = QO_Publish | QO_Comment

datatype ReservedUnit = RU_Account AccountQuotaKey int | RU_App AppQuotaKey int

datatype Reservation = Reserved "ReservedUnit list" | Exhausted timestamp

definition op_cost :: "QuotaOp \<Rightarrow> QuotaBucket \<Rightarrow> int" where
  "op_cost op1 bucket = int (case op1 of
     QO_Publish \<Rightarrow> qc_publish (qb_costs bucket) | QO_Comment \<Rightarrow> qc_comment (qb_costs bucket))"

text \<open>One turn of the loop of \<^verbatim>\<open>reserve\<close>: the units taken so far and the latest retry time.\<close>

definition reserve_bucket ::
  "'z calendar \<Rightarrow> ClaimedDelivery \<Rightarrow> AgentDescriptor \<Rightarrow> QuotaOp \<Rightarrow> json \<Rightarrow> timestamp
   \<Rightarrow> (ReservedUnit list \<times> timestamp option) \<times> 'a quota_db_scheme \<Rightarrow> QuotaBucket
   \<Rightarrow> DataError + (ReservedUnit list \<times> timestamp option) \<times> 'a quota_db_scheme" where
  "reserve_bucket cal claimed descriptor op1 config now acc bucket =
     (let ((units, retry_at), s) = acc; cost = op_cost op1 bucket
      in if cost = 0 then Inr acc
         else
           let limit = quota_limit bucket config;
               (period_start, next) = period cal bucket now
           in bindE (case qb_scope bucket of
                QS_Account \<Rightarrow>
                  let key = \<lparr>qk_owner = c_owner_id claimed, qk_account = c_account_id claimed,
                        qk_platform = ad_platform descriptor, qk_bucket = qb_id bucket,
                        qk_period_start = period_start\<rparr>
                  in bindE (quota_reserve s key cost limit) (\<lambda>(granted, t).
                       Inr ((granted, RU_Account key cost), t))
              | QS_App \<Rightarrow>
                  let key = \<lparr>ak_platform = ad_platform descriptor, ak_bucket = qb_id bucket,
                        ak_period_start = period_start\<rparr>
                  in bindE (app_quota_reserve s key cost limit) (\<lambda>(granted, t).
                       Inr ((granted, RU_App key cost), t)))
              (\<lambda>((granted, unit), t).
                if \<not> granted
                then Inr ((units, Some (case retry_at of None \<Rightarrow> next | Some at \<Rightarrow> max at next)), t)
                else if limit \<noteq> 0 then Inr ((units @ [unit], retry_at), t)
                else Inr ((units, retry_at), t)))"

text \<open>The transaction is rolled back when a bucket is used up: the answer keeps \<open>s\<close>.\<close>

definition reserve ::
  "'z calendar \<Rightarrow> 'a quota_db_scheme \<Rightarrow> ClaimedDelivery \<Rightarrow> AgentDescriptor \<Rightarrow> QuotaOp \<Rightarrow> json
   \<Rightarrow> timestamp \<Rightarrow> DataError + Reservation \<times> 'a quota_db_scheme" where
  "reserve cal s claimed descriptor op1 config now =
     (if c_dry_run claimed then Inr (Reserved [], s)
      else bindE (foldE (reserve_bucket cal claimed descriptor op1 config now) (([], None), s)
                   (ad_quota_buckets descriptor))
             (\<lambda>((units, retry_at), t).
               case retry_at of
                 Some at \<Rightarrow> Inr (Exhausted at, s)
               | None \<Rightarrow> Inr (Reserved units, t)))"

fun release_unit :: "'a quota_db_scheme \<Rightarrow> ReservedUnit \<Rightarrow> 'a quota_db_scheme" where
  "release_unit s (RU_Account key cost) = quota_release s key cost"
| "release_unit s (RU_App key cost) = app_quota_release s key cost"

definition release :: "'a quota_db_scheme \<Rightarrow> ReservedUnit list \<Rightarrow> 'a quota_db_scheme" where
  "release s units = foldl release_unit s units"

section \<open>The buckets of both tables\<close>

type_synonym bucket_key = "AccountQuotaKey + AppQuotaKey"

fun bucket_reserve ::
  "'a quota_db_scheme \<Rightarrow> bucket_key \<Rightarrow> int \<Rightarrow> int \<Rightarrow> DataError + bool \<times> 'a quota_db_scheme" where
  "bucket_reserve s (Inl k) cost limit = quota_reserve s k cost limit"
| "bucket_reserve s (Inr k) cost limit = app_quota_reserve s k cost limit"

fun bucket_release :: "'a quota_db_scheme \<Rightarrow> bucket_key \<Rightarrow> int \<Rightarrow> 'a quota_db_scheme" where
  "bucket_release s (Inl k) cost = quota_release s k cost"
| "bucket_release s (Inr k) cost = app_quota_release s k cost"

fun bucket_used :: "'a quota_db_scheme \<Rightarrow> bucket_key \<Rightarrow> int" where
  "bucket_used s (Inl k) = quota_used s k"
| "bucket_used s (Inr k) = app_quota_used s k"

fun bucket_same :: "bucket_key \<Rightarrow> bucket_key \<Rightarrow> bool" where
  "bucket_same (Inl a) (Inl b) = same_bucket a b"
| "bucket_same (Inr a) (Inr b) = same_app_bucket a b"
| "bucket_same _ _ = False"

lemma tables_apart:
  "quota_reserve s k cost limit = Inr (b, t) \<Longrightarrow> app_quota_used t j = app_quota_used s j"
  "app_quota_reserve s j cost limit = Inr (b, t) \<Longrightarrow> quota_used t k = quota_used s k"
  "app_quota_used (quota_release s k cost) j = app_quota_used s j"
  "quota_used (app_quota_release s j cost) k = quota_used s k"
  by (auto simp: quota_reserve_def app_quota_reserve_def quota_release_def app_quota_release_def
      app_quota_used_def quota_used_def split: if_splits option.splits)

lemma same_bucket_matches:
  "same_bucket a b \<Longrightarrow> quota_key_matches a = quota_key_matches b"
  "same_app_bucket c d \<Longrightarrow> app_key_matches c = app_key_matches d"
  by (auto simp: fun_eq_iff quota_key_matches_def same_bucket_def app_key_matches_def same_app_bucket_def)

lemma bucket_used_same: "bucket_same k j \<Longrightarrow> bucket_used s k = bucket_used s j"
  by (cases k; cases j) (auto simp: quota_used_def app_quota_used_def dest: same_bucket_matches)

lemma bucket_same_refl [simp]: "bucket_same k k"
  by (cases k) simp_all

interpretation bucket: quota_bucket bucket_reserve bucket_release bucket_used bucket_same quota_ok
proof
  fix s t :: "'a quota_db_scheme" and k j :: bucket_key and limit cost :: int and b :: bool
  show "quota_ok s \<Longrightarrow> 0 \<le> bucket_used s k"
    by (cases k) (simp_all add: acct.nonneg app.nonneg)
  show "limit = 0 \<or> cost \<le> 0 \<Longrightarrow> bucket_reserve s k cost limit = Inr (True, s)"
    by (cases k) (simp_all add: acct.free app.free)
  show "bucket_reserve s k cost limit = Inr (True, t) \<Longrightarrow> limit \<noteq> 0 \<Longrightarrow> 0 < cost
      \<Longrightarrow> bucket_used t k = bucket_used s k + cost \<and> bucket_used t k \<le> limit"
    by (cases k) (auto dest: acct.granted app.granted)
  show "quota_ok s \<Longrightarrow> bucket_reserve s k cost limit = Inr (False, t)
      \<Longrightarrow> t = s \<and> limit < bucket_used s k + cost"
    by (cases k) (auto dest: acct.refused app.refused)
  show "bucket_reserve s k cost limit = Inr (b, t) \<Longrightarrow> \<not> bucket_same k j
      \<Longrightarrow> bucket_used t j = bucket_used s j"
    by (cases k; cases j) (simp_all add: acct.res_other app.res_other tables_apart)
  show "quota_ok s \<Longrightarrow> bucket_reserve s k cost limit = Inr (b, t) \<Longrightarrow> quota_ok t"
    by (cases k) (auto dest: acct.res_ok app.res_ok)
  show "bucket_used (bucket_release s k cost) k
      = (if bucket_used s k = 0 then 0 else max (bucket_used s k - max cost 0) 0)"
    by (cases k) (simp_all only: bucket_release.simps bucket_used.simps acct.released app.released)
  show "\<not> bucket_same k j \<Longrightarrow> bucket_used (bucket_release s k cost) j = bucket_used s j"
    by (cases k; cases j) (simp_all add: acct.rel_other app.rel_other tables_apart)
  show "quota_ok s \<Longrightarrow> quota_ok (bucket_release s k cost)"
    by (cases k) (simp_all add: acct.rel_ok app.rel_ok)
qed

section \<open>What a reservation does\<close>

text \<open>The bucket a descriptor entry names for this delivery, and what the operation costs in it.\<close>

definition entry_key :: "'z calendar \<Rightarrow> ClaimedDelivery \<Rightarrow> AgentDescriptor \<Rightarrow> timestamp \<Rightarrow> QuotaBucket \<Rightarrow> bucket_key" where
  "entry_key cal claimed descriptor now b =
     (case qb_scope b of
        QS_Account \<Rightarrow> Inl \<lparr>qk_owner = c_owner_id claimed, qk_account = c_account_id claimed,
          qk_platform = ad_platform descriptor, qk_bucket = qb_id b,
          qk_period_start = fst (period cal b now)\<rparr>
      | QS_App \<Rightarrow> Inr \<lparr>ak_platform = ad_platform descriptor, ak_bucket = qb_id b,
          ak_period_start = fst (period cal b now)\<rparr>)"

fun unit_of :: "bucket_key \<Rightarrow> int \<Rightarrow> ReservedUnit" where
  "unit_of (Inl k) c = RU_Account k c"
| "unit_of (Inr k) c = RU_App k c"

fun unit_key :: "ReservedUnit \<Rightarrow> bucket_key" where
  "unit_key (RU_Account k c) = Inl k"
| "unit_key (RU_App k c) = Inr k"

fun unit_cost :: "ReservedUnit \<Rightarrow> int" where
  "unit_cost (RU_Account k c) = c"
| "unit_cost (RU_App k c) = c"

lemma unit_of_simps [simp]: "unit_key (unit_of k c) = k" "unit_cost (unit_of k c) = c"
  by (cases k; simp)+

lemma release_unit_bucket: "release_unit s u = bucket_release s (unit_key u) (unit_cost u)"
  by (cases u) simp_all

definition counted :: "QuotaOp \<Rightarrow> json \<Rightarrow> QuotaBucket \<Rightarrow> bool" where
  "counted op1 config b = (op_cost op1 b \<noteq> 0 \<and> quota_limit b config \<noteq> 0)"

definition charged :: "ReservedUnit list \<Rightarrow> bucket_key \<Rightarrow> int" where
  "charged units k = sum_list (map unit_cost (filter (\<lambda>u. bucket_same (unit_key u) k) units))"

lemma charged_simps [simp]:
  "charged [] k = 0"
  "charged (u # us) k = (if bucket_same (unit_key u) k then unit_cost u else 0) + charged us k"
  "charged (us @ vs) k = charged us k + charged vs k"
  by (simp_all add: charged_def)

lemma charged_nonneg: "list_all (\<lambda>u. 0 < unit_cost u) us \<Longrightarrow> 0 \<le> charged us k"
  by (induction us) auto

text \<open>Giving back what was charged.\<close>

lemma release_uncharges:
  assumes "quota_ok t" and "list_all (\<lambda>u. 0 < unit_cost u) us" and "\<And>k. charged us k \<le> bucket_used t k"
  shows "bucket_used (release t us) k = bucket_used t k - charged us k"
  using assms
proof (induction us arbitrary: t)
  case Nil
  then show ?case by (simp add: release_def)
next
  case (Cons u us)
  let ?t = "release_unit t u"
  have pos: "0 < unit_cost u" and us: "list_all (\<lambda>u. 0 < unit_cost u) us" using Cons.prems(2) by auto
  have used: "bucket_used ?t k = bucket_used t k - (if bucket_same (unit_key u) k then unit_cost u else 0)" for k
  proof (cases "bucket_same (unit_key u) k")
    case True
    have "unit_cost u \<le> bucket_used t (unit_key u)"
      using Cons.prems(3) [of "unit_key u"] charged_nonneg [OF us, of "unit_key u"] by simp
    then show ?thesis
      using True pos bucket_used_same [OF True] bucket.released [of t "unit_key u" "unit_cost u"]
      by (simp add: release_unit_bucket bucket_used_same [OF True, symmetric])
  next
    case False
    then show ?thesis by (simp add: release_unit_bucket bucket.rel_other)
  qed
  have "quota_ok ?t" using Cons.prems(1) by (simp add: release_unit_bucket bucket.rel_ok)
  moreover have "charged us k \<le> bucket_used ?t k" for k
    using Cons.prems(3) [of k] used [of k] by simp
  ultimately have "bucket_used (release ?t us) k = bucket_used ?t k - charged us k"
    using Cons.IH us by blast
  then show ?case by (simp add: used release_def)
qed

text \<open>One turn of the loop, over the buckets of both tables.\<close>

lemma reserve_bucket_step:
  "reserve_bucket cal cl d op1 config now ((us, r), s) b =
     (let k = entry_key cal cl d now b; c = op_cost op1 b; limit = quota_limit b config; at = snd (period cal b now)
      in if c = 0 then Inr ((us, r), s)
         else bindE (bucket_reserve s k c limit) (\<lambda>(granted, t).
           if \<not> granted then Inr ((us, Some (case r of None \<Rightarrow> at | Some x \<Rightarrow> max x at)), t)
           else if limit \<noteq> 0 then Inr ((us @ [unit_of k c], r), t) else Inr ((us, r), t)))"
  by (cases "period cal b now"; cases "qb_scope b"; cases r; cases "bucket_reserve s (entry_key cal cl d now b) (op_cost op1 b) (quota_limit b config)")
    (auto simp: reserve_bucket_def entry_key_def Let_def split: sum.splits prod.splits)

definition over :: "'z calendar \<Rightarrow> ClaimedDelivery \<Rightarrow> AgentDescriptor \<Rightarrow> QuotaOp \<Rightarrow> json \<Rightarrow> timestamp
    \<Rightarrow> 'a quota_db_scheme \<Rightarrow> QuotaBucket \<Rightarrow> bool" where
  "over cal cl d op1 config now s b = (counted op1 config b
     \<and> quota_limit b config < bucket_used s (entry_key cal cl d now b) + op_cost op1 b)"

definition latest :: "timestamp option \<Rightarrow> timestamp list \<Rightarrow> timestamp option" where
  "latest r xs = foldl (\<lambda>r at. Some (case r of None \<Rightarrow> at | Some x \<Rightarrow> max x at)) r xs"

lemma latest_simps [simp]:
  "latest r [] = r"
  "latest r (at # xs) = latest (Some (case r of None \<Rightarrow> at | Some x \<Rightarrow> max x at)) xs"
  by (simp_all add: latest_def)

lemma latest_Some: "latest (Some x) xs = Some (Max (set (x # xs)))"
proof (induction xs arbitrary: x)
  case (Cons a xs)
  have "Max (insert (max x a) (set xs)) = max x (Max (insert a (set xs)))"
    by (cases "xs = []") (simp_all add: max.assoc)
  with Cons show ?case by simp
qed simp

lemma latest_None: "latest None xs = (if xs = [] then None else Some (Max (set xs)))"
  by (cases xs) (simp_all add: latest_Some)

lemma entry_keys_apart:
  "qb_id b \<noteq> qb_id b' \<Longrightarrow> \<not> bucket_same (entry_key cal cl d now b) (entry_key cal cl d now b')"
  by (simp add: entry_key_def same_bucket_def same_app_bucket_def split: QuotaScope.split)

lemma op_cost_nonneg: "0 \<le> op_cost op1 b"
  by (simp add: op_cost_def)

lemma quota_limit_nonneg: "0 \<le> quota_limit b config"
  by (simp add: quota_limit_def Let_def split: option.split)

text \<open>What one turn does, by whether the bucket is counted and has room.\<close>

lemma reserve_bucket_cases:
  assumes ok: "quota_ok s" and run: "reserve_bucket cal cl d op1 config now ((us, r), s) b = Inr (acc, t)"
  obtains (free) "\<not> counted op1 config b" "acc = (us, r)" "t = s"
  | (over) "over cal cl d op1 config now s b" "t = s"
      "acc = (us, Some (case r of None \<Rightarrow> snd (period cal b now) | Some x \<Rightarrow> max x (snd (period cal b now))))"
  | (granted) "counted op1 config b" "\<not> over cal cl d op1 config now s b" "quota_ok t"
      "acc = (us @ [unit_of (entry_key cal cl d now b) (op_cost op1 b)], r)"
      "\<And>k. bucket_used t k = bucket_used s k
         + (if bucket_same (entry_key cal cl d now b) k then op_cost op1 b else 0)"
proof (cases "op_cost op1 b = 0 \<or> quota_limit b config = 0")
  case True
  then have "acc = (us, r) \<and> t = s"
    using run bucket.free [of "quota_limit b config" "op_cost op1 b" s "entry_key cal cl d now b"]
    by (auto simp: reserve_bucket_step Let_def split: if_splits)
  then show ?thesis using True free by (auto simp: counted_def)
next
  case False
  let ?k = "entry_key cal cl d now b"
  have pos: "0 < op_cost op1 b" using False op_cost_nonneg [of op1 b] by auto
  from run False obtain g where
    res: "bucket_reserve s ?k (op_cost op1 b) (quota_limit b config) = Inr (g, t)"
    and acc: "acc = (if \<not> g then (us, Some (case r of None \<Rightarrow> snd (period cal b now) | Some x \<Rightarrow> max x (snd (period cal b now))))
       else (us @ [unit_of ?k (op_cost op1 b)], r))"
    by (auto simp: reserve_bucket_step Let_def bindE_Inr_iff split: if_splits)
  show ?thesis
  proof (cases g)
    case True
    with res have res': "bucket_reserve s ?k (op_cost op1 b) (quota_limit b config) = Inr (True, t)" by simp
    have used: "bucket_used t ?k = bucket_used s ?k + op_cost op1 b \<and> bucket_used t ?k \<le> quota_limit b config"
      using bucket.granted [OF res'] False pos by simp
    have "bucket_used t k = bucket_used s k + (if bucket_same ?k k then op_cost op1 b else 0)" for k
    proof (cases "bucket_same ?k k")
      case True
      then show ?thesis using used bucket_used_same [OF True, of s] bucket_used_same [OF True, of t] by simp
    next
      case False
      then show ?thesis using bucket.res_other [OF res'] by simp
    qed
    then show ?thesis
      using granted False used bucket.res_ok [OF ok res'] acc True by (simp add: counted_def over_def)
  next
    case g: False
    with res have "bucket_reserve s ?k (op_cost op1 b) (quota_limit b config) = Inr (False, t)" by simp
    then have "t = s" "quota_limit b config < bucket_used s ?k + op_cost op1 b"
      using bucket.refused [OF ok] by blast+
    then show ?thesis using over False acc g by (simp add: counted_def over_def)
  qed
qed

text \<open>
  The whole loop, for a descriptor whose bucket names are distinct: what it took, the latest time
  a full bucket opens again, and the usage it left.
\<close>

lemma reserve_loop:
  assumes "foldE (reserve_bucket cal cl d op1 config now) ((us, r), s) bs = Inr ((us', r'), t)"
    and "quota_ok s" and "distinct (map qb_id bs)"
  defines "key \<equiv> entry_key cal cl d now"
    and "taken \<equiv> map (\<lambda>b. unit_of (entry_key cal cl d now b) (op_cost op1 b))
           (filter (\<lambda>b. counted op1 config b \<and> \<not> over cal cl d op1 config now s b) bs)"
  shows "us' = us @ taken
    \<and> r' = latest r (map (\<lambda>b. snd (period cal b now)) (filter (over cal cl d op1 config now s) bs))
    \<and> quota_ok t \<and> (\<forall>k. bucket_used t k = bucket_used s k + charged taken k)"
  using assms(1-3) unfolding key_def taken_def
proof (induction bs arbitrary: us r s)
  case Nil
  then show ?case by simp
next
  case (Cons b bs)
  from Cons.prems(1) obtain us1 r1 s1 where
    step: "reserve_bucket cal cl d op1 config now ((us, r), s) b = Inr ((us1, r1), s1)"
    and rest: "foldE (reserve_bucket cal cl d op1 config now) ((us1, r1), s1) bs = Inr ((us', r'), t)"
    by (auto simp: bindE_Inr_iff)
  have apart: "\<not> bucket_same (entry_key cal cl d now b) (entry_key cal cl d now x)" if "x \<in> set bs" for x
    by (rule entry_keys_apart) (use Cons.prems(3) that in auto)
  note IH = Cons.IH [OF rest]
  from Cons.prems(2) step show ?case
  proof (cases rule: reserve_bucket_cases)
    case free
    then show ?thesis using IH Cons.prems(2,3) by (simp add: over_def)
  next
    case over
    then show ?thesis using IH Cons.prems(2,3) by (simp add: over_def)
  next
    case granted
    have same: "over cal cl d op1 config now s1 x = over cal cl d op1 config now s x" if "x \<in> set bs" for x
      using granted(5) apart [OF that] by (simp add: over_def)
    have "filter (over cal cl d op1 config now s1) bs = filter (over cal cl d op1 config now s) bs"
      "filter (\<lambda>b. counted op1 config b \<and> \<not> over cal cl d op1 config now s1 b) bs
       = filter (\<lambda>b. counted op1 config b \<and> \<not> over cal cl d op1 config now s b) bs"
      by (rule filter_cong; simp add: same)+
    then show ?thesis using IH [OF granted(3)] granted Cons.prems(3) by simp
  qed
qed

section \<open>Properties\<close>

text \<open>
  C38: a reservation is all or nothing. With distinct bucket names (which the registry demands of
  every descriptor), the buckets that would pass their limit decide: when there is one, nothing is
  charged and the answer is the latest time such a bucket opens again; when there is none, exactly
  the counted buckets are charged, each by the cost of the operation. Every other bucket of both
  tables keeps its usage.
\<close>

theorem reserve_all_or_nothing:
  assumes "reserve cal s cl d op1 config now = Inr (r, t)" and "quota_ok s"
    and "distinct (map qb_id (ad_quota_buckets d))" and "\<not> c_dry_run cl"
  shows "let full = filter (over cal cl d op1 config now s) (ad_quota_buckets d);
             taken = map (\<lambda>b. unit_of (entry_key cal cl d now b) (op_cost op1 b))
               (filter (counted op1 config) (ad_quota_buckets d))
         in if full = [] then r = Reserved taken \<and> (\<forall>k. bucket_used t k = bucket_used s k + charged taken k)
            else r = Exhausted (Max (set (map (\<lambda>b. snd (period cal b now)) full))) \<and> t = s"
proof -
  let ?full = "filter (over cal cl d op1 config now s) (ad_quota_buckets d)"
  from assms(1,4) obtain us r' u where
    loop: "foldE (reserve_bucket cal cl d op1 config now) (([], None), s) (ad_quota_buckets d) = Inr ((us, r'), u)"
    and out: "(r, t) = (case r' of Some at \<Rightarrow> (Exhausted at, s) | None \<Rightarrow> (Reserved us, u))"
    by (auto simp: reserve_def bindE_Inr_iff split: option.splits)
  note facts = reserve_loop [OF loop assms(2,3)]
  show ?thesis
  proof (cases "?full = []")
    case True
    have "filter (\<lambda>b. counted op1 config b \<and> \<not> over cal cl d op1 config now s b) (ad_quota_buckets d)
        = filter (counted op1 config) (ad_quota_buckets d)"
      using True by (auto simp: filter_empty_conv intro: filter_cong)
    then show ?thesis using facts True out by (simp add: Let_def latest_None)
  next
    case False
    then show ?thesis using facts out by (simp add: Let_def latest_None)
  qed
qed

text \<open>
  C39: giving a reservation back undoes it: after \<open>release\<close> of the units \<open>reserve\<close> took, every
  bucket of both tables has the usage it had before.
\<close>

theorem release_undoes_reserve:
  assumes "reserve cal s cl d op1 config now = Inr (Reserved units, t)" and "quota_ok s"
    and "distinct (map qb_id (ad_quota_buckets d))"
  shows "bucket_used (release t units) k = bucket_used s k"
proof (cases "c_dry_run cl")
  case True
  then show ?thesis using assms(1) by (simp add: reserve_def release_def)
next
  case False
  with assms(1) obtain r' where
    loop: "foldE (reserve_bucket cal cl d op1 config now) (([], None), s) (ad_quota_buckets d) = Inr ((units, r'), t)"
    by (auto simp: reserve_def bindE_Inr_iff split: option.splits)
  note facts = reserve_loop [OF loop assms(2,3)]
  have "0 < op_cost op1 b" if "counted op1 config b" for b
    using that op_cost_nonneg [of op1 b] by (simp add: counted_def)
  then have "list_all (\<lambda>u. 0 < unit_cost u) units" using facts by (auto simp: list_all_iff)
  moreover have "charged units k \<le> bucket_used t k" for k
    using facts bucket.nonneg [OF assms(2), of k] by simp
  ultimately show ?thesis using release_uncharges [of t units k] facts by simp
qed

section \<open>Examples\<close>

text \<open>A calendar with one zone, UTC, thirty-day months and time in seconds, and a platform with two buckets.\<close>

definition sample_cal :: "unit calendar" where
  "sample_cal = (let day = 86400 in
     \<lparr>parse_zone = (\<lambda>_. Some ()), zone_utc = (), local_date = (\<lambda>_ t. t div day),
      first_of_month = (\<lambda>d. Some (d - d mod 30)), plus_days = (\<lambda>d n. d + int n),
      next_day = (\<lambda>d. Some (d + 1)), plus_months = (\<lambda>d n. d + 30 * int n),
      from_local = (\<lambda>_ d h. LR_Single (d * day + int h * 3600)),
      midnight_utc = (\<lambda>d. d * day), max_utc = 200000000 * day\<rparr>)"

definition sample_bucket :: "string \<Rightarrow> QuotaScope \<Rightarrow> nat \<Rightarrow> QuotaBucket" where
  "sample_bucket name scope limit = \<lparr>qb_id = name, qb_scope = scope, qb_period = QP_Day,
     qb_default_limit = limit, qb_reset_time_zone = ''UTC'',
     qb_costs = \<lparr>qc_publish = 2, qc_comment = 0, qc_inbox_poll = 0, qc_metrics = 0\<rparr>\<rparr>"

definition sample_format :: FormatSpec where
  "sample_format = \<lparr>fm_id = F_Text,
     fm_text = \<lparr>tr_measure = Bytes, tr_max = 280, tr_required = True, tr_includes_link_and_tags = False\<rparr>,
     fm_media = no_media, fm_selected_by = None\<rparr>"

definition sample_descriptor :: AgentDescriptor where
  "sample_descriptor = \<lparr>ad_platform = ''x'', ad_display_name = ''X'', ad_icon_png = [1], ad_brand_color = ''#000000'',
     ad_kind = Broadcast, ad_formats = [sample_format], ad_capabilities = [], ad_config_schema_version = 1,
     ad_native_schedule = None,
     ad_quota_buckets = [sample_bucket ''posts'' QS_Account 3, sample_bucket ''app'' QS_App 10],
     ad_options_schema = []\<rparr>"

definition sample_claim :: ClaimedDelivery where
  "sample_claim = \<lparr>c_id = 10, c_job_id = 20, c_post_id = 30, c_owner_id = 1, c_account_id = 40,
     c_dry_run = False, c_native_schedule = False, c_operation = Op_Publish, c_dispatch_gen = 3,
     c_attempt_count = 0, c_container_ref = None, c_cancel_requested = False\<rparr>"

definition sample_usage :: quota_db where
  "sample_usage = \<lparr>platform_quota_usage = [], platform_app_quota_usage = []\<rparr>"

theorem reserve_all_or_nothing_witness:
  "\<exists>units t. reserve sample_cal sample_usage sample_claim sample_descriptor QO_Publish (JObject []) 5
       = Inr (Reserved units, t) \<and> length units = 2
     \<and> reserve sample_cal t sample_claim sample_descriptor QO_Publish (JObject []) 5
       = Inr (Exhausted (86400), t)"
proof -
  let ?run = "\<lambda>s. reserve sample_cal s sample_claim sample_descriptor QO_Publish (JObject []) 5"
  have "case ?run sample_usage of Inl e \<Rightarrow> False
    | Inr (r, t) \<Rightarrow> (case r of Exhausted at \<Rightarrow> False | Reserved units \<Rightarrow> length units = 2)
        \<and> quota_ok t
        \<and> map qb_id (filter (over sample_cal sample_claim sample_descriptor QO_Publish (JObject []) 5 t)
            (ad_quota_buckets sample_descriptor)) = [''posts'']
        \<and> (case ?run t of Inl e \<Rightarrow> False | Inr (r, u) \<Rightarrow> True)"
    by code_simp
  then obtain r t r' u where first: "?run sample_usage = Inr (r, t)" and again: "?run t = Inr (r', u)"
    and r: "case r of Exhausted at \<Rightarrow> False | Reserved units \<Rightarrow> length units = 2" and ok: "quota_ok t"
    and full: "map qb_id (filter (over sample_cal sample_claim sample_descriptor QO_Publish (JObject []) 5 t)
            (ad_quota_buckets sample_descriptor)) = [''posts'']"
    by (elim ranE conjE)
  have names: "distinct (map qb_id (ad_quota_buckets sample_descriptor))"
    and live: "\<not> c_dry_run sample_claim"
    and next_period: "snd (period sample_cal b 5) = 86400"
      if "b \<in> set (ad_quota_buckets sample_descriptor)" for b
    using that by (auto simp: sample_descriptor_def sample_bucket_def sample_claim_def sample_cal_def
        period_def zone_of_def start_of_def Let_def)
  obtain b where b: "filter (over sample_cal sample_claim sample_descriptor QO_Publish (JObject []) 5 t)
            (ad_quota_buckets sample_descriptor) = [b]"
    using full by auto
  then have "b \<in> set (ad_quota_buckets sample_descriptor)"
    by (metis filter_is_subset list.set_intros(1) subsetD)
  then have "r' = Exhausted (86400) \<and> u = t"
    using reserve_all_or_nothing [OF again ok names live] b next_period by (simp add: Let_def)
  with first again r show ?thesis by (cases r) auto
qed

theorem release_undoes_reserve_witness:
  "\<exists>units t. reserve sample_cal sample_usage sample_claim sample_descriptor QO_Publish (JObject []) 5
       = Inr (Reserved units, t) \<and> units \<noteq> []
     \<and> bucket_used (release t units) (unit_key (hd units)) = 0"
proof -
  let ?run = "\<lambda>s. reserve sample_cal s sample_claim sample_descriptor QO_Publish (JObject []) 5"
  have "case ?run sample_usage of Inl e \<Rightarrow> False
    | Inr (r, t) \<Rightarrow> (case r of Exhausted at \<Rightarrow> False | Reserved units \<Rightarrow> units \<noteq> []
        \<and> bucket_used sample_usage (unit_key (hd units)) = 0)"
    by code_simp
  then obtain units t where first: "?run sample_usage = Inr (Reserved units, t)"
    and units: "units \<noteq> []" "bucket_used sample_usage (unit_key (hd units)) = 0"
    by (rule ranE) (auto split: Reservation.splits)
  have "quota_ok sample_usage" and "distinct (map qb_id (ad_quota_buckets sample_descriptor))"
    by code_simp+
  with release_undoes_reserve [OF first] first units show ?thesis by auto
qed

end
