(* ===== verification/Notification.thy ===== *)
theory Notification
  imports Prelude
begin

text \<open>
  The kinds of notification (\<^verbatim>\<open>backend/crates/core/src/notification.rs\<close>): their stored names,
  their urgency, and the channels that are on by default.
\<close>

datatype Severity = Info | Critical

fun severity_str :: "Severity \<Rightarrow> string" where
  "severity_str Info = ''info''"
| "severity_str Critical = ''critical''"

datatype NotificationKind =
    N_DeliveryDeadLettered
  | N_DeliveryFailed
  | N_DeliveryOutcomeUnknown
  | N_DeliveryParked
  | N_DeliveryStale
  | N_JobPartial
  | N_AccountNeedsReconnect
  | N_AccountRevokedByPlatform
  | N_ReconnectByPassed
  | N_RecurrenceSkipped
  | N_DeliveryPublished
  | N_ReconnectReminder
  | N_DelegationChanged
  | N_NewComments
  | N_UserPending

definition kinds_all :: "NotificationKind list" where
  "kinds_all =
     [N_DeliveryDeadLettered, N_DeliveryFailed, N_DeliveryOutcomeUnknown, N_DeliveryParked,
      N_DeliveryStale, N_JobPartial, N_AccountNeedsReconnect, N_AccountRevokedByPlatform,
      N_ReconnectByPassed, N_RecurrenceSkipped, N_DeliveryPublished, N_ReconnectReminder,
      N_DelegationChanged, N_NewComments, N_UserPending]"

fun kind_str :: "NotificationKind \<Rightarrow> string" where
  "kind_str N_DeliveryDeadLettered = ''delivery_dead_lettered''"
| "kind_str N_DeliveryFailed = ''delivery_failed''"
| "kind_str N_DeliveryOutcomeUnknown = ''delivery_outcome_unknown''"
| "kind_str N_DeliveryParked = ''delivery_parked''"
| "kind_str N_DeliveryStale = ''delivery_stale''"
| "kind_str N_JobPartial = ''job_partial''"
| "kind_str N_AccountNeedsReconnect = ''account_needs_reconnect''"
| "kind_str N_AccountRevokedByPlatform = ''account_revoked_by_platform''"
| "kind_str N_ReconnectByPassed = ''reconnect_by_passed''"
| "kind_str N_RecurrenceSkipped = ''recurrence_skipped''"
| "kind_str N_DeliveryPublished = ''delivery_published''"
| "kind_str N_ReconnectReminder = ''reconnect_reminder''"
| "kind_str N_DelegationChanged = ''delegation_changed''"
| "kind_str N_NewComments = ''new_comments''"
| "kind_str N_UserPending = ''user_pending''"

definition severity :: "NotificationKind \<Rightarrow> Severity" where
  "severity k =
     (case k of
        N_DeliveryPublished \<Rightarrow> Info
      | N_ReconnectReminder \<Rightarrow> Info
      | N_DelegationChanged \<Rightarrow> Info
      | N_NewComments \<Rightarrow> Info
      | N_UserPending \<Rightarrow> Info
      | _ \<Rightarrow> Critical)"

definition default_push :: "NotificationKind \<Rightarrow> bool" where
  "default_push k = (severity k = Critical \<or> k = N_NewComments)"

definition email_allowed :: "NotificationKind \<Rightarrow> bool" where
  "email_allowed k = (severity k = Critical)"

definition default_email :: "NotificationKind \<Rightarrow> bool" where
  "default_email k = email_allowed k"

text \<open>
  The stored names tell the kinds apart, so a stored row names one kind, and the list of all
  kinds holds each once, the critical ones first.
\<close>

lemma kind_str_inj: "inj kind_str"
proof (rule injI)
  fix k j show "kind_str k = kind_str j \<Longrightarrow> k = j" by (cases k; cases j) simp_all
qed

lemma kinds_all_complete:
  "distinct kinds_all \<and> k \<in> set kinds_all
   \<and> takeWhile (\<lambda>k. severity k = Critical) kinds_all = filter (\<lambda>k. severity k = Critical) kinds_all"
  by (cases k) (simp_all add: kinds_all_def severity_def)

end
