(* ===== verification/Outcome.thy ===== *)
theory Outcome
  imports Delivery_Quota Notification
begin

text \<open>
  What a publish result does to its delivery: the model of
  \<^verbatim>\<open>backend/crates/publishing/src/outcome.rs\<close>. \<open>pick\<close> is the random pick of the retry jitter and
  \<open>cal\<close> the calendar of \<^verbatim>\<open>chrono\<close>, as in \<open>Backoff\<close> and \<open>Delivery_Quota\<close>.
\<close>

section \<open>Times\<close>

text \<open>
  \<^verbatim>\<open>TimeDelta::from_std\<close> refuses a duration above \<^verbatim>\<open>TimeDelta::MAX\<close>, which is \<^verbatim>\<open>i64::MAX\<close>
  milliseconds, and \<^verbatim>\<open>checked_add_signed\<close> one that leaves \<^verbatim>\<open>chrono\<close>'s range.
\<close>

definition time_delta_max :: nat where
  "time_delta_max = (2 ^ 63 - 1) * ns_per_ms"

definition later :: "'z calendar \<Rightarrow> timestamp \<Rightarrow> duration \<Rightarrow> timestamp" where
  "later cal now d =
     (if d \<le> time_delta_max \<and> now + int d \<le> max_utc cal then now + int d else max_utc cal)"

definition next_utc_midnight :: "'z calendar \<Rightarrow> timestamp \<Rightarrow> timestamp" where
  "next_utc_midnight cal now =
     (case next_day cal (local_date cal (zone_utc cal) now) of
        None \<Rightarrow> later cal now (from_hours 24)
      | Some day \<Rightarrow> midnight_utc cal day)"

definition bucket_reset :: "'z calendar \<Rightarrow> AgentDescriptor \<Rightarrow> string \<Rightarrow> timestamp \<Rightarrow> timestamp" where
  "bucket_reset cal descriptor bucket now =
     (case find (\<lambda>b. qb_id b = bucket) (ad_quota_buckets descriptor) of
        None \<Rightarrow> next_utc_midnight cal now
      | Some b \<Rightarrow> snd (period cal b now))"

definition MAX_RETRY_AFTER :: duration where
  "MAX_RETRY_AFTER = from_hours 24"

section \<open>The mapping\<close>

datatype CancelCause = CC_None | CC_User | CC_Shutdown | CC_LeaseLost

datatype FollowUp =
    FU_None
  | FU_Poll timestamp
  | FU_Reconcile
  | FU_Redispatch
  | FU_MarkGrant
  | FU_MarkAccount

record Mapped =
  m_event :: DeliveryEvent
  m_data :: TransitionData
  m_follow_up :: FollowUp
  m_notice :: "NotificationKind option"

definition mapped_new :: "DeliveryEvent \<Rightarrow> TransitionData \<Rightarrow> Mapped" where
  "mapped_new ev data = \<lparr>m_event = ev, m_data = data, m_follow_up = FU_None, m_notice = None\<rparr>"

definition mapped_follow :: "FollowUp \<Rightarrow> Mapped \<Rightarrow> Mapped" where
  "mapped_follow f m = m\<lparr>m_follow_up := f\<rparr>"

definition mapped_notify :: "NotificationKind \<Rightarrow> Mapped \<Rightarrow> Mapped" where
  "mapped_notify n m = m\<lparr>m_notice := Some n\<rparr>"

definition last_error :: "AgentError \<Rightarrow> json" where
  "last_error e = JObject [(''code'', JString (error_code e)),
     (''class'', JString (retry_class_str (retry_class e)))]"

definition receipt_data :: "PublishReceipt \<Rightarrow> TransitionData" where
  "receipt_data r = td_default\<lparr>td_remote_id := pr_remote_id r, td_remote_url := pr_remote_url r,
     td_remote_publish_at := pr_remote_publish_at r\<rparr>"

definition retry_after_at :: "'z calendar \<Rightarrow> AgentError \<Rightarrow> timestamp \<Rightarrow> timestamp option" where
  "retry_after_at cal e now =
     (case retry_class e of
        RC_RetryAfter after \<Rightarrow> Some (later cal now (min after MAX_RETRY_AFTER))
      | _ \<Rightarrow> None)"

text \<open>The closures \<^verbatim>\<open>failed\<close> and \<^verbatim>\<open>retry\<close> of \<^verbatim>\<open>map\<close>.\<close>

definition failed_data :: "AgentError \<Rightarrow> bool \<Rightarrow> TransitionData" where
  "failed_data e count = td_default\<lparr>td_last_error := Some (last_error e), td_count_attempt := count\<rparr>"

definition map_retry :: "'z calendar \<Rightarrow> AgentError \<Rightarrow> int \<Rightarrow> nat \<Rightarrow> timestamp \<Rightarrow> duration \<Rightarrow> Mapped" where
  "map_retry cal e attempt_count max_attempts now delay =
     (if attempt_count + 1 \<ge> int max_attempts
      then mapped_notify N_DeliveryDeadLettered (mapped_new E_RetryBudgetExhausted (failed_data e True))
      else mapped_follow FU_Redispatch (mapped_new E_RetryableFailure
             ((failed_data e True)\<lparr>td_next_attempt_at := Some (later cal now delay)\<rparr>)))"

definition map_error ::
  "'z calendar \<Rightarrow> (nat \<Rightarrow> nat) \<Rightarrow> AgentError \<Rightarrow> int \<Rightarrow> nat \<Rightarrow> timestamp \<Rightarrow> CancelCause \<Rightarrow> AgentDescriptor
   \<Rightarrow> Mapped option" where
  "map_error cal pick e attempt_count max_attempts now cancel descriptor =
     (let retry = map_retry cal e attempt_count max_attempts now
      in case retry_class e of
        RC_Retryable \<Rightarrow> Some (retry (retry_delay pick attempt_count))
      | RC_RetryAfter after \<Rightarrow> Some (retry (min after MAX_RETRY_AFTER))
      | RC_Permanent \<Rightarrow>
          Some (mapped_notify N_DeliveryFailed (mapped_new E_PermanentFailure (failed_data e False)))
      | RC_NeedsReconnect \<Rightarrow>
          Some (mapped_notify N_DeliveryParked
            (mapped_follow (case e of AccountUnreachable _ \<Rightarrow> FU_MarkAccount | _ \<Rightarrow> FU_MarkGrant)
              (mapped_new (E_Park AccountNeedsReconnect) (failed_data e False))))
      | RC_QuotaExceeded \<Rightarrow>
          let parked_until = (case e of
                 Quota bucket resets_at \<Rightarrow>
                   (case resets_at of Some at \<Rightarrow> at | None \<Rightarrow> bucket_reset cal descriptor bucket now)
               | _ \<Rightarrow> next_utc_midnight cal now)
          in Some (mapped_notify N_DeliveryParked (mapped_new (E_Park QuotaExceeded)
               ((failed_data e False)\<lparr>td_parked_until := Some parked_until\<rparr>)))
      | RC_Ambiguous \<Rightarrow>
          Some (mapped_notify N_DeliveryOutcomeUnknown
            (mapped_follow FU_Reconcile (mapped_new E_Ambiguous (failed_data e True))))
      | RC_Cancelled \<Rightarrow>
          (case cancel of
             CC_LeaseLost \<Rightarrow> None
           | CC_User \<Rightarrow> Some (mapped_new E_Cancel td_default)
           | CC_Shutdown \<Rightarrow> Some (mapped_follow FU_Redispatch (mapped_new E_Shutdown td_default))
           | CC_None \<Rightarrow> Some (retry (retry_delay pick attempt_count))))"

definition map_result ::
  "'z calendar \<Rightarrow> (nat \<Rightarrow> nat) \<Rightarrow> AgentError + PublishOutcome \<Rightarrow> int \<Rightarrow> nat \<Rightarrow> timestamp \<Rightarrow> CancelCause
   \<Rightarrow> AgentDescriptor \<Rightarrow> Mapped option" where
  "map_result cal pick result attempt_count max_attempts now cancel descriptor =
     (case result of
        Inr (PO_Published receipt) \<Rightarrow>
          Some (mapped_notify N_DeliveryPublished (mapped_new E_Published (receipt_data receipt)))
      | Inr (PO_Processing receipt) \<Rightarrow>
          let first_poll = later cal now (poll_delay 0);
              at = (case pr_remote_publish_at receipt of
                      None \<Rightarrow> first_poll | Some live \<Rightarrow> max live first_poll)
          in Some (mapped_follow (FU_Poll at)
               (mapped_new E_Accepted ((receipt_data receipt)\<lparr>td_check_due_at := Some at\<rparr>)))
      | Inr (PO_Simulated _) \<Rightarrow> Some (mapped_new E_Simulated td_default)
      | Inl e \<Rightarrow> map_error cal pick e attempt_count max_attempts now cancel descriptor)"

lemmas mapped_defs = mapped_new_def mapped_follow_def mapped_notify_def

section \<open>Properties\<close>

text \<open>What a mapped error can be.\<close>

lemma map_error_cases:
  assumes "map_error cal pick e n mx now cancel d = Some m"
  obtains (retry) delay where "m = map_retry cal e n mx now delay"
      "delay = retry_delay pick n \<or> (\<exists>after. retry_class e = RC_RetryAfter after \<and> delay = min after MAX_RETRY_AFTER)"
  | (permanent) "m = mapped_notify N_DeliveryFailed (mapped_new E_PermanentFailure (failed_data e False))"
  | (reconnect) f where "f = FU_MarkAccount \<or> f = FU_MarkGrant"
      "m = mapped_notify N_DeliveryParked (mapped_follow f (mapped_new (E_Park AccountNeedsReconnect) (failed_data e False)))"
  | (quota) at where "m = mapped_notify N_DeliveryParked (mapped_new (E_Park QuotaExceeded)
        ((failed_data e False)\<lparr>td_parked_until := Some at\<rparr>))"
  | (ambiguous) "m = mapped_notify N_DeliveryOutcomeUnknown (mapped_follow FU_Reconcile (mapped_new E_Ambiguous (failed_data e True)))"
  | (cancelled) "e = AgentCancelled" "cancel = CC_User" "m = mapped_new E_Cancel td_default"
  | (shutdown) "e = AgentCancelled" "cancel = CC_Shutdown" "m = mapped_follow FU_Redispatch (mapped_new E_Shutdown td_default)"
proof (cases "retry_class e")
  case RC_NeedsReconnect
  then show ?thesis using assms reconnect by (auto simp: map_error_def Let_def split: AgentError.splits)
next
  case RC_Cancelled
  then have "e = AgentCancelled" by (cases e rule: retry_class.cases) (auto split: option.splits if_splits)
  then show ?thesis
    using assms RC_Cancelled retry cancelled shutdown by (auto simp: map_error_def Let_def split: CancelCause.splits)
qed (use assms retry permanent quota ambiguous in \<open>auto simp: map_error_def Let_def\<close>)

lemma map_retry_event:
  "m_event (map_retry cal e n mx now delay)
   = (if n + 1 \<ge> int mx then E_RetryBudgetExhausted else E_RetryableFailure)"
  by (simp add: map_retry_def mapped_defs)

lemma map_result_None_iff:
  "map_result cal pick r n mx now cancel d = None \<longleftrightarrow> r = Inl AgentCancelled \<and> cancel = CC_LeaseLost"
proof (cases r)
  case (Inl e)
  have "retry_class e = RC_Cancelled \<longleftrightarrow> e = AgentCancelled"
    by (cases e rule: retry_class.cases) (auto split: option.splits if_splits)
  with Inl show ?thesis
    by (auto simp: map_result_def map_error_def Let_def split: RetryClass.splits CancelCause.splits)
qed (auto simp: map_result_def Let_def split: PublishOutcome.split)

text \<open>What the state a result leads to asks of the follow-up work.\<close>

definition follow_up_fits :: "Mapped \<Rightarrow> DeliveryState \<Rightarrow> bool" where
  "follow_up_fits m to =
     ((to = S_Pending \<longleftrightarrow> m_follow_up m = FU_Redispatch)
      \<and> (to = S_Processing \<longleftrightarrow>
           (case m_follow_up m of FU_Poll at \<Rightarrow> td_check_due_at (m_data m) = Some at | _ \<Rightarrow> False))
      \<and> (to = S_OutcomeUnknown \<longleftrightarrow> m_follow_up m = FU_Reconcile)
      \<and> (to = S_Parked QuotaExceeded \<longleftrightarrow> td_parked_until (m_data m) \<noteq> None)
      \<and> (m_follow_up m = FU_MarkGrant \<or> m_follow_up m = FU_MarkAccount \<longleftrightarrow> to = S_Parked AccountNeedsReconnect))"

text \<open>
  C27: every answer of an agent is handled. Only a stop after a lost lease writes nothing; every
  other result maps to an event the table allows from \<^verbatim>\<open>in_flight\<close>, and the state it leads to
  gets the follow-up it needs: a delivery that goes back to \<^verbatim>\<open>pending\<close> is queued again, one that
  is \<^verbatim>\<open>processing\<close> is polled at the time recorded as its backstop, one whose outcome is unknown
  is reconciled, and one parked for its quota has a time to resume.
\<close>

theorem every_result_has_its_follow_up:
  "case map_result cal pick r n mx now cancel d of
     None \<Rightarrow> r = Inl AgentCancelled \<and> cancel = CC_LeaseLost
   | Some m \<Rightarrow>
       (case transition S_InFlight (m_event m) of Inl _ \<Rightarrow> False | Inr to \<Rightarrow> follow_up_fits m to)"
proof (cases "map_result cal pick r n mx now cancel d")
  case None
  with map_result_None_iff [of cal pick r n mx now cancel d] show ?thesis by simp
next
  case (Some m)
  note defs = follow_up_fits_def mapped_defs transition_def td_default_def failed_data_def receipt_data_def
  show ?thesis
  proof (cases r)
    case (Inr out)
    then show ?thesis
      using Some by (cases out) (auto simp: map_result_def Let_def defs split: option.splits)
  next
    case (Inl e)
    then have "map_error cal pick e n mx now cancel d = Some m" using Some by (simp add: map_result_def)
    then have "case transition S_InFlight (m_event m) of Inl _ \<Rightarrow> False | Inr to \<Rightarrow> follow_up_fits m to"
      by (cases rule: map_error_cases) (auto simp: map_retry_def defs)
    then show ?thesis using Some by simp
  qed
qed

text \<open>
  A delivery whose every answer sends it back to be tried again. \<open>tries c rs\<close>: starting with
  \<open>c\<close> counted attempts, each of the results \<open>rs\<close> in turn maps to a counted retry.
\<close>

fun tries :: "'z calendar \<Rightarrow> (nat \<Rightarrow> nat) \<Rightarrow> nat \<Rightarrow> CancelCause \<Rightarrow> AgentDescriptor \<Rightarrow> int
    \<Rightarrow> ((AgentError + PublishOutcome) \<times> timestamp) list \<Rightarrow> bool" where
  "tries cal pick mx cancel d c [] = True"
| "tries cal pick mx cancel d c ((r, now) # rs) =
     (case map_result cal pick r c mx now cancel d of
        None \<Rightarrow> False
      | Some m \<Rightarrow> m_event m = E_RetryableFailure \<and> tries cal pick mx cancel d
          (if td_count_attempt (m_data m) then c + 1 else c) rs)"

lemma retryable_counts:
  assumes "map_result cal pick r c mx now cancel d = Some m" and "m_event m = E_RetryableFailure"
  shows "td_count_attempt (m_data m) \<and> c + 1 < int mx"
proof (cases r)
  case (Inl e)
  with assms(1) have "map_error cal pick e c mx now cancel d = Some m" by (simp add: map_result_def)
  then show ?thesis
    using assms(2)
    by (cases rule: map_error_cases) (auto simp: map_retry_def mapped_defs failed_data_def split: if_splits)
next
  case (Inr out)
  with assms show ?thesis by (cases out) (auto simp: map_result_def mapped_defs Let_def)
qed

text \<open>
  C28: the retry loop ends. Whatever the platform answers and whenever, a delivery is sent back to
  be tried again fewer than \<open>max_attempts\<close> times; a delivery that has none left is dead-lettered
  instead.
\<close>

theorem retry_loop_ends:
  assumes "tries cal pick mx cancel d c rs" and "0 \<le> c"
  shows "c + int (length rs) < max (int mx) (c + 1)"
  using assms
proof (induction rs arbitrary: c)
  case (Cons x rs)
  obtain r now where x: "x = (r, now)" by (cases x)
  from Cons.prems(1) obtain m where m: "map_result cal pick r c mx now cancel d = Some m"
    and ev: "m_event m = E_RetryableFailure"
    and rest: "tries cal pick mx cancel d (if td_count_attempt (m_data m) then c + 1 else c) rs"
    by (auto simp: x split: option.splits)
  have "td_count_attempt (m_data m)" and "c + 1 < int mx" using retryable_counts [OF m ev] by auto
  with Cons.IH [of "c + 1"] rest Cons.prems(2) show ?case by simp
qed simp

theorem retry_loop_ends_witness:
  "let rs = [(Inl (Transport ''timeout''), 5), (Inl (RateLimited (Some 7)), 9)]
   in tries sample_cal (\<lambda>c. 1) 3 CC_None sample_descriptor 0 rs \<and> 0 + int (length rs) < max 3 (0 + 1)"
proof -
  let ?rs = "[(Inl (Transport ''timeout''), 5), (Inl (RateLimited (Some 7)), 9)]
    :: ((AgentError + PublishOutcome) \<times> timestamp) list"
  have "tries sample_cal (\<lambda>c. 1) 3 CC_None sample_descriptor 0 ?rs"
    by (simp add: map_result_def map_error_def map_retry_def mapped_defs failed_data_def td_default_def)
  from this retry_loop_ends [OF this] show ?thesis by simp
qed

text \<open>
  C29: a retry never waits longer than a day. The time of the next attempt is not before now and
  at most 24 hours later, however large a \<^verbatim>\<open>Retry-After\<close> the platform sent, and it never leaves
  the range of representable times.
\<close>

theorem retry_waits_at_most_a_day:
  assumes "picks_in_range pick" and "now \<le> max_utc cal"
    and "map_result cal pick r n mx now cancel d = Some m" and "m_event m = E_RetryableFailure"
  shows "\<exists>at. td_next_attempt_at (m_data m) = Some at \<and> now \<le> at
    \<and> at \<le> now + int (from_hours 24) \<and> at \<le> max_utc cal"
proof (cases r)
  case (Inr out)
  with assms(3,4) show ?thesis by (cases out) (auto simp: map_result_def mapped_defs Let_def)
next
  case (Inl e)
  with assms(3) have "map_error cal pick e n mx now cancel d = Some m" by (simp add: map_result_def)
  then show ?thesis
  proof (cases rule: map_error_cases)
    case (retry delay)
    have delay: "delay \<le> from_hours 24"
      using retry(2) retry_delay_bounds [OF assms(1), of n] retry_ceiling_range [of n]
      by (auto simp: MAX_RETRY_AFTER_def backoff_consts)
    then have "delay \<le> time_delta_max" by (simp add: time_delta_max_def backoff_consts)
    with delay retry(1) assms(2,4) show ?thesis
      by (auto simp: map_retry_def mapped_defs later_def failed_data_def split: if_splits)
  qed (use assms(4) in \<open>auto simp: mapped_defs\<close>)
qed

theorem retry_waits_at_most_a_day_witness:
  "let m = map_retry sample_cal (RateLimited (Some (from_hours 90))) 0 5 7 MAX_RETRY_AFTER
   in map_result sample_cal (\<lambda>c. c) (Inl (RateLimited (Some (from_hours 90)))) 0 5 7 CC_None sample_descriptor = Some m
     \<and> (\<exists>at. td_next_attempt_at (m_data m) = Some at \<and> 7 \<le> at
       \<and> at \<le> 7 + int (from_hours 24) \<and> at \<le> max_utc sample_cal)"
proof -
  let ?m = "map_retry sample_cal (RateLimited (Some (from_hours 90))) 0 5 7 MAX_RETRY_AFTER"
  have m: "map_result sample_cal (\<lambda>c. c) (Inl (RateLimited (Some (from_hours 90)))) 0 5 7 CC_None sample_descriptor
      = Some ?m"
    by (simp add: map_result_def map_error_def MAX_RETRY_AFTER_def)
  moreover have "picks_in_range (\<lambda>c. c)" by (simp add: picks_in_range_def)
  moreover have "7 \<le> max_utc sample_cal" by (simp add: sample_cal_def)
  moreover have "m_event ?m = E_RetryableFailure" by (simp add: map_retry_event)
  ultimately show ?thesis
    using retry_waits_at_most_a_day [OF _ _ m] by simp
qed

end
