(* ===== verification/Progress.thy ===== *)
theory Progress
  imports Direct_Store Delivery_Quota
begin

text \<open>
  Every transaction of the engine takes each delivery forward: \<open>advance\<close> says that rows stay,
  that a row is either left in place or taken to a later generation or a later state of the same
  one, that a settled row does not change, and that every row went along a course of the transition
  table that starts exactly the platform calls listed, a new row beginning as \<^verbatim>\<open>pending\<close> under
  generation 0. One lemma per operation: all but one start no call.
\<close>

section \<open>Deliveries never go back\<close>

text \<open>
  The order of the states a delivery passes within one generation: every change of state that
  keeps the generation goes up.
\<close>

fun phase :: "DeliveryState \<Rightarrow> nat" where
  "phase S_Pending = 0"
| "phase S_Claimed = 1"
| "phase S_InFlight = 2"
| "phase S_Processing = 3"
| "phase S_OutcomeUnknown = 4"
| "phase (S_Parked r) = 5"
| "phase S_DeadLetter = 6"
| "phase _ = 7"

text \<open>States no event leaves: what they say of the post is final.\<close>

definition settled :: "DeliveryState \<Rightarrow> bool" where
  "settled st = (st = S_Published \<or> st = S_Simulated \<or> st = S_Cancelled)"

text \<open>
  The abstract machine of one delivery: its state and its dispatch generation. An event the
  transition table allows takes the delivery to the state the table names; one that makes it
  \<^verbatim>\<open>pending\<close> again or cancels it opens the next generation, every other one keeps it. A return to
  \<^verbatim>\<open>pending\<close> under a cancelled job ends as \<^verbatim>\<open>cancelled\<close> instead, and a delivery that waits can be
  handed out anew under the next generation. \<^verbatim>\<open>StartRemote\<close> is the one event that is seen from
  outside: \<open>hop x gs y\<close> lists in \<open>gs\<close> the generation whose platform call the move starts.
\<close>

abbreviation next_gen :: "DeliveryState \<Rightarrow> int \<Rightarrow> int" where
  "next_gen b g \<equiv> (if b = S_Pending \<or> b = S_Cancelled then g + 1 else g)"

inductive hop :: "DeliveryState \<times> int \<Rightarrow> int list \<Rightarrow> DeliveryState \<times> int \<Rightarrow> bool" where
  event: "transition a e = Inr b \<Longrightarrow> hop (a, g) (if e = E_StartRemote then [g] else []) (b, next_gen b g)"
| stopped: "transition a e = Inr S_Pending \<Longrightarrow> hop (a, g) [] (S_Cancelled, g + 1)"
| dispatch: "hop (S_Pending, g) [] (S_Pending, g + 1)"

text \<open>Any number of moves, with the generations started on the way in their order.\<close>

inductive course :: "DeliveryState \<times> int \<Rightarrow> int list \<Rightarrow> DeliveryState \<times> int \<Rightarrow> bool" where
  stay: "course x [] x"
| onward: "hop x gs y \<Longrightarrow> course y hs z \<Longrightarrow> course x (gs @ hs) z"

lemmas course_stay [simp, intro] = course.stay

lemma course_append: "course x gs y \<Longrightarrow> course y hs z \<Longrightarrow> course x (gs @ hs) z"
  by (induction rule: course.induct) (auto intro: course.onward)

lemma hop_course: "hop x gs y \<Longrightarrow> course x gs y"
  using course.onward [OF _ course.stay] by fastforce

lemma quiet_hop: "transition a e = Inr b \<Longrightarrow> e \<noteq> E_StartRemote \<Longrightarrow> course (a, g) [] (b, next_gen b g)"
  using hop_course [OF hop.event] by fastforce

lemma dispatch_course [simp]: "course (S_Pending, g) [] (S_Pending, g + 1)"
  by (rule hop_course) (rule hop.dispatch)

text \<open>
  What the machine rules out. A delivery no platform was called for, and for which the course starts
  no call, is still untouched: it is not in flight, processing, of unknown outcome, published,
  simulated or dead-lettered.
\<close>

definition untouched :: "DeliveryState \<Rightarrow> bool" where
  "untouched st = (st \<in> {S_Pending, S_Claimed, S_Failed, S_Cancelled} \<or> (\<exists>r. st = S_Parked r \<and> r \<noteq> OutcomeUnresolvable))"

lemma hop_untouched: "hop x gs y \<Longrightarrow> gs = [] \<Longrightarrow> untouched (fst x) \<Longrightarrow> untouched (fst y)"
  by (induction rule: hop.induct)
    (auto simp: untouched_def transition_iff_move move_simps split: if_splits)

lemma course_untouched: "course x gs y \<Longrightarrow> gs = [] \<Longrightarrow> untouched (fst x) \<Longrightarrow> untouched (fst y)"
  by (induction rule: course.induct) (auto dest: hop_untouched)

lemma phase_resolved_state [simp]: "phase (resolved_state o1) = 7"
  by (cases o1) simp_all

lemma transition_phase:
  assumes "transition st ev = Inr to" and "to \<noteq> S_Pending" and "to \<noteq> S_Cancelled"
  shows "phase st < phase to"
  using assms by (cases st; cases ev) (auto simp: transition_def split: if_splits)

text \<open>Nor is a call repeated under one generation: the generations a course starts rise strictly.\<close>

lemma hop_order: "hop x gs y \<Longrightarrow> snd x < snd y \<or> snd x = snd y \<and> phase (fst x) < phase (fst y)"
proof (induction rule: hop.induct)
  case (event a e b g)
  then show ?case using transition_phase [of a e b] by auto
qed auto

lemma hop_starts:
  assumes "hop x gs y"
  shows "gs = [] \<or> (\<exists>g. gs = [g] \<and> x = (S_Claimed, g) \<and> y = (S_InFlight, g))"
  using assms
proof (induction rule: hop.induct)
  case (event a e b g)
  then show ?case by (auto simp: transition_iff_move elim: move_elim)
qed auto

lemma course_starts_rise:
  "course x gs y \<Longrightarrow> sorted_wrt (<) gs \<and> (\<forall>g \<in> set gs. snd x < g \<or> snd x = g \<and> phase (fst x) \<le> 1)"
proof (induction rule: course.induct)
  case (onward x gs y hs z)
  from hop_starts [OF onward.hyps(1)] show ?case
  proof
    assume "gs = []"
    then show ?thesis using onward.IH hop_order [OF onward.hyps(1)] by fastforce
  next
    assume "\<exists>g. gs = [g] \<and> x = (S_Claimed, g) \<and> y = (S_InFlight, g)"
    then show ?thesis using onward.IH by fastforce
  qed
qed simp

definition ahead :: "int list \<Rightarrow> delivery_row \<Rightarrow> delivery_row \<Rightarrow> bool" where
  "ahead gs r q =
     ((d_dispatch_gen r < d_dispatch_gen q
       \<or> d_dispatch_gen r = d_dispatch_gen q
         \<and> (phase (d_state r) < phase (d_state q)
            \<or> d_state r = d_state q \<and> d_check_seq r \<le> d_check_seq q))
      \<and> (settled (d_state r) \<longrightarrow>
            d_state q = d_state r \<and> d_dispatch_gen q = d_dispatch_gen r \<and> d_remote_id q = d_remote_id r)
      \<and> course (d_state r, d_dispatch_gen r) gs (d_state q, d_dispatch_gen q))"

lemma ahead_order:
  "ahead gs r q \<Longrightarrow> d_dispatch_gen r < d_dispatch_gen q
     \<or> d_dispatch_gen r = d_dispatch_gen q
       \<and> (phase (d_state r) < phase (d_state q)
          \<or> d_state r = d_state q \<and> d_check_seq r \<le> d_check_seq q)"
  by (simp add: ahead_def)

lemma ahead_settled:
  "ahead gs r q \<Longrightarrow> settled (d_state r) \<Longrightarrow>
     d_state q = d_state r \<and> d_dispatch_gen q = d_dispatch_gen r \<and> d_remote_id q = d_remote_id r"
  by (simp add: ahead_def)

lemma ahead_course: "ahead gs r q \<Longrightarrow> course (d_state r, d_dispatch_gen r) gs (d_state q, d_dispatch_gen q)"
  by (simp add: ahead_def)

lemma ahead_refl [simp]: "ahead [] r r"
  by (simp add: ahead_def)

lemma ahead_trans:
  assumes "ahead gs r q" and "ahead hs q p"
  shows "ahead (gs @ hs) r p"
proof -
  have to: "course (d_state r, d_dispatch_gen r) (gs @ hs) (d_state p, d_dispatch_gen p)"
    using ahead_course [OF assms(1)] ahead_course [OF assms(2)] by (rule course_append)
  show ?thesis
  proof (cases "settled (d_state r)")
    case True
    have q: "d_state q = d_state r" "d_dispatch_gen q = d_dispatch_gen r" "d_remote_id q = d_remote_id r"
      using ahead_settled [OF assms(1) True] by auto
    have p: "d_state p = d_state r" "d_dispatch_gen p = d_dispatch_gen r" "d_remote_id p = d_remote_id r"
      using ahead_settled [OF assms(2)] True q by auto
    have "d_check_seq r \<le> d_check_seq q" "d_check_seq q \<le> d_check_seq p"
      using ahead_order [OF assms(1)] ahead_order [OF assms(2)] q p by simp_all
    with p to show ?thesis by (simp add: ahead_def)
  next
    case False
    have "d_dispatch_gen r < d_dispatch_gen p
       \<or> d_dispatch_gen r = d_dispatch_gen p
         \<and> (phase (d_state r) < phase (d_state p)
            \<or> d_state r = d_state p \<and> d_check_seq r \<le> d_check_seq p)"
      using ahead_order [OF assms(1)] ahead_order [OF assms(2)] by auto
    with False to show ?thesis by (simp add: ahead_def)
  qed
qed

text \<open>
  The tables: \<open>advance ks s t\<close> says that the platform calls started between the two states are
  \<open>ks\<close>, in that order, as pairs of a delivery and its generation.
\<close>

definition starts_of :: "uuid \<Rightarrow> (uuid \<times> int) list \<Rightarrow> int list" where
  "starts_of d ks = map snd (filter (\<lambda>k. fst k = d) ks)"

lemma starts_of_simps [simp]:
  "starts_of d [] = []"
  "starts_of d (k # ks) = (if fst k = d then snd k # starts_of d ks else starts_of d ks)"
  "starts_of d (ks @ ks') = starts_of d ks @ starts_of d ks'"
  by (simp_all add: starts_of_def)

definition advance :: "(uuid \<times> int) list \<Rightarrow> db \<Rightarrow> db \<Rightarrow> bool" where
  "advance ks s t \<longleftrightarrow>
     (\<forall>d. case row_by d_id d (deliveries s) of
            Some r \<Rightarrow> (\<exists>q. row_by d_id d (deliveries t) = Some q \<and> ahead (starts_of d ks) r q)
          | None \<Rightarrow> (case row_by d_id d (deliveries t) of
              None \<Rightarrow> starts_of d ks = []
            | Some q \<Rightarrow> course (S_Pending, 0) (starts_of d ks) (d_state q, d_dispatch_gen q)))"

abbreviation quiet :: "db \<Rightarrow> db \<Rightarrow> bool" where
  "quiet \<equiv> advance []"

definition no_regress :: "db \<Rightarrow> db \<Rightarrow> bool" where
  "no_regress s t \<longleftrightarrow> (\<exists>ks. advance ks s t)"

lemma advance_refl [simp]: "quiet s s"
  by (auto simp: advance_def split: option.split)

lemma advance_row:
  assumes "advance ks s t" and "row_by d_id d (deliveries s) = Some r"
  obtains q where "row_by d_id d (deliveries t) = Some q" and "ahead (starts_of d ks) r q"
  using spec [OF assms(1) [unfolded advance_def], of d] assms(2) that by auto

lemma advance_new:
  assumes "advance ks s t" and "row_by d_id d (deliveries s) = None"
  shows "case row_by d_id d (deliveries t) of None \<Rightarrow> starts_of d ks = []
    | Some q \<Rightarrow> course (S_Pending, 0) (starts_of d ks) (d_state q, d_dispatch_gen q)"
  using spec [OF assms(1) [unfolded advance_def], of d] assms(2) by simp

lemma advance_trans:
  assumes "advance ks s t" and "advance ks' t u"
  shows "advance (ks @ ks') s u"
  unfolding advance_def
proof
  fix d
  show "case row_by d_id d (deliveries s) of
      Some r \<Rightarrow> (\<exists>q. row_by d_id d (deliveries u) = Some q \<and> ahead (starts_of d (ks @ ks')) r q)
    | None \<Rightarrow> (case row_by d_id d (deliveries u) of
        None \<Rightarrow> starts_of d (ks @ ks') = []
      | Some q \<Rightarrow> course (S_Pending, 0) (starts_of d (ks @ ks')) (d_state q, d_dispatch_gen q))"
  proof (cases "row_by d_id d (deliveries s)")
    case (Some r)
    with assms(1) obtain p where p: "row_by d_id d (deliveries t) = Some p" "ahead (starts_of d ks) r p"
      by (rule advance_row)
    from assms(2) p(1) obtain q where "row_by d_id d (deliveries u) = Some q" "ahead (starts_of d ks') p q"
      by (rule advance_row)
    with Some p(2) show ?thesis using ahead_trans by fastforce
  next
    case None
    note new = advance_new [OF assms(1) None]
    show ?thesis
    proof (cases "row_by d_id d (deliveries t)")
      case None
      with new advance_new [OF assms(2) None] \<open>row_by d_id d (deliveries s) = None\<close>
      show ?thesis by (simp split: option.split_asm option.split)
    next
      case (Some p)
      from assms(2) Some obtain q where "row_by d_id d (deliveries u) = Some q" "ahead (starts_of d ks') p q"
        by (rule advance_row)
      with new Some None show ?thesis by (auto intro: course_append dest: ahead_course)
    qed
  qed
qed

lemma quiet_trans: "quiet s t \<Longrightarrow> quiet t u \<Longrightarrow> quiet s u"
  using advance_trans [of "[]" s t "[]" u] by simp

lemma advance_no_regress: "advance ks s t \<Longrightarrow> no_regress s t"
  unfolding no_regress_def by blast

lemma no_regress_refl [simp]: "no_regress s s"
  unfolding no_regress_def using advance_refl by blast

lemma no_regress_trans: "no_regress s t \<Longrightarrow> no_regress t u \<Longrightarrow> no_regress s u"
  unfolding no_regress_def using advance_trans by blast

lemma no_regress_row:
  assumes "no_regress s t" and "row_by d_id d (deliveries s) = Some r"
  obtains q gs where "row_by d_id d (deliveries t) = Some q" and "ahead gs r q"
  using assms unfolding no_regress_def by (blast elim: advance_row)

lemma quiet_same: "deliveries t = deliveries s \<Longrightarrow> quiet s t"
  by (auto simp: advance_def split: option.split)

lemma quiet_same_left: "deliveries t = deliveries s \<Longrightarrow> quiet t u = quiet s u"
  by (simp add: advance_def)

lemma quiet_rows:
  assumes "deliveries t = sql_update p f (deliveries s)" and "keeps_keys f"
    and "\<And>r. r \<in> set (deliveries s) \<Longrightarrow> p r \<Longrightarrow> ahead [] r (f r)"
  shows "quiet s t"
  using assms by (auto simp: advance_def row_by_write dest: row_by_mem split: option.split)

lemma advance_one:
  assumes "\<And>d. d \<noteq> x \<Longrightarrow> row_by d_id d (deliveries t) = row_by d_id d (deliveries s)"
    and "row_by d_id x (deliveries s) = Some r" and "row_by d_id x (deliveries t) = Some q" and "ahead gs r q"
    and "\<And>d. starts_of d ks = (if d = x then gs else [])"
  shows "advance ks s t"
  using assms by (auto simp: advance_def split: option.split)

lemma settled_transition: "transition st ev = Inr to \<Longrightarrow> \<not> settled st"
  by (cases st) (auto simp: transition_def settled_def)

lemma apply_row_state [simp]: "d_state (apply_row st data now r) = st"
  by (simp add: apply_row_def)

text \<open>The one transaction that starts platform calls.\<close>

definition started :: "Fence \<Rightarrow> DeliveryEvent \<Rightarrow> Applied \<Rightarrow> (uuid \<times> int) list" where
  "started f ev applied = (if ev = E_StartRemote \<and> applied \<noteq> Stale then [(f_id f, f_dispatch_gen f)] else [])"

lemma apply_event_course:
  assumes "transition a ev = Inr to" and "st = apply_target s f to"
  shows "course (a, g) (if ev = E_StartRemote then [g] else []) (st, next_gen st g)"
proof (cases "st = to")
  case True
  then show ?thesis using hop_course [OF hop.event [OF assms(1), of g]] by simp
next
  case False
  then have "to = S_Pending" "st = S_Cancelled" using assms(2) apply_target_cases [of s f to] by auto
  moreover from this assms(1) have "ev \<noteq> E_StartRemote" by (auto simp: transition_iff_move elim: move_elim)
  ultimately show ?thesis using assms(1) hop.stopped [of a ev g] by (simp add: hop_course)
qed

lemma apply_event_advance:
  assumes ok: "db_inv X s" and run: "apply_event s f ev data now = Inr (r, t)"
  shows "advance (started f ev r) s t"
proof (cases r)
  case Stale
  with run show ?thesis by (auto elim!: apply_event_cases simp: apply_write_Stale started_def)
next
  case (Done st dispatch change)
  from ok run [unfolded Done] show ?thesis
  proof (rule apply_event_row)
    fix old cs to
    let ?new = "(apply_row st data now old)\<lparr>d_direct_counts := cs\<rparr>"
    let ?gs = "if ev = E_StartRemote then [d_dispatch_gen old] else []"
    assume rows: "row_by d_id (f_id f) (deliveries s) = Some old"
        "row_by d_id (f_id f) (deliveries t) = Some ?new"
      and old: "d_state old = f_expected f" "d_dispatch_gen old = f_dispatch_gen f"
      and to: "transition (f_expected f) ev = Inr to" and st: "st = apply_target s f to"
    have old': "\<not> settled (d_state old)" using settled_transition [OF to] old by simp
    have to': "course (d_state old, d_dispatch_gen old) ?gs (st, next_gen st (d_dispatch_gen old))"
      using apply_event_course [OF to st] old(1) by simp
    have "ahead ?gs old ?new"
    proof (cases "st = S_Pending \<or> st = S_Cancelled")
      case True
      then show ?thesis using old' to' by (auto simp: ahead_def apply_row_gen apply_row_state)
    next
      case False
      then have "phase (d_state old) < phase st"
        using transition_phase [OF to] st old apply_target_cases [of s f to] by auto
      then show ?thesis using False old' to' by (simp add: ahead_def apply_row_gen apply_row_state)
    qed
    moreover have "starts_of d (started f ev r) = (if d = f_id f then ?gs else [])" for d
      using old(2) Done by (simp add: started_def)
    ultimately show ?thesis using apply_event_other_rows [OF run] rows by (blast intro: advance_one)
  qed
qed

lemma apply_event_quiet:
  "db_inv X s \<Longrightarrow> apply_event s f ev data now = Inr (r, t) \<Longrightarrow> ev \<noteq> E_StartRemote \<Longrightarrow> quiet s t"
  using apply_event_advance [of X s f ev data now r t] by (simp add: started_def)

lemma touch_quiet: "touch_job s job now = Inr (c, t) \<Longrightarrow> quiet s t"
  by (auto intro: quiet_same dest: touch_job_tables)

lemma move_quiet:
  assumes "touch_job (write_deliveries s p f) job now = Inr (c, t)" and "keeps_keys f"
    and "\<And>r. r \<in> set (deliveries s) \<Longrightarrow> p r \<Longrightarrow> ahead [] r (f r)"
  shows "quiet s t"
  by (rule quiet_rows [of t p f]) (use assms touch_job_tables(1) [OF assms(1)] in auto)

lemma claim_quiet:
  assumes "claim s did gen now lease = Inr (r, t)"
  shows "quiet s t"
proof -
  have "keeps_keys (claim_row now e)" for e by (simp add: keeps_keys_def claim_row_def)
  moreover have "ahead [] q (claim_row now e q)" if "claimable s did gen now q" for q e
    using that quiet_hop [of S_Pending E_Claim S_Claimed]
    by (simp add: ahead_def claim_row_def claimable_def settled_def transition_def)
  ultimately show ?thesis
    using assms
    by (auto simp: claim_def Let_def bindE_Inr_iff split: option.split_asm elim!: move_quiet)
qed

lemma record_late_receipt_quiet:
  assumes "record_late_receipt s did receipt now = Inr (r, t)"
  shows "quiet s t"
proof -
  have "keeps_keys (receipt_row S_Published receipt now)" by (simp add: keeps_keys_def receipt_row_def)
  moreover have "ahead [] q (receipt_row S_Published receipt now q)" if "unanswered did q" for q
    using that quiet_hop [of S_OutcomeUnknown E_ReconcileFound S_Published]
    by (simp add: ahead_def receipt_row_def unanswered_def settled_def transition_def)
  ultimately show ?thesis
    using assms
    by (auto simp: record_late_receipt_def transition_def Let_def bindE_Inr_iff split: option.split_asm
        elim!: move_quiet)
qed

lemma set_remote_publish_at_quiet:
  "set_remote_publish_at s f at now = Inr (r, t) \<Longrightarrow> quiet s t"
  by (auto simp: set_remote_publish_at_def Let_def bindE_Inr_iff keeps_keys_def ahead_def
      split: option.split_asm elim!: move_quiet)

lemma request_cancel_quiet: "request_cancel s d act now = Inr (r, t) \<Longrightarrow> quiet s t"
  by (auto simp: request_cancel_def Let_def bindE_Inr_iff keeps_keys_def ahead_def elim!: move_quiet)

lemma renew_lease_quiet: "quiet s (snd (renew_lease s did gen now lease))"
  by (auto simp: renew_lease_def keeps_keys_def ahead_def split: option.split intro!: quiet_rows)

lemma set_container_ref_quiet: "quiet s (snd (set_container_ref s f cref))"
  by (auto simp: set_container_ref_def keeps_keys_def ahead_def intro!: quiet_rows)

lemma set_check_due_quiet: "quiet s (snd (set_check_due s f seq due))"
  by (auto simp: set_check_due_def keeps_keys_def ahead_def intro!: quiet_rows)

lemma take_check_quiet: "take_check s f seq next_due = Inr (b, t) \<Longrightarrow> quiet s t"
  by (auto simp: take_check_def keeps_keys_def ahead_def split: if_splits intro!: quiet_rows)

lemma store_counts_quiet: "store_counts s did = Inr t \<Longrightarrow> quiet s t"
  by (auto simp: store_counts_def result_simps keeps_keys_def ahead_def intro!: quiet_rows)

lemma cancel_loaded_quiet:
  "db_inv X s \<Longrightarrow> cancel_loaded s d act now = Inr (r, t) \<Longrightarrow> quiet s t"
  by (auto simp: cancel_loaded_def split: DeliveryState.splits if_splits
      elim!: cancel_now_cases intro: apply_event_quiet request_cancel_quiet)

text \<open>A loop of such writes under an invariant.\<close>

lemma fold_quiet:
  assumes "foldE f (a, s) xs = Inr (b, t)" and "I s"
    and step: "\<And>a s x b t. I s \<Longrightarrow> f (a, s) x = Inr (b, t) \<Longrightarrow> I t \<and> quiet s t"
  shows "quiet s t"
proof -
  have "(\<lambda>(a, u). I u \<and> quiet s u) (b, t)"
    using assms(1)
  proof (rule foldE_invariant)
    show "case (a, s) of (a, u) \<Rightarrow> I u \<and> quiet s u" using assms(2) by simp
    fix acc x acc'
    assume acc: "case acc of (a, u) \<Rightarrow> I u \<and> quiet s u" and run: "f acc x = Inr acc'"
    obtain a1 u1 a2 u2 where [simp]: "acc = (a1, u1)" "acc' = (a2, u2)" by (metis surj_pair)
    from acc run step [of u1 a1 x a2 u2] show "case acc' of (a, u) \<Rightarrow> I u \<and> quiet s u"
      by (auto intro: quiet_trans)
  qed
  then show ?thesis by simp
qed

lemma cancel_rows_quiet:
  assumes "db_inv X s" and "cancel_rows s rows now = Inr (r, t)"
  shows "quiet s t"
  using assms(2,1) unfolding cancel_rows_def
  by (rule fold_quiet)
    (auto simp: Let_def result_simps intro: cancel_loaded_ok cancel_loaded_quiet)

lemma forget_counts_quiet: "quiet s (forget_counts s did)"
  by (auto simp: forget_counts_def keeps_keys_def ahead_def intro!: quiet_rows)

lemma retry_quiet:
  assumes "db_inv X s" and "retry s scope did ack now = Inr (r, t)"
  shows "quiet s t"
  using assms(2)
proof (rule retry_cases)
  fix d j st change u
  assume ev: "apply_event s (fence_of d) (E_UserRetry ack)
         (td_default\<lparr>td_reset_attempts := True, td_actor := Some (actor scope)\<rparr>) now
       = Inr (Done st (Some r) change, u)"
    and t: "t = (if v_operation d = Op_Direct then forget_counts u did else u)"
  show ?thesis
    using quiet_trans [OF apply_event_quiet [OF assms(1) ev] forget_counts_quiet]
      apply_event_quiet [OF assms(1) ev] by (simp add: t)
qed

lemma resolve_quiet:
  "db_inv X s \<Longrightarrow> resolve_with_status s scope did outcome now = Inr (r, t) \<Longrightarrow> quiet s t"
  by (cases r) (auto elim!: resolve_cases intro: apply_event_quiet)

lemma row_by_append: "row_by key k rows = Some r \<Longrightarrow> row_by key k (rows @ rest) = Some r"
  unfolding row_by_def by (rule find_append_Some)

lemma row_by_append_None:
  "row_by key k rows = None \<Longrightarrow> row_by key k (rows @ [r]) = (if key r = k then Some r else None)"
  unfolding row_by_def by (simp add: find_append_None)

lemma quiet_append: "d_state r = S_Pending \<Longrightarrow> d_dispatch_gen r = 0 \<Longrightarrow> quiet s (s\<lparr>deliveries := deliveries s @ [r]\<rparr>)"
  by (auto simp: advance_def row_by_append row_by_append_None split: option.split)

lemma new_delivery_state:
  "d_state (new_delivery_row sha256 user act post new clock target) = S_Pending"
  "d_dispatch_gen (new_delivery_row sha256 user act post new clock target) = 0"
  by (simp_all add: new_delivery_row_def)

lemma insert_job_quiet:
  assumes "insert_job sha256 s user act post new clock now = Inr (r, t)"
  shows "quiet s t"
proof -
  from assms obtain s1 s2 st where
    job: "insert_job_row s (new_job_row user act post new clock) = Inr s1"
    and fold: "foldE (\<lambda>s target. insert_delivery_row s
        (new_delivery_row sha256 user act post new clock target)) s1 (nj_targets new) = Inr s2"
    and refresh: "refresh_job_status s2 (nj_id new) now = Inr (st, t)"
    by (auto simp: insert_job_def result_simps split: if_splits)
  have s1: "deliveries s1 = deliveries s"
    using job by (auto simp: insert_job_row_def split: if_splits)
  have "quiet s s2"
    using fold
  proof (rule foldE_invariant)
    show "quiet s s1" using s1 by (rule quiet_same)
    fix u target u'
    assume "quiet s u" and "insert_delivery_row u (new_delivery_row sha256 user act post new clock target) = Inr u'"
    then show "quiet s u'"
      using quiet_trans [OF _ quiet_append [OF new_delivery_state]]
      by (auto simp: insert_delivery_row_def split: if_splits)
  qed
  then show ?thesis
    using quiet_trans [OF _ quiet_same] refresh_tables(1) [OF refresh] by blast
qed

lemma reschedule_quiet:
  assumes "reschedule_pending_with s scope job at now upload_now = Inr (r, t)"
  shows "quiet s t"
proof -
  from assms obtain ids where
    "deliveries t = sql_update (\<lambda>r. d_id r \<in> ids \<and> d_state r = S_Pending) (reschedule_row at now upload_now (actor scope)) (deliveries s)"
    by (auto simp: reschedule_pending_with_def Let_def result_simps split: if_splits
        dest!: touch_job_tables(1))
  then show ?thesis
    by (rule quiet_rows) (simp_all add: keeps_keys_def reschedule_row_def ahead_def settled_def)
qed

lemma cancel_job_quiet:
  assumes ok: "db_ok s" and run: "cancel_job_with_status s scope job now = Inr (r, t)"
  shows "quiet s t"
proof -
  let ?s0 = "mark_cancelled s job now (actor scope)"
  from run obtain todo acc s1 c where
    fold: "foldE (cancel_each (actor scope) now) (([], None), ?s0) todo = Inr (acc, s1)"
    and touch: "touch_job s1 job now = Inr (c, t)"
    by (auto simp: cancel_job_with_status_def result_simps)
  have "db_inv UNIV ?s0" using ok by (rule mark_cancelled_inv) simp
  with fold have "quiet ?s0 s1"
    by (rule fold_quiet [of _ _ _ _ _ _ "db_inv UNIV"])
      (auto simp: cancel_each_def result_simps split: prod.splits
        intro: cancel_loaded_ok cancel_loaded_quiet)
  then have "quiet s s1" using quiet_same_left [of ?s0 s s1] by (simp add: mark_cancelled_def)
  then show ?thesis using touch_quiet [OF touch] by (rule quiet_trans)
qed

lemma overdue_quiet:
  assumes ok: "db_inv X s" and run: "overdue_pending s held now grace limit = Inr (ds, t)"
  shows "quiet s t"
  using run
proof (rule overdue_pending_cases)
  fix picked u
  assume picked: "set picked \<subseteq> {r \<in> set (deliveries s). d_state r = S_Pending
       \<and> at_most (d_next_attempt_at r) (now - grace) \<and> d_updated_at r \<le> now - grace
       \<and> job_live s r \<and> \<not> held (d_id r)}"
    and t: "u = write_deliveries s (\<lambda>r. d_id r \<in> d_id ` set picked) (overdue_row now)"
      "deliveries t = deliveries u"
  show ?thesis
  proof (rule quiet_rows)
    show "deliveries t = sql_update (\<lambda>r. d_id r \<in> d_id ` set picked) (overdue_row now) (deliveries s)"
      using t by simp
    fix r assume "r \<in> set (deliveries s)" and "d_id r \<in> d_id ` set picked"
    then have "d_state r = S_Pending" using picked db_inv_same_row [OF ok] by blast
    then show "ahead [] r (overdue_row now r)" by (simp add: ahead_def overdue_row_def settled_def)
  qed (simp add: keeps_keys_def overdue_row_def)
qed

lemma sweep_fold_quiet:
  assumes "db_inv X s" and "ev \<noteq> E_Claim \<and> ev \<noteq> E_StartRemote" and "foldE (sweep_each st ev data now) (ws, s) rows = Inr (ws', t)"
  shows "quiet s t"
  using assms(3,1)
  by (rule fold_quiet)
    (use assms(2) in \<open>auto elim!: sweep_each_cases intro: apply_event_ok apply_event_quiet\<close>)

lemma expired_quiet:
  assumes "db_inv X s"
  shows "expired_claims s held now limit = Inr (ws, t) \<Longrightarrow> quiet s t"
    and "expired_in_flight s held now limit = Inr (ws, t) \<Longrightarrow> quiet s t"
  using assms
  by (auto simp: expired_claims_def expired_in_flight_def bindE_Inr_iff
      dest!: sweep_fold_quiet [rotated 2])

lemma stalled_quiet: "stalled_checks s held now grace limit = Inr (cs, t) \<Longrightarrow> quiet s t"
  by (auto simp: stalled_checks_def Let_def bindE_Inr_iff keeps_keys_def ahead_def intro!: quiet_rows)

lemma orphaned_quiet: "orphaned_direct s held now grace limit = Inr (ds, t) \<Longrightarrow> quiet s t"
  by (auto simp: orphaned_direct_def Let_def bindE_Inr_iff keeps_keys_def ahead_def
      dest!: touch_all_tables intro!: quiet_rows)

lemma unpark_quiet:
  assumes "db_inv X s" and "unpark s held i = Inr (res, t)"
  shows "quiet s t"
proof -
  from assms(2) obtain rows where
    "foldE (unpark_each i) (\<lparr>ur_resumed = [], ur_needs_owner = []\<rparr>, s) rows = Inr (res, t)"
    by (auto simp: unpark_def bindE_Inr_iff)
  then show ?thesis
    using assms(1)
  proof (rule fold_quiet)
    fix a u row b v
    assume ok: "db_inv X u" and run: "unpark_each i (a, u) row = Inr (b, v)"
    from run show "db_inv X v \<and> quiet u v"
    proof (cases rule: unpark_each_cases)
      case stale
      then show ?thesis
        using ok by (auto simp: keeps_keys_def ahead_def intro: notify_ok intro!: quiet_rows)
    next
      case (resume applied)
      then show ?thesis using ok by (auto intro: apply_event_ok apply_event_quiet)
    qed
  qed
qed

lemma materialize_quiet: "materialize s clock fresh d audience now = Inr (n, t) \<Longrightarrow> quiet s t"
  by (auto simp: materialize_def Let_def result_simps keeps_keys_def ahead_def split: option.splits
      dest!: touch_job_tables(1) intro!: quiet_rows)

lemma wait_for_cap_quiet: "wait_for_cap s f resume_at now = Inr (b, t) \<Longrightarrow> quiet s t"
  by (auto simp: wait_for_cap_def Let_def result_simps keeps_keys_def ahead_def split: option.splits
      dest!: touch_job_tables(1) intro!: quiet_rows)

lemma record_send_quiet:
  assumes "record_send s sid batch result now = Inr (b, t)"
  shows "quiet s t"
  using assms
proof (cases rule: record_send_cases)
  case gone
  then show ?thesis by simp
next
  case (landed old s2)
  have "deliveries s2 = deliveries s"
    using landed(3) by (cases result) (auto dest: add_hash_tables)
  then have "quiet s s2" by (rule quiet_same)
  moreover have "quiet s2 t"
    using landed(4) by (auto intro: quiet_trans [OF store_counts_quiet touch_quiet])
  ultimately show ?thesis by (rule quiet_trans)
qed

lemma finish_if_done_quiet:
  "db_inv X s \<Longrightarrow> finish_if_done s f now = Inr (a, t) \<Longrightarrow> quiet s t"
  by (auto elim!: finish_if_done_cases intro: apply_event_quiet)

end
