(* ===== verification/Engine.thy ===== *)
theory Engine
  imports Progress
begin

text \<open>
  The publishing engine as a system of transactions. Workers, polls, reconciles, sweeps, batches
  and users run concurrently; what they share is the database, and each of their writes is one
  transaction of the theories above. A step of the engine is one committed transaction, so a run
  is any interleaving of them; a transaction that fails is rolled back and is no step.

  \<open>guarded_system\<close> and \<open>one_shot\<close> are the two contracts a run argument needs: steps keep an
  invariant and never go back in an order, and an action that needs an armed state leaves it
  spent. The interpretations are on the engine's step relation.
\<close>

section \<open>Runs\<close>

inductive run :: "('s \<Rightarrow> 'l \<Rightarrow> 's \<Rightarrow> bool) \<Rightarrow> 's \<Rightarrow> 'l list \<Rightarrow> 's \<Rightarrow> bool" for step where
  stop: "run step s [] s"
| more: "step s l u \<Longrightarrow> run step u ls t \<Longrightarrow> run step s (l # ls) t"

inductive_cases run_NilE: "run step s [] t"
inductive_cases run_ConsE: "run step s (l # ls) t"

locale guarded_system =
  fixes step :: "'s \<Rightarrow> 'l \<Rightarrow> 's \<Rightarrow> bool"
    and ok :: "'s \<Rightarrow> bool"
    and le :: "'s \<Rightarrow> 's \<Rightarrow> bool"
  assumes ok_step: "ok s \<Longrightarrow> step s l t \<Longrightarrow> ok t"
    and le_refl: "le s s"
    and le_trans: "le s t \<Longrightarrow> le t u \<Longrightarrow> le s u"
    and le_step: "ok s \<Longrightarrow> step s l t \<Longrightarrow> le s t"
begin

lemma run_ok: "run step s ls t \<Longrightarrow> ok s \<Longrightarrow> ok t"
  by (induction rule: run.induct) (auto intro: ok_step)

lemma run_le: "run step s ls t \<Longrightarrow> ok s \<Longrightarrow> le s t"
  by (induction rule: run.induct) (auto intro: le_refl le_trans le_step ok_step)

end

locale one_shot = guarded_system +
  fixes key :: "'b \<Rightarrow> 'k option"
    and armed :: "'a \<Rightarrow> 'k \<Rightarrow> bool"
    and spent :: "'a \<Rightarrow> 'k \<Rightarrow> bool"
  assumes fires: "ok s \<Longrightarrow> step s l t \<Longrightarrow> key l = Some k \<Longrightarrow> armed s k \<and> spent t k"
    and spent_stays: "spent s k \<Longrightarrow> le s t \<Longrightarrow> spent t k"
    and spent_unarmed: "spent s k \<Longrightarrow> \<not> armed s k"
begin

lemma spent_never_fires:
  assumes "run step s ls t" and "ok s" and "spent s k"
  shows "Some k \<notin> set (map key ls)"
  using assms
proof (induction rule: run.induct)
  case (more s l u ls t)
  have "key l \<noteq> Some k" using fires [OF more.prems(1) more.hyps(1)] spent_unarmed more.prems(2) by blast
  moreover have "spent u k"
    using spent_stays [OF more.prems(2) le_step [OF more.prems(1) more.hyps(1)]] .
  ultimately show ?case
    using more.IH [OF ok_step [OF more.prems(1) more.hyps(1)]] by (auto simp: eq_commute)
qed simp

lemma fires_at_most_once:
  assumes "run step s ls t" and "ok s"
  shows "distinct (filter (\<lambda>k. k \<noteq> None) (map key ls))"
  using assms
proof (induction rule: run.induct)
  case (more s l u ls t)
  have u: "ok u" by (rule ok_step [OF more.prems more.hyps(1)])
  show ?case
  proof (cases "key l")
    case None
    then show ?thesis using more.IH [OF u] by simp
  next
    case (Some k)
    have "spent u k" using fires [OF more.prems more.hyps(1) Some] by simp
    from spent_never_fires [OF more.hyps(2) u this] more.IH [OF u] Some show ?thesis by simp
  qed
qed simp

end

section \<open>The engine's step relation\<close>

text \<open>
  What a step is watched for: the platform call of a delivery's generation started, a step of a
  poll or reconcile chain was taken, or neither.
\<close>

datatype label =
    Started uuid int
  | Checked uuid int DeliveryState int
  | Other

definition label_of :: "Fence \<Rightarrow> DeliveryEvent \<Rightarrow> Applied \<Rightarrow> label" where
  "label_of f ev applied =
     (if ev = E_StartRemote \<and> applied \<noteq> Stale then Started (f_id f) (f_dispatch_gen f) else Other)"

inductive tx :: "db \<Rightarrow> label \<Rightarrow> db \<Rightarrow> bool" where
  claim: "claim s did gen now lease = Inr (c, t) \<Longrightarrow> tx s Other t"
| renew: "tx s Other (snd (renew_lease s did gen now lease))"
| fenced: "ev \<noteq> E_Claim \<Longrightarrow> apply_event s f ev data now = Inr (applied, t) \<Longrightarrow> tx s (label_of f ev applied) t"
| container: "tx s Other (snd (set_container_ref s f cref))"
| check: "in_check (f_expected f) \<Longrightarrow> take_check s f seq due = Inr (taken, t)
    \<Longrightarrow> tx s (if taken then Checked (f_id f) (f_dispatch_gen f) (f_expected f) seq else Other) t"
| check_due: "in_check (f_expected f) \<Longrightarrow> tx s Other (snd (set_check_due s f seq due))"
| late_receipt: "record_late_receipt s did receipt now = Inr (c, t) \<Longrightarrow> tx s Other t"
| native_time: "set_remote_publish_at s f at now = Inr (c, t) \<Longrightarrow> tx s Other t"
| attempt_start: "attempt_start s clock aid did now = Inr t \<Longrightarrow> tx s Other t"
| attempt_finish: "attempt_finish s aid outcome err summary now = Inr t \<Longrightarrow> tx s Other t"
| cancel: "cancel_with_status s scope did now = Inr (c, t) \<Longrightarrow> tx s Other t"
| cancel_account: "cancel_for_account_with_status s account now = Inr (cs, t) \<Longrightarrow> tx s Other t"
| cancel_owner: "cancel_for_owner_with_status s user now = Inr (cs, t) \<Longrightarrow> tx s Other t"
| retry: "retry s scope did ack now = Inr (d, t) \<Longrightarrow> tx s Other t"
| resolve: "resolve_with_status s scope did outcome now = Inr (c, t) \<Longrightarrow> tx s Other t"
| create: "create_job sha256 s scope locked new clock now = Inr (j, t) \<Longrightarrow> tx s Other t"
| create_system: "insert_job sha256 s user act post new clock now = Inr (j, t) \<Longrightarrow> tx s Other t"
| cancel_job: "cancel_job_with_status s scope job now = Inr (c, t) \<Longrightarrow> tx s Other t"
| reschedule: "reschedule_pending_with s scope job at now ups = Inr (r, t) \<Longrightarrow> tx s Other t"
| overdue: "overdue_pending s held now grace limit = Inr (ds, t) \<Longrightarrow> tx s Other t"
| claims_expired: "expired_claims s held now limit = Inr (ws, t) \<Longrightarrow> tx s Other t"
| in_flight_expired: "expired_in_flight s held now limit = Inr (ws, t) \<Longrightarrow> tx s Other t"
| stalled: "stalled_checks s held now grace limit = Inr (cs, t) \<Longrightarrow> tx s Other t"
| orphaned: "orphaned_direct s held now grace limit = Inr (ds, t) \<Longrightarrow> tx s Other t"
| unpark: "unpark s held i = Inr (res, t) \<Longrightarrow> tx s Other t"
| materialize: "materialize s clock fresh d audience now = Inr (n, t) \<Longrightarrow> tx s Other t"
| batch: "claim_batch s held b f want now lease cap = (r, t) \<Longrightarrow> tx s Other t"
| batch_renew: "tx s Other (snd (renew_batch s did b now lease))"
| cap: "wait_for_cap s f resume_at now = Inr (w, t) \<Longrightarrow> tx s Other t"
| recorded: "record_send s sid b result now = Inr (w, t) \<Longrightarrow> tx s Other t"
| requeue: "requeue s sid b now = Inr (w, t) \<Longrightarrow> tx s Other t"
| batch_release: "tx s Other (snd (release_batch s clock did b))"
| quota: "quota_reserve s qk cost limit = Inr (g, t) \<Longrightarrow> tx s Other t"
| app_quota: "app_quota_reserve s ak cost limit = Inr (g, t) \<Longrightarrow> tx s Other t"
| quota_back: "tx s Other (quota_release s qk cost)"
| app_quota_back: "tx s Other (app_quota_release s ak cost)"
| finish: "finish_if_done s f now = Inr (a, t) \<Longrightarrow> tx s Other t"

lemma sends_only_ok:
  "db_inv X s \<Longrightarrow> db_inv X (snd (renew_batch s did b now lease))"
  "db_inv X s \<Longrightarrow> requeue s sid b now = Inr (w, t) \<Longrightarrow> db_inv X t"
  "db_inv X s \<Longrightarrow> db_inv X (snd (release_batch s clock did b))"
  by (auto simp: renew_batch_def requeue_def release_batch_def Let_def split: if_splits
      intro: db_inv_tables)

lemma quota_tables:
  fixes s t :: db
  shows "quota_reserve s qk cost limit = Inr (g, t) \<Longrightarrow> deliveries t = deliveries s \<and> publish_jobs t = publish_jobs s"
    and "app_quota_reserve s ak cost limit = Inr (g, t) \<Longrightarrow> deliveries t = deliveries s \<and> publish_jobs t = publish_jobs s"
    and "deliveries (quota_release s qk cost) = deliveries s" "publish_jobs (quota_release s qk cost) = publish_jobs s"
    and "deliveries (app_quota_release s ak cost) = deliveries s" "publish_jobs (app_quota_release s ak cost) = publish_jobs s"
  by (auto simp: quota_reserve_def app_quota_reserve_def quota_release_def app_quota_release_def
      split: if_splits option.splits)

lemma quota_step_ok:
  fixes s t :: db
  assumes "db_inv X s"
  shows "quota_reserve s qk cost limit = Inr (g, t) \<Longrightarrow> db_inv X t"
    and "app_quota_reserve s ak cost limit = Inr (g, t) \<Longrightarrow> db_inv X t"
    and "db_inv X (quota_release s qk cost)" and "db_inv X (app_quota_release s ak cost)"
  by (rule db_inv_tables [OF assms]; auto dest: quota_tables(1,2) simp: quota_tables(3-6))+

lemma quota_step_quiet:
  fixes s t :: db
  shows "quota_reserve s qk cost limit = Inr (g, t) \<Longrightarrow> quiet s t"
    and "app_quota_reserve s ak cost limit = Inr (g, t) \<Longrightarrow> quiet s t"
    and "quiet s (quota_release s qk cost)" and "quiet s (app_quota_release s ak cost)"
  by (rule quiet_same; auto dest: quota_tables(1,2) simp: quota_tables(3-6))+

lemma tx_ok: "tx s l t \<Longrightarrow> db_ok s \<Longrightarrow> db_ok t"
  by (induction rule: tx.induct)
    (auto intro: claim_ok renew_lease_ok apply_event_ok set_container_ref_ok take_check_ok
      set_check_due_ok record_late_receipt_ok set_remote_publish_at_ok attempt_start_ok
      attempt_finish_ok cancel_with_status_ok cancel_rows_ok retry_ok resolve_ok create_job_ok
      insert_job_ok cancel_job_ok reschedule_ok overdue_pending_ok expired_claims_ok
      expired_in_flight_ok stalled_checks_ok orphaned_direct_ok unpark_ok materialize_ok
      claim_batch_ok wait_for_cap_ok record_send_ok finish_if_done_ok sends_only_ok quota_step_ok
      simp: cancel_for_account_with_status_def cancel_for_owner_with_status_def)

lemma sends_only_quiet:
  "quiet s (snd (renew_batch s did b now lease))"
  "requeue s sid b now = Inr (w, t) \<Longrightarrow> quiet s t"
  "quiet s (snd (release_batch s clock did b))"
  by (auto simp: renew_batch_def requeue_def release_batch_def Let_def split: if_splits
      intro: quiet_same)

lemma attempts_quiet:
  "attempt_start s clock aid did now = Inr t \<Longrightarrow> quiet s t"
  "attempt_finish s aid outcome err summary now = Inr t \<Longrightarrow> quiet s t"
  by (auto simp: attempt_start_def attempt_finish_def split: option.splits if_splits
      intro: quiet_same)

fun start_key :: "label \<Rightarrow> (uuid \<times> int) option" where
  "start_key (Started d g) = Some (d, g)"
| "start_key _ = None"

abbreviation calls_of :: "label list \<Rightarrow> (uuid \<times> int) list" where
  "calls_of \<equiv> List.map_filter start_key"

lemma calls_of_label: "calls_of [label_of f ev applied] = started f ev applied"
  by (simp add: label_of_def started_def List.map_filter_simps)

lemma calls_of_other: "calls_of [Other] = []" "calls_of [if b then Checked d g st n else Other] = []"
  by (simp_all add: List.map_filter_simps)

lemma tx_advance: "tx s l t \<Longrightarrow> db_ok s \<Longrightarrow> advance (calls_of [l]) s t"
  by (induction rule: tx.induct)
    (auto intro: claim_quiet renew_lease_quiet apply_event_advance
      set_container_ref_quiet take_check_quiet set_check_due_quiet
      record_late_receipt_quiet set_remote_publish_at_quiet attempts_quiet
      cancel_loaded_quiet cancel_rows_quiet retry_quiet resolve_quiet
      insert_job_quiet cancel_job_quiet reschedule_quiet overdue_quiet
      expired_quiet stalled_quiet orphaned_quiet unpark_quiet
      materialize_quiet quiet_same wait_for_cap_quiet record_send_quiet
      finish_if_done_quiet sends_only_quiet quota_step_quiet
      dest: claim_batch_tables
      simp: calls_of_label calls_of_other cancel_for_account_with_status_def cancel_for_owner_with_status_def
        cancel_with_status_def create_job_def result_simps
      simp del: List.map_filter_simps split: if_splits)

lemma tx_no_regress: "tx s l t \<Longrightarrow> db_ok s \<Longrightarrow> no_regress s t"
  unfolding no_regress_def using tx_advance by blast

lemma run_advance: "run tx s ls t \<Longrightarrow> db_ok s \<Longrightarrow> advance (calls_of ls) s t"
proof (induction rule: run.induct)
  case (more s l u ls t)
  have "advance (calls_of [l]) s u" using more.hyps(1) more.prems by (rule tx_advance)
  from advance_trans [OF this more.IH [OF tx_ok [OF more.hyps(1) more.prems]]]
  show ?case by (simp add: List.map_filter_simps split: option.split_asm option.split)
qed (simp add: List.map_filter_simps)

section \<open>Started once, checked once\<close>

definition start_armed :: "db \<Rightarrow> uuid \<times> int \<Rightarrow> bool" where
  "start_armed s k = (case row_by d_id (fst k) (deliveries s) of
     None \<Rightarrow> False | Some r \<Rightarrow> d_dispatch_gen r = snd k \<and> d_state r = S_Claimed)"

definition start_spent :: "db \<Rightarrow> uuid \<times> int \<Rightarrow> bool" where
  "start_spent s k = (case row_by d_id (fst k) (deliveries s) of
     None \<Rightarrow> False
   | Some r \<Rightarrow> snd k < d_dispatch_gen r \<or> snd k = d_dispatch_gen r \<and> 1 < phase (d_state r))"

fun check_key :: "label \<Rightarrow> (uuid \<times> int \<times> DeliveryState \<times> int) option" where
  "check_key (Checked d g st n) = Some (d, g, st, n)"
| "check_key _ = None"

definition check_armed :: "db \<Rightarrow> uuid \<times> int \<times> DeliveryState \<times> int \<Rightarrow> bool" where
  "check_armed s k = (case k of (d, g, st, n) \<Rightarrow>
     (case row_by d_id d (deliveries s) of
        None \<Rightarrow> False | Some r \<Rightarrow> d_dispatch_gen r = g \<and> d_state r = st \<and> d_check_seq r = n))"

definition check_spent :: "db \<Rightarrow> uuid \<times> int \<times> DeliveryState \<times> int \<Rightarrow> bool" where
  "check_spent s k = (case k of (d, g, st, n) \<Rightarrow>
     (case row_by d_id d (deliveries s) of
        None \<Rightarrow> False
      | Some r \<Rightarrow> g < d_dispatch_gen r
          \<or> g = d_dispatch_gen r \<and> (phase st < phase (d_state r) \<or> st = d_state r \<and> n < d_check_seq r)))"

inductive_cases tx_startedE: "tx s (Started d g) t"
inductive_cases tx_checkedE: "tx s (Checked d g st n) t"

lemma start_fires:
  assumes "db_ok s" and "tx s (Started d g) t"
  shows "start_armed s (d, g) \<and> start_spent t (d, g)"
  using assms(2)
proof (rule tx_startedE)
  fix ev f data now applied
  assume l: "Started d g = label_of f ev applied"
    and run: "apply_event s f ev data now = Inr (applied, t)"
  from l have ev: "ev = E_StartRemote" and key: "d = f_id f" "g = f_dispatch_gen f"
    and "applied \<noteq> Stale"
    by (auto simp: label_of_def split: if_splits)
  then obtain st dispatch change where "applied = Done st dispatch change" by (cases applied) auto
  with run ev have "apply_event s f E_StartRemote data now = Inr (Done st dispatch change, t)" by simp
  with assms(1) show ?thesis
  proof (rule apply_event_row)
    fix old cs to
    assume rows: "row_by d_id (f_id f) (deliveries s) = Some old"
        "row_by d_id (f_id f) (deliveries t) = Some ((apply_row st data now old)\<lparr>d_direct_counts := cs\<rparr>)"
      and old: "d_state old = f_expected f" "d_dispatch_gen old = f_dispatch_gen f"
      and tr: "transition (f_expected f) E_StartRemote = Inr to" and st: "st = apply_target s f to"
    from tr have "f_expected f = S_Claimed" "to = S_InFlight"
      by (auto simp: transition_iff_move elim: move_elim)
    with rows old st show ?thesis
      by (simp add: start_armed_def start_spent_def key apply_row_gen apply_target_def)
  qed
qed (auto split: if_splits)

lemma check_fires:
  assumes "db_ok s" and "tx s (Checked d g st n) t"
  shows "check_armed s (d, g, st, n) \<and> check_spent t (d, g, st, n)"
  using assms(2)
proof (rule tx_checkedE)
  fix f seq due taken
  assume l: "Checked d g st n = (if taken then Checked (f_id f) (f_dispatch_gen f) (f_expected f) seq else Other)"
    and run: "take_check s f seq due = Inr (taken, t)"
  from l have taken and key: "d = f_id f" "g = f_dispatch_gen f" "st = f_expected f" "n = seq"
    by (auto split: if_splits)
  with run have hit: "list_ex (check_matches f seq) (deliveries s)"
    and t: "t = write_deliveries s (check_matches f seq)
      (\<lambda>r. r\<lparr>d_check_seq := d_check_seq r + 1, d_check_due_at := Some due\<rparr>)"
    by (auto simp: take_check_def split: if_splits)
  from hit obtain r where r: "r \<in> set (deliveries s)" "check_matches f seq r" by (auto simp: list_ex_iff)
  then have row: "row_by d_id (f_id f) (deliveries s) = Some r"
    using db_inv_unique [OF assms(1) r(1)] r(2) by (simp add: check_matches_def fence_matches_iff)
  with r(2) show ?thesis
    by (simp add: check_armed_def check_spent_def key t row_by_write keeps_keys_def check_matches_def
        fence_matches_iff)
qed (auto simp: label_of_def split: if_splits)

lemma start_spent_stays:
  assumes "start_spent s k" and "no_regress s t"
  shows "start_spent t k"
proof -
  from assms(1) obtain r where r: "row_by d_id (fst k) (deliveries s) = Some r"
    and k: "snd k < d_dispatch_gen r \<or> snd k = d_dispatch_gen r \<and> 1 < phase (d_state r)"
    by (auto simp: start_spent_def split: option.splits)
  from assms(2) r obtain q gs where q: "row_by d_id (fst k) (deliveries t) = Some q" and "ahead gs r q"
    by (rule no_regress_row)
  have "snd k < d_dispatch_gen q \<or> snd k = d_dispatch_gen q \<and> 1 < phase (d_state q)"
    using ahead_order [OF \<open>ahead gs r q\<close>] k by auto
  with q show ?thesis by (simp add: start_spent_def)
qed

lemma check_spent_stays:
  assumes "check_spent s k" and "no_regress s t"
  shows "check_spent t k"
proof -
  obtain d g st n where k: "k = (d, g, st, n)" by (metis surj_pair)
  from assms(1) obtain r where r: "row_by d_id d (deliveries s) = Some r"
    and old: "g < d_dispatch_gen r
        \<or> g = d_dispatch_gen r \<and> (phase st < phase (d_state r) \<or> st = d_state r \<and> n < d_check_seq r)"
    by (auto simp: check_spent_def k split: option.splits)
  from assms(2) r obtain q gs where q: "row_by d_id d (deliveries t) = Some q" and "ahead gs r q"
    by (rule no_regress_row)
  have "g < d_dispatch_gen q
        \<or> g = d_dispatch_gen q \<and> (phase st < phase (d_state q) \<or> st = d_state q \<and> n < d_check_seq q)"
    using ahead_order [OF \<open>ahead gs r q\<close>] old by auto
  with q show ?thesis by (simp add: check_spent_def k)
qed

interpretation starts: one_shot tx db_ok no_regress start_key start_armed start_spent
proof
  show "db_ok s \<Longrightarrow> tx s l t \<Longrightarrow> db_ok t" for s l t by (rule tx_ok)
  show "db_ok s \<Longrightarrow> tx s l t \<Longrightarrow> no_regress s t" for s l t by (rule tx_no_regress)
  show "db_ok s \<Longrightarrow> tx s l t \<Longrightarrow> start_key l = Some k \<Longrightarrow> start_armed s k \<and> start_spent t k" for s l t k
    using start_fires by (cases l) auto
  show "start_spent s k \<Longrightarrow> no_regress s t \<Longrightarrow> start_spent t k" for s k t
    by (rule start_spent_stays)
  show "start_spent s k \<Longrightarrow> \<not> start_armed s k" for s k
    by (auto simp: start_spent_def start_armed_def split: option.splits)
qed (auto intro: no_regress_trans)

interpretation checks: one_shot tx db_ok no_regress check_key check_armed check_spent
proof
  show "db_ok s \<Longrightarrow> tx s l t \<Longrightarrow> check_key l = Some k \<Longrightarrow> check_armed s k \<and> check_spent t k" for s l t k
    using check_fires by (cases l) auto
  show "check_spent s k \<Longrightarrow> no_regress s t \<Longrightarrow> check_spent t k" for s k t
    by (rule check_spent_stays)
  show "check_spent s k \<Longrightarrow> \<not> check_armed s k" for s k
    by (auto simp: check_spent_def check_armed_def split: option.splits)
qed

section \<open>Runs the examples use\<close>

lemma tx_start:
  "apply_event s \<lparr>f_id = d, f_dispatch_gen = g, f_expected = st\<rparr> E_StartRemote data now = Inr (applied, t)
     \<Longrightarrow> applied \<noteq> Stale \<Longrightarrow> tx s (Started d g) t"
  using tx.fenced [of E_StartRemote s "\<lparr>f_id = d, f_dispatch_gen = g, f_expected = st\<rparr>" data now applied t]
  by (simp add: label_of_def)

lemma tx_check:
  "in_check st \<Longrightarrow> take_check s \<lparr>f_id = d, f_dispatch_gen = g, f_expected = st\<rparr> n due = Inr (taken, t) \<Longrightarrow> taken
     \<Longrightarrow> tx s (Checked d g st n) t"
  using tx.check [of "\<lparr>f_id = d, f_dispatch_gen = g, f_expected = st\<rparr>" s n due taken t] by simp

text \<open>A delivery that is claimed and sent, fails, and is claimed and sent again.\<close>

lemma sample_retry_run:
  "\<exists>t. run tx (sample_db [sample_row 10 S_Pending 3] (sample_job J_Publishing))
     [Other, Started 10 3, Other, Other, Started 10 4] t"
proof -
  let ?s = "sample_db [sample_row 10 S_Pending 3] (sample_job J_Publishing)"
  have "case claim ?s 10 3 100 50 of Inl e \<Rightarrow> False | Inr (c, t1) \<Rightarrow>
    (case apply_event t1 \<lparr>f_id = 10, f_dispatch_gen = 3, f_expected = S_Claimed\<rparr> E_StartRemote td_default 110 of
       Inl e \<Rightarrow> False | Inr (a2, t2) \<Rightarrow> a2 \<noteq> Stale \<and>
    (case apply_event t2 \<lparr>f_id = 10, f_dispatch_gen = 3, f_expected = S_InFlight\<rparr> E_RetryableFailure
         (td_default\<lparr>td_next_attempt_at := Some 200\<rparr>) 120 of
       Inl e \<Rightarrow> False | Inr (a3, t3) \<Rightarrow>
    (case claim t3 10 4 200 50 of Inl e \<Rightarrow> False | Inr (c4, t4) \<Rightarrow>
    (case apply_event t4 \<lparr>f_id = 10, f_dispatch_gen = 4, f_expected = S_Claimed\<rparr> E_StartRemote td_default 210 of
       Inl e \<Rightarrow> False | Inr (a5, t5) \<Rightarrow> a5 \<noteq> Stale))))"
    by code_simp
  then obtain c t1 a2 t2 a3 t3 c4 t4 a5 t5 where runs:
    "claim ?s 10 3 100 50 = Inr (c, t1)"
    "apply_event t1 \<lparr>f_id = 10, f_dispatch_gen = 3, f_expected = S_Claimed\<rparr> E_StartRemote td_default 110 = Inr (a2, t2)"
    "a2 \<noteq> Stale"
    "apply_event t2 \<lparr>f_id = 10, f_dispatch_gen = 3, f_expected = S_InFlight\<rparr> E_RetryableFailure
       (td_default\<lparr>td_next_attempt_at := Some 200\<rparr>) 120 = Inr (a3, t3)"
    "claim t3 10 4 200 50 = Inr (c4, t4)"
    "apply_event t4 \<lparr>f_id = 10, f_dispatch_gen = 4, f_expected = S_Claimed\<rparr> E_StartRemote td_default 210 = Inr (a5, t5)"
    "a5 \<noteq> Stale"
    by (elim ranE conjE)
  have "tx ?s Other t1" "tx t1 (Started 10 3) t2" "tx t2 Other t3" "tx t3 Other t4" "tx t4 (Started 10 4) t5"
    using tx.claim [OF runs(1)] tx_start [OF runs(2,3)] tx.fenced [OF _ runs(4)] tx.claim [OF runs(5)]
      tx_start [OF runs(6,7)] by (simp_all add: label_of_def)
  then have "run tx ?s [Other, Started 10 3, Other, Other, Started 10 4] t5"
    by (blast intro: run.intros)
  then show ?thesis by blast
qed

section \<open>What any interleaving keeps\<close>

lemma distinct_somes: "distinct (List.map_filter f xs) = distinct (filter (\<lambda>k. k \<noteq> None) (map f xs))"
proof (induction xs)
  case (Cons x xs)
  have "k \<in> set (List.map_filter f xs) \<longleftrightarrow> Some k \<in> f ` set xs" for k
    by (induction xs) (auto simp: List.map_filter_simps split: option.splits)
  with Cons show ?case by (cases "f x") (auto simp: List.map_filter_simps)
qed (simp add: List.map_filter_simps)

text \<open>
  C9: The remote call of a delivery is never started twice for one dispatch. Over any interleaving
  of the engine's transactions (claims, fenced transitions, sweeps, cancels, retries, batches), the
  committed moves to \<^verbatim>\<open>in_flight\<close> carry pairwise different pairs of delivery and dispatch
  generation; since only such a move lets a worker call the platform, two workers holding the same
  dispatch never both do.
\<close>

theorem remote_call_started_once:
  assumes "db_ok s" and "run tx s ls t"
  shows "distinct (List.map_filter start_key ls)"
  unfolding distinct_somes using assms(2,1) by (rule starts.fires_at_most_once)

theorem remote_call_started_once_witness:
  "\<exists>t. run tx (sample_db [sample_row 10 S_Pending 3] (sample_job J_Publishing))
       [Other, Started 10 3, Other, Other, Started 10 4] t
     \<and> distinct (List.map_filter start_key [Other, Started 10 3, Other, Other, Started 10 4])"
proof -
  have "db_ok (sample_db [sample_row 10 S_Pending 3] (sample_job J_Publishing))" by code_simp
  with sample_retry_run remote_call_started_once show ?thesis by blast
qed

text \<open>
  C13: Every step of a poll or reconcile chain is taken by at most one worker: over any
  interleaving, the taken checks carry pairwise different keys of delivery, generation, state and
  sequence number.
\<close>

theorem check_step_taken_once:
  assumes "db_ok s" and "run tx s ls t"
  shows "distinct (List.map_filter check_key ls)"
  unfolding distinct_somes using assms(2,1) by (rule checks.fires_at_most_once)

theorem check_step_taken_once_witness:
  "\<exists>t. run tx (sample_db [sample_row 10 S_Processing 3] (sample_job J_Publishing))
       [Checked 10 3 S_Processing 0, Checked 10 3 S_Processing 1] t
     \<and> distinct (List.map_filter check_key [Checked 10 3 S_Processing 0, Checked 10 3 S_Processing 1])"
proof -
  let ?s = "sample_db [sample_row 10 S_Processing 3] (sample_job J_Publishing)"
  let ?f = "\<lparr>f_id = 10, f_dispatch_gen = 3, f_expected = S_Processing\<rparr>"
  have "case take_check ?s ?f 0 600 of Inl e \<Rightarrow> False | Inr (b1, t1) \<Rightarrow> b1 \<and>
      (case take_check t1 ?f 1 700 of Inl e \<Rightarrow> False | Inr (b2, t2) \<Rightarrow> b2)"
    by code_simp
  then obtain b1 t1 b2 t2 where runs: "take_check ?s ?f 0 600 = Inr (b1, t1)" "b1"
    "take_check t1 ?f 1 700 = Inr (b2, t2)" "b2"
    by (elim ranE conjE)
  have st: "in_check S_Processing" by (simp add: in_check_def)
  have run: "run tx ?s [Checked 10 3 S_Processing 0, Checked 10 3 S_Processing 1] t2"
    using tx_check [OF st runs(1,2)] tx_check [OF st runs(3,4)] by (blast intro: run.intros)
  have "db_ok ?s" by code_simp
  then show ?thesis using run check_step_taken_once [OF _ run] by blast
qed

text \<open>
  C11: What a delivery reports as final stays so: once published, simulated or cancelled, no
  interleaving of transactions changes its state, its generation or the remote post it names.
\<close>

theorem settled_delivery_is_final:
  assumes "db_ok s" and "run tx s ls t"
    and "row_by d_id d (deliveries s) = Some r" and "settled (d_state r)"
  shows "\<exists>q. row_by d_id d (deliveries t) = Some q \<and> d_state q = d_state r
    \<and> d_dispatch_gen q = d_dispatch_gen r \<and> d_remote_id q = d_remote_id r"
proof -
  from starts.run_le [OF assms(2,1)] assms(3) obtain q gs
    where "row_by d_id d (deliveries t) = Some q" and "ahead gs r q" by (rule no_regress_row)
  with ahead_settled [OF _ assms(4)] show ?thesis by blast
qed

theorem settled_delivery_is_final_witness:
  "let s = sample_db [sample_row 10 S_Pending 3, sample_row 11 S_Published 2] (sample_job J_Publishing)
   in \<exists>t q. claim s 10 3 100 50 \<noteq> Inr (None, s) \<and> run tx s [Other] t
     \<and> row_by d_id 11 (deliveries t) = Some q \<and> d_state q = S_Published
     \<and> d_dispatch_gen q = 2 \<and> d_remote_id q = None"
proof -
  let ?s = "sample_db [sample_row 10 S_Pending 3, sample_row 11 S_Published 2] (sample_job J_Publishing)"
  have "case claim ?s 10 3 100 50 of Inl e \<Rightarrow> False | Inr (c, t) \<Rightarrow> c \<noteq> None" by code_simp
  then obtain c t where claimed: "claim ?s 10 3 100 50 = Inr (c, t)" "c \<noteq> None" by (rule ranE)
  then have run: "run tx ?s [Other] t" by (auto intro: run.intros tx.claim)
  have ok: "db_ok ?s" by code_simp
  have row: "row_by d_id 11 (deliveries ?s) = Some (sample_row 11 S_Published 2)"
    and st: "settled (d_state (sample_row 11 S_Published 2))"
    by code_simp+
  from settled_delivery_is_final [OF ok run row st] claimed run
  show ?thesis by (auto simp: sample_row_def)
qed

text \<open>
  C10: The engine's invariant: whatever transactions run in whatever order, delivery and job ids
  stay unique, every delivery belongs to a job, a lease is held exactly while a delivery is claimed
  or in flight, a job is open exactly while one of its deliveries has not ended, a cancelled job
  keeps no delivery that is pending or only claimed, and a post has at most one live open job.
\<close>

theorem engine_keeps_invariant:
  assumes "db_ok s" and "run tx s ls t"
  shows "db_ok t
    \<and> (\<forall>r j. r \<in> set (deliveries t) \<and> j \<in> set (publish_jobs t) \<and> d_job_id r = j_id j \<longrightarrow>
         (is_terminal (d_state r) \<or> j_status j = J_Scheduled \<or> j_status j = J_Publishing)
         \<and> (j_cancelled_at j \<noteq> None \<longrightarrow> d_state r \<noteq> S_Pending \<and> d_state r \<noteq> S_Claimed))"
proof -
  have ok: "db_ok t" by (rule starts.run_ok [OF assms(2,1)])
  then show ?thesis
    by (auto simp: db_inv_def list_all_iff rollup_ok_def cancel_ok_def open_status_def list_ex_iff)
qed

theorem engine_keeps_invariant_witness:
  "\<exists>t. run tx (sample_db [sample_row 10 S_Pending 3] (sample_job J_Publishing))
       [Other, Started 10 3, Other, Other, Started 10 4] t \<and> db_ok t"
proof -
  have "db_ok (sample_db [sample_row 10 S_Pending 3] (sample_job J_Publishing))" by code_simp
  with sample_retry_run engine_keeps_invariant show ?thesis by blast
qed

text \<open>
  The abstract view of the tables: where every delivery stands in its transition table, and under
  which generation. Seen through it, the engine is a set of independent copies of the machine of
  one delivery (\<open>course\<close>), of which the platform calls \<open>ks\<close> are visible.
\<close>

definition standing :: "db \<Rightarrow> uuid \<Rightarrow> (DeliveryState \<times> int) option" where
  "standing s d = map_option (\<lambda>r. (d_state r, d_dispatch_gen r)) (row_by d_id d (deliveries s))"

definition abstract_run ::
  "(uuid \<times> int) list \<Rightarrow> (uuid \<Rightarrow> (DeliveryState \<times> int) option) \<Rightarrow> (uuid \<Rightarrow> (DeliveryState \<times> int) option) \<Rightarrow> bool"
  where
  "abstract_run ks m m' \<longleftrightarrow>
     (\<forall>d. case m' d of
            None \<Rightarrow> m d = None \<and> starts_of d ks = []
          | Some b \<Rightarrow> course (case m d of None \<Rightarrow> (S_Pending, 0) | Some a \<Rightarrow> a) (starts_of d ks) b)"

lemma advance_abstract:
  assumes le: "advance ks s t"
  shows "abstract_run ks (standing s) (standing t)"
  unfolding abstract_run_def
proof
  fix d
  show "case standing t d of None \<Rightarrow> standing s d = None \<and> starts_of d ks = []
      | Some b \<Rightarrow> course (case standing s d of None \<Rightarrow> (S_Pending, 0) | Some a \<Rightarrow> a) (starts_of d ks) b"
  proof (cases "row_by d_id d (deliveries s)")
    case None
    then show ?thesis using advance_new [OF le None] by (simp add: standing_def split: option.split_asm)
  next
    case (Some r)
    with le obtain q where "row_by d_id d (deliveries t) = Some q" "ahead (starts_of d ks) r q"
      by (rule advance_row)
    then show ?thesis using Some ahead_course by (simp add: standing_def)
  qed
qed

lemma abstract_untouched:
  assumes "abstract_run ks m m'" and "m' d = Some (st, g)" and "starts_of d ks = []"
    and "case m d of None \<Rightarrow> True | Some a \<Rightarrow> untouched (fst a)"
  shows "untouched st"
  using spec [OF assms(1) [unfolded abstract_run_def], of d] assms(2-4)
    course_untouched [of "case m d of None \<Rightarrow> (S_Pending, 0) | Some a \<Rightarrow> a" "[]" "(st, g)"]
  by (cases "m d") (auto simp: untouched_def)

lemma abstract_starts_rise:
  assumes "abstract_run ks m m'"
  shows "sorted_wrt (<) (starts_of d ks)"
  using spec [OF assms [unfolded abstract_run_def], of d] course_starts_rise
  by (auto split: option.split_asm)

text \<open>
  C12: the tables implement the transition table. Whatever transactions run in whatever order, no
  delivery disappears, and each went along a course of the machine of one delivery: every change of
  its state is an event \<open>transition\<close> allows from the state before, its generation rises exactly
  where the delivery is handed out again or cancelled, a new delivery begins as \<^verbatim>\<open>pending\<close> under
  generation 0, and the generations in which the course passes \<^verbatim>\<open>StartRemote\<close> are exactly the
  platform calls the transactions started for this delivery, in their order. In particular each
  call of a delivery is under a higher generation than the one before, and a delivery without such a call that was not with the platform before is not in flight, processing,
  of unknown outcome, published, simulated or dead-lettered.
\<close>

theorem engine_implements_transition_table:
  assumes "db_ok s" and "run tx s ls t"
  shows "abstract_run (calls_of ls) (standing s) (standing t)
    \<and> (\<forall>d. sorted_wrt (<) (starts_of d (calls_of ls)))
    \<and> (\<forall>d st g. standing t d = Some (st, g) \<and> starts_of d (calls_of ls) = []
         \<and> (case standing s d of None \<Rightarrow> True | Some a \<Rightarrow> untouched (fst a)) \<longrightarrow> untouched st)"
proof -
  have run: "abstract_run (calls_of ls) (standing s) (standing t)"
    by (rule advance_abstract) (rule run_advance [OF assms(2,1)])
  with abstract_starts_rise [OF this] abstract_untouched [OF this] show ?thesis by blast
qed

theorem engine_implements_transition_table_witness:
  "\<exists>t. run tx (sample_db [sample_row 10 S_Pending 3] (sample_job J_Publishing))
       [Other, Started 10 3, Other, Other, Started 10 4] t
     \<and> (\<exists>b. standing t 10 = Some b \<and> course (S_Pending, 3) [3, 4] b)"
proof -
  let ?s = "sample_db [sample_row 10 S_Pending 3] (sample_job J_Publishing)"
  let ?ls = "[Other, Started 10 3, Other, Other, Started 10 4]"
  obtain t where t: "run tx ?s ?ls t" using sample_retry_run by blast
  have "db_ok ?s" by code_simp
  with t have run: "abstract_run (calls_of ?ls) (standing ?s) (standing t)"
    using engine_implements_transition_table by blast
  have "starts_of 10 (calls_of ?ls) = [3, 4]" by (simp add: List.map_filter_simps)
  moreover have "standing ?s 10 = Some (S_Pending, 3)" by code_simp
  ultimately show ?thesis
    using t spec [OF run [unfolded abstract_run_def], of 10] by (auto split: option.split_asm)
qed

end
