(* ===== verification/World.thy ===== *)
theory World
  imports Engine Outcome "HOL-Library.Multiset"
begin

text \<open>
  What the handlers of the publishing engine share: the model of the helpers of
  \<^verbatim>\<open>backend/crates/publishing/src/worker.rs\<close> and \<^verbatim>\<open>notices.rs\<close> and of the job payloads of
  \<^verbatim>\<open>jobs.rs\<close>.

  The world is the database and what its transactions hand to the rest of the system: the job
  queue, the notifier, the audit log, the account service that marks connections, and the platform
  calls themselves. Each of these is the list of what was handed over, in order; a rolled-back
  transaction hands over nothing. Notices, audit events and marks are recorded as calls, their
  tables belong to other parts of the system. An error's text is left out: nothing branches on it.

  A handler is a function on worlds. Where the source gives up its connection to call a platform,
  other transactions commit: the argument \<open>meanwhile\<close> is what they did.
\<close>

section \<open>Jobs and notices\<close>

datatype EngineJob =
    PublishDelivery uuid int
  | PollDeliveryStatus uuid int int
  | ReconcileDelivery uuid int int
  | DirectSendBatch uuid int

definition publish_job_of :: "Dispatch \<Rightarrow> EngineJob" where
  "publish_job_of d = PublishDelivery (dp_delivery d) (dp_dispatch_gen d)"

definition first_poll_of :: "Dispatch \<Rightarrow> EngineJob" where
  "first_poll_of d = PollDeliveryStatus (dp_delivery d) (dp_dispatch_gen d) 0"

definition first_reconcile_of :: "Dispatch \<Rightarrow> EngineJob" where
  "first_reconcile_of d = ReconcileDelivery (dp_delivery d) (dp_dispatch_gen d) 0"

definition batch_job_of :: "Dispatch \<Rightarrow> EngineJob" where
  "batch_job_of d = DirectSendBatch (dp_delivery d) (dp_dispatch_gen d)"

datatype JobError = JE_Retry | JE_Fatal

record AccountLabel =
  al_account_id :: uuid
  al_account_name :: string
  al_platform :: string

record DeliveryNotice =
  dn_delivery_id :: uuid
  dn_job_id :: uuid
  dn_post_id :: uuid
  dn_account :: AccountLabel
  dn_park_reason :: "ParkReason option"

record JobNotice =
  jn_job_id :: uuid
  jn_post_id :: uuid
  jn_published :: int
  jn_failed :: int

datatype EngineNotice =
    EN_Delivery NotificationKind DeliveryNotice
  | EN_JobPartial JobNotice

record NotifyEvent =
  ne_owner :: uuid
  ne_actor :: "uuid option"
  ne_notice :: EngineNotice

text \<open>The kinds of audit events the crate records, and their details by key; an id is kept as it is.\<close>

datatype AuditEventKind =
    A_DeliveryPublished
  | A_DeliveryDeadLettered
  | A_DeliveryOutcomeUnknown
  | A_PublishConfirmed
  | A_PublishJobRescheduled
  | A_PublishJobCancelled
  | A_DeliveryCancelled
  | A_DeliveryRetried
  | A_DeliveryResolved

datatype AuditDetail = AD_Id uuid | AD_Ids "uuid list" | AD_Count nat | AD_Text string | AD_Flag bool

record AuditEvent =
  ae_kind :: AuditEventKind
  ae_actor :: "uuid option"
  ae_owner :: uuid
  ae_details :: "(string \<times> AuditDetail) list"

datatype Mark = Mark_Grant uuid uuid | Mark_Account uuid uuid

record world =
  w_db :: db
  w_queue :: "(EngineJob \<times> timestamp) list"
  w_notices :: "NotifyEvent list"
  w_audit :: "AuditEvent list"
  w_marks :: "Mark list"
  w_calls :: "(uuid \<times> int) list"

section \<open>Transactions\<close>

definition data_error :: "DataError \<Rightarrow> JobError" where
  "data_error e = JE_Retry"

definition commit :: "world \<Rightarrow> JobError + world \<Rightarrow> JobError option \<times> world" where
  "commit w result = (case result of Inl e \<Rightarrow> (Some e, w) | Inr w' \<Rightarrow> (None, w'))"

definition enqueue :: "world \<Rightarrow> EngineJob \<Rightarrow> timestamp \<Rightarrow> world" where
  "enqueue w job at = w\<lparr>w_queue := w_queue w @ [(job, at)]\<rparr>"

record NoticeSubject =
  ns_delivery :: uuid
  ns_job :: uuid
  ns_post :: uuid
  ns_owner :: uuid
  ns_account :: uuid

definition subject_of :: "ClaimedDelivery \<Rightarrow> NoticeSubject" where
  "subject_of c = \<lparr>ns_delivery = c_id c, ns_job = c_job_id c, ns_post = c_post_id c,
     ns_owner = c_owner_id c, ns_account = c_account_id c\<rparr>"

text \<open>\<^verbatim>\<open>AccountRepo::get\<close> for the owner's own scope, which has no account limit.\<close>

definition own_account :: "db \<Rightarrow> uuid \<Rightarrow> uuid \<Rightarrow> DataError + account_row" where
  "own_account s user account =
     ok_or DE_NotFound (find (\<lambda>a. ac_owner_id a = user \<and> ac_id a = account) (connected_accounts s))"

definition delivery_notice :: "db \<Rightarrow> NoticeSubject \<Rightarrow> DataError + DeliveryNotice" where
  "delivery_notice s subject =
     bindE (own_account s (ns_owner subject) (ns_account subject)) (\<lambda>account.
       Inr \<lparr>dn_delivery_id = ns_delivery subject, dn_job_id = ns_job subject,
            dn_post_id = ns_post subject,
            dn_account = \<lparr>al_account_id = ns_account subject,
              al_account_name = ac_display_name account, al_platform = ac_platform_id account\<rparr>,
            dn_park_reason = None\<rparr>)"

definition record_notice ::
  "world \<Rightarrow> NoticeSubject \<Rightarrow> ParkReason option \<Rightarrow> NotificationKind \<Rightarrow> JobError + world" where
  "record_notice w subject park_reason kind =
     map_err data_error
       (bindE (delivery_notice (w_db w) subject) (\<lambda>notice.
        bindE (job_created_by (w_db w) (ns_job subject)) (\<lambda>act.
          Inr (w\<lparr>w_notices := w_notices w @
            [\<lparr>ne_owner = ns_owner subject, ne_actor = act,
              ne_notice = EN_Delivery kind (notice\<lparr>dn_park_reason := park_reason\<rparr>)\<rparr>]\<rparr>))))"

definition delivery_kind :: "NotificationKind \<Rightarrow> NotificationKind option" where
  "delivery_kind kind =
     (case kind of
        N_DeliveryPublished \<Rightarrow> Some kind
      | N_DeliveryFailed \<Rightarrow> Some kind
      | N_DeliveryDeadLettered \<Rightarrow> Some kind
      | N_DeliveryOutcomeUnknown \<Rightarrow> Some kind
      | N_DeliveryParked \<Rightarrow> Some kind
      | _ \<Rightarrow> None)"

definition record_job_partial :: "world \<Rightarrow> uuid \<Rightarrow> uuid \<Rightarrow> uuid \<Rightarrow> JobError + world" where
  "record_job_partial w job post user =
     map_err data_error
       (bindE (delivery_counts (w_db w) job) (\<lambda>counts.
        bindE (job_created_by (w_db w) job) (\<lambda>act.
          Inr (w\<lparr>w_notices := w_notices w @
            [\<lparr>ne_owner = user, ne_actor = act,
              ne_notice = EN_JobPartial \<lparr>jn_job_id = job, jn_post_id = post,
                jn_published = dn_published counts, jn_failed = dn_failed counts\<rparr>\<rparr>]\<rparr>))))"

definition audit :: "world \<Rightarrow> AuditEventKind \<Rightarrow> ClaimedDelivery \<Rightarrow> world" where
  "audit w kind claimed = w\<lparr>w_audit := w_audit w @
     [\<lparr>ae_kind = kind, ae_actor = None, ae_owner = c_owner_id claimed,
       ae_details = [(''delivery_id'', AD_Id (c_id claimed)), (''job_id'', AD_Id (c_job_id claimed)),
         (''account_id'', AD_Id (c_account_id claimed))]\<rparr>]\<rparr>"

definition audited_kind :: "DeliveryState \<Rightarrow> AuditEventKind option" where
  "audited_kind st =
     (case st of
        S_Published \<Rightarrow> Some A_DeliveryPublished
      | S_DeadLetter \<Rightarrow> Some A_DeliveryDeadLettered
      | S_OutcomeUnknown \<Rightarrow> Some A_DeliveryOutcomeUnknown
      | _ \<Rightarrow> None)"

definition tell ::
  "world \<Rightarrow> ClaimedDelivery \<Rightarrow> NotificationKind option \<Rightarrow> DeliveryState \<Rightarrow> JobStatusChange
   \<Rightarrow> JobError + world" where
  "tell w claimed notice st job =
     (if c_dry_run claimed then Inr w
      else
        bindE (case Option.bind notice delivery_kind of
                 None \<Rightarrow> Inr w
               | Some kind \<Rightarrow> record_notice w (subject_of claimed)
                   (case st of S_Parked reason \<Rightarrow> Some reason | _ \<Rightarrow> None) kind) (\<lambda>w.
        let w = (case audited_kind st of None \<Rightarrow> w | Some kind \<Rightarrow> audit w kind claimed)
        in if became_partial job
           then record_job_partial w (c_job_id claimed) (c_post_id claimed) (c_owner_id claimed)
           else Inr w))"

definition late_receipt ::
  "world \<Rightarrow> ClaimedDelivery \<Rightarrow> PublishReceipt \<Rightarrow> timestamp \<Rightarrow> JobError + world" where
  "late_receipt w claimed receipt now =
     (case pr_remote_id receipt of
        None \<Rightarrow> Inr w
      | Some remote_id \<Rightarrow>
          bindE (map_err data_error (record_late_receipt (w_db w) (c_id claimed)
                   \<lparr>rc_remote_id = remote_id, rc_remote_url = pr_remote_url receipt\<rparr> now))
            (\<lambda>(job, t).
              let w = w\<lparr>w_db := t\<rparr>
              in case job of
                   None \<Rightarrow> Inr w
                 | Some job \<Rightarrow> tell w claimed (Some N_DeliveryPublished) S_Published job))"

datatype Wrote = Wrote_Done "Dispatch option" | Wrote_Stale

definition apply_and_tell ::
  "world \<Rightarrow> ClaimedDelivery \<Rightarrow> Fence \<Rightarrow> DeliveryEvent \<Rightarrow> TransitionData \<Rightarrow> NotificationKind option
   \<Rightarrow> timestamp \<Rightarrow> JobError + Wrote \<times> world" where
  "apply_and_tell w claimed f event data notice now =
     bindE (map_err data_error (apply_event (w_db w) f event data now)) (\<lambda>(applied, t).
       let w = w\<lparr>w_db := t\<rparr>
       in case applied of
            Done st redispatch job \<Rightarrow>
              bindE (tell w claimed notice st job) (\<lambda>w. Inr (Wrote_Done redispatch, w))
          | Stale \<Rightarrow> Inr (Wrote_Stale, w))"

definition fence :: "ClaimedDelivery \<Rightarrow> DeliveryState \<Rightarrow> Fence" where
  "fence claimed expected =
     \<lparr>f_id = c_id claimed, f_dispatch_gen = c_dispatch_gen claimed, f_expected = expected\<rparr>"

lemma fence_expected [simp]: "f_expected (fence claimed st) = st"
  by (simp add: fence_def)

definition enqueue_successor ::
  "world \<Rightarrow> Fence \<Rightarrow> int \<Rightarrow> EngineJob \<Rightarrow> timestamp \<Rightarrow> timestamp option \<Rightarrow> world" where
  "enqueue_successor w f seq job at retry_at =
     (case retry_at of
        Some retry_at \<Rightarrow>
          let (moved, t) = set_check_due (w_db w) f seq retry_at; w = w\<lparr>w_db := t\<rparr>
          in if \<not> moved then w else enqueue w job retry_at
      | None \<Rightarrow> enqueue w job at)"

definition mark_grant :: "world \<Rightarrow> ClaimedDelivery \<Rightarrow> uuid \<Rightarrow> world" where
  "mark_grant w claimed grant = w\<lparr>w_marks := w_marks w @ [Mark_Grant (c_owner_id claimed) grant]\<rparr>"

definition mark_account :: "world \<Rightarrow> ClaimedDelivery \<Rightarrow> world" where
  "mark_account w claimed =
     w\<lparr>w_marks := w_marks w @ [Mark_Account (c_owner_id claimed) (c_account_id claimed)]\<rparr>"

definition i32_saturating_add :: "int \<Rightarrow> int \<Rightarrow> int" where
  "i32_saturating_add a b = max (- (2 ^ 31)) (min (2 ^ 31 - 1) (a + b))"

text \<open>The settings of \<^verbatim>\<open>[publishing]\<close> the handlers read.\<close>

record PublishingSettings =
  ps_max_attempts :: nat
  ps_lease :: duration
  ps_processing_timeout :: duration
  ps_sweep_grace :: duration
  ps_park_grace :: duration

section \<open>What a handler owes the engine\<close>

text \<open>
  \<open>queued Q s\<close>: every \<^verbatim>\<open>pending\<close> delivery has a \<^verbatim>\<open>publish_delivery\<close> job among \<open>Q\<close> that carries
  its generation and does not run before it is due, so the job's claim finds it.
\<close>

definition has_job :: "(EngineJob \<times> timestamp) set \<Rightarrow> delivery_row \<Rightarrow> bool" where
  "has_job Q r \<longleftrightarrow> (\<exists>at. (PublishDelivery (d_id r) (d_dispatch_gen r), at) \<in> Q
     \<and> (case d_next_attempt_at r of None \<Rightarrow> True | Some due \<Rightarrow> due \<le> at))"

definition queued :: "(EngineJob \<times> timestamp) set \<Rightarrow> db \<Rightarrow> bool" where
  "queued Q s \<longleftrightarrow> (\<forall>d r. row_by d_id d (deliveries s) = Some r \<and> d_state r = S_Pending \<longrightarrow> has_job Q r)"

definition world_ok :: "world \<Rightarrow> bool" where
  "world_ok w \<longleftrightarrow> db_ok (w_db w) \<and> queued (set (w_queue w)) (w_db w)"

text \<open>
  \<open>leads w w'\<close>: from a good world, \<open>w'\<close> is a good world that transactions of the engine lead to,
  and every platform call made on the way belongs to a move to \<^verbatim>\<open>in_flight\<close> of its own.
\<close>

definition accounted :: "world \<Rightarrow> label list \<Rightarrow> world \<Rightarrow> bool" where
  "accounted w ls w' \<longleftrightarrow> run tx (w_db w) ls (w_db w')
     \<and> (\<exists>calls. w_calls w' = w_calls w @ calls \<and> mset calls \<subseteq># mset (List.map_filter start_key ls))"

definition leads :: "world \<Rightarrow> world \<Rightarrow> bool" where
  "leads w w' \<longleftrightarrow> (world_ok w \<longrightarrow> world_ok w' \<and> (\<exists>ls. accounted w ls w'))"

definition engine_handler :: "(world \<Rightarrow> world) \<Rightarrow> bool" where
  "engine_handler h \<longleftrightarrow> (\<forall>w. leads w (h w))"

lemma run_append: "run step s ls u \<Longrightarrow> run step u ks t \<Longrightarrow> run step s (ls @ ks) t"
  by (induction rule: run.induct) (auto intro: run.intros)

lemma run_single: "step s l t \<Longrightarrow> run step s [l] t"
  by (auto intro: run.intros)

lemma map_filter_append: "List.map_filter f (xs @ ys) = List.map_filter f xs @ List.map_filter f ys"
  by (induction xs) (auto simp: List.map_filter_simps split: option.split)

lemma accounted_trans:
  assumes "accounted w ls u" and "accounted u ks v"
  shows "accounted w (ls @ ks) v"
proof -
  from assms(1) obtain a where a: "run tx (w_db w) ls (w_db u)" "w_calls u = w_calls w @ a"
    "mset a \<subseteq># mset (List.map_filter start_key ls)"
    by (auto simp: accounted_def)
  from assms(2) obtain b where b: "run tx (w_db u) ks (w_db v)" "w_calls v = w_calls u @ b"
    "mset b \<subseteq># mset (List.map_filter start_key ks)"
    by (auto simp: accounted_def)
  have "mset (a @ b) \<subseteq># mset (List.map_filter start_key (ls @ ks))"
    using a(3) b(3) by (simp add: map_filter_append subset_mset.add_mono)
  moreover have "w_calls v = w_calls w @ (a @ b)" using a(2) b(2) by simp
  ultimately show ?thesis
    unfolding accounted_def using run_append [OF a(1) b(1)] by blast
qed

lemma leads_trans [trans]: "leads w u \<Longrightarrow> leads u v \<Longrightarrow> leads w v"
  unfolding leads_def using accounted_trans by blast

lemma leads_refl [simp, intro!]: "leads w w"
  by (auto simp: leads_def accounted_def intro!: exI [of _ "[]"] run.intros)

lemma handler_leads: "engine_handler h \<Longrightarrow> leads w (h w)"
  by (simp add: engine_handler_def)

lemma handler_comp: "engine_handler f \<Longrightarrow> engine_handler g \<Longrightarrow> engine_handler (\<lambda>w. g (f w))"
  unfolding engine_handler_def by (meson leads_trans)

lemma has_job_mono: "has_job P r \<Longrightarrow> P \<subseteq> Q \<Longrightarrow> has_job Q r"
  by (auto simp: has_job_def)

lemma queued_mono: "queued P s \<Longrightarrow> P \<subseteq> Q \<Longrightarrow> queued Q s"
  unfolding queued_def using has_job_mono by blast

text \<open>The rule every step goes through: some transactions, and jobs for what they left pending.\<close>

lemma leads_run:
  assumes "db_ok (w_db w) \<Longrightarrow> run tx (w_db w) ls (w_db w')" and "w_calls w' = w_calls w"
    and "db_ok (w_db w) \<Longrightarrow> queued (set (w_queue w)) (w_db w) \<Longrightarrow> queued (set (w_queue w')) (w_db w')"
  shows "leads w w'"
  using assms starts.run_ok [of "w_db w" ls "w_db w'"]
  by (auto simp: leads_def world_ok_def accounted_def intro!: exI [of _ ls])

text \<open>A step that only hands over notices, audit events, marks or jobs.\<close>

definition same_core :: "world \<Rightarrow> world \<Rightarrow> bool" where
  "same_core w w' \<longleftrightarrow> w_db w' = w_db w \<and> w_calls w' = w_calls w \<and> set (w_queue w) \<subseteq> set (w_queue w')"

lemma same_core_refl [simp]: "same_core w w"
  by (simp add: same_core_def)

lemma same_core_trans: "same_core w u \<Longrightarrow> same_core u v \<Longrightarrow> same_core w v"
  by (auto simp: same_core_def)

lemma leads_same_core: "same_core w w' \<Longrightarrow> leads w w'"
  by (rule leads_run [of _ "[]"]) (auto simp: same_core_def intro: run.intros queued_mono)

lemma same_core_simps [simp]:
  "same_core w (enqueue w job at)"
  "same_core w (audit w kind claimed)"
  "same_core w (mark_grant w claimed grant)"
  "same_core w (mark_account w claimed)"
  by (auto simp: same_core_def enqueue_def audit_def mark_grant_def mark_account_def)

lemma record_notice_core: "record_notice w subject reason kind = Inr w' \<Longrightarrow> same_core w w'"
  by (auto simp: record_notice_def result_simps same_core_def)

lemma record_job_partial_core: "record_job_partial w job post user = Inr w' \<Longrightarrow> same_core w w'"
  by (auto simp: record_job_partial_def result_simps same_core_def)

lemma tell_core:
  assumes "tell w claimed notice st job = Inr w'"
  shows "same_core w w'"
proof (cases "c_dry_run claimed")
  case True
  then show ?thesis using assms by (simp add: tell_def)
next
  case False
  let ?audited = "\<lambda>w. case audited_kind st of None \<Rightarrow> w | Some kind \<Rightarrow> audit w kind claimed"
  from assms False obtain u where
    u: "(case Option.bind notice delivery_kind of
         None \<Rightarrow> Inr w
       | Some kind \<Rightarrow> record_notice w (subject_of claimed)
           (case st of S_Parked reason \<Rightarrow> Some reason | _ \<Rightarrow> None) kind) = Inr u"
    and rest: "(if became_partial job
       then record_job_partial (?audited u) (c_job_id claimed) (c_post_id claimed) (c_owner_id claimed)
       else Inr (?audited u)) = Inr w'"
    by (auto simp: tell_def Let_def bindE_Inr_iff)
  have "same_core w u" using u by (auto split: option.splits intro: record_notice_core)
  moreover have "same_core u (?audited u)" by (simp split: option.split)
  moreover have "same_core (?audited u) w'" using rest by (auto split: if_splits intro: record_job_partial_core)
  ultimately show ?thesis by (blast intro: same_core_trans)
qed

lemma same_core_queue: "same_core w w' \<Longrightarrow> set (w_queue w) \<subseteq> set (w_queue w')"
  by (simp add: same_core_def)

section \<open>What is left pending\<close>

lemma queued_row:
  "queued Q s \<Longrightarrow> row_by d_id d (deliveries s) = Some r \<Longrightarrow> d_state r = S_Pending \<Longrightarrow> has_job Q r"
  by (simp add: queued_def)

lemma queued_same: "deliveries t = deliveries s \<Longrightarrow> queued Q t = queued Q s"
  by (simp add: queued_def)

text \<open>An update that leaves every pending row it reaches as it was.\<close>

lemma queued_update:
  assumes "queued Q s" and "deliveries t = sql_update p f (deliveries s)" and "keeps_keys f"
    and "\<And>r. p r \<Longrightarrow> d_state (f r) = S_Pending
      \<Longrightarrow> d_state r = S_Pending \<and> d_dispatch_gen (f r) = d_dispatch_gen r \<and> d_next_attempt_at (f r) = d_next_attempt_at r"
  shows "queued Q t"
  unfolding queued_def
proof (intro allI impI)
  fix d q assume q: "row_by d_id d (deliveries t) = Some q \<and> d_state q = S_Pending"
  then obtain r where r: "row_by d_id d (deliveries s) = Some r" and q_eq: "q = (if p r then f r else r)"
    using assms(2,3) by (auto simp: row_by_write)
  show "has_job Q q"
  proof (cases "p r")
    case True
    then have eq: "d_state r = S_Pending \<and> d_dispatch_gen q = d_dispatch_gen r \<and> d_next_attempt_at q = d_next_attempt_at r"
      using assms(4) q q_eq by simp
    moreover have "d_id q = d_id r" using assms(3) q_eq by (simp add: keeps_keys_def)
    ultimately show ?thesis using queued_row [OF assms(1) r] by (simp add: has_job_def)
  next
    case False
    then show ?thesis using queued_row [OF assms(1) r] q q_eq by simp
  qed
qed

definition redispatched :: "Applied \<Rightarrow> (EngineJob \<times> timestamp) set" where
  "redispatched applied =
     (case applied of Done _ (Some d) _ \<Rightarrow> {(publish_job_of d, dp_run_at d)} | _ \<Rightarrow> {})"

text \<open>A fenced write answers with the dispatch of what it sent back.\<close>

lemma apply_event_queued:
  assumes ok: "db_inv X s" and "queued Q s" and run: "apply_event s f ev data now = Inr (applied, t)"
  shows "queued (Q \<union> redispatched applied) t"
proof (cases applied)
  case Stale
  then show ?thesis
    using assms by (auto elim!: apply_event_cases simp: apply_write_Stale redispatched_def)
next
  case (Done st dispatch change)
  from ok run [unfolded Done] show ?thesis
  proof (rule apply_event_row)
    fix old cs to
    let ?new = "(apply_row st data now old)\<lparr>d_direct_counts := cs\<rparr>"
    assume old: "row_by d_id (f_id f) (deliveries s) = Some old"
      and new: "row_by d_id (f_id f) (deliveries t) = Some ?new"
      and dispatch: "dispatch = redispatch_of st (apply_row st data now old)"
    have here: "has_job (redispatched applied) ?new" if "st = S_Pending"
      using that dispatch
      by (auto simp: Done redispatched_def redispatch_of_def has_job_def publish_job_of_def apply_row_def
          coalesce_def split: option.split)
    show ?thesis
      unfolding queued_def
    proof (intro allI impI)
      fix d q assume q: "row_by d_id d (deliveries t) = Some q \<and> d_state q = S_Pending"
      show "has_job (Q \<union> redispatched applied) q"
      proof (cases "d = f_id f")
        case True
        then show ?thesis using q new here by (auto intro: has_job_mono)
      next
        case False
        then have "row_by d_id d (deliveries s) = Some q"
          using q apply_event_other_rows [OF run False] by simp
        then show ?thesis using q queued_row [OF assms(2)] by (auto intro: has_job_mono)
      qed
    qed
  qed
qed

text \<open>An event that does not lead back to \<^verbatim>\<open>pending\<close> dispatches nothing.\<close>

lemma no_redispatch:
  assumes "db_inv X s" and "apply_event s f ev data now = Inr (applied, t)"
    and "transition (f_expected f) ev \<noteq> Inr S_Pending"
  shows "redispatched applied = {}"
proof (cases applied)
  case (Done st dispatch change)
  from assms(1) assms(2) [unfolded Done] show ?thesis
  proof (rule apply_event_row)
    fix old to
    assume "transition (f_expected f) ev = Inr to" and "st = apply_target s f to"
      and "dispatch = redispatch_of st (apply_row st data now old)"
    then have "dispatch = None"
      using assms(3) apply_target_cases [of s f to] by (auto simp: redispatch_of_def split: option.split)
    then show ?thesis by (simp add: Done redispatched_def)
  qed
qed (simp add: redispatched_def)

text \<open>A fenced write and whatever is handed over beside it.\<close>

lemma leads_apply:
  assumes run: "apply_event (w_db w) f ev data now = Inr (applied, w_db w')" and "ev \<noteq> E_Claim"
    and "w_calls w' = w_calls w"
    and jobs: "db_ok (w_db w) \<Longrightarrow> set (w_queue w) \<union> redispatched applied \<subseteq> set (w_queue w')"
  shows "leads w w'"
proof (rule leads_run [of _ "[label_of f ev applied]"])
  show "run tx (w_db w) [label_of f ev applied] (w_db w')"
    by (rule run_single) (rule tx.fenced [OF assms(2) run])
  show "queued (set (w_queue w')) (w_db w')" if "db_ok (w_db w)" "queued (set (w_queue w)) (w_db w)"
    using apply_event_queued [OF that run] jobs [OF that(1)] by (rule queued_mono)
qed (rule assms(3))

lemma apply_and_tell_cases:
  assumes "apply_and_tell w claimed f ev data notice now = Inr (wrote, w')"
  obtains applied t u where "apply_event (w_db w) f ev data now = Inr (applied, t)" and "u = w\<lparr>w_db := t\<rparr>"
    and "same_core u w'"
    and "wrote = (case applied of Done _ d _ \<Rightarrow> Wrote_Done d | Stale \<Rightarrow> Wrote_Stale)"
proof -
  from assms obtain applied t where run: "apply_event (w_db w) f ev data now = Inr (applied, t)"
    and rest: "(case applied of
        Done st redispatch job \<Rightarrow>
          bindE (tell (w\<lparr>w_db := t\<rparr>) claimed notice st job) (\<lambda>w. Inr (Wrote_Done redispatch, w))
      | Stale \<Rightarrow> Inr (Wrote_Stale, w\<lparr>w_db := t\<rparr>)) = Inr (wrote, w')"
    by (auto simp: apply_and_tell_def Let_def result_simps)
  show ?thesis
  proof (cases applied)
    case (Done st d job)
    then show ?thesis using that [OF run refl] rest by (auto simp: bindE_Inr_iff dest: tell_core)
  next
    case Stale
    then show ?thesis using that [OF run refl] rest by simp
  qed
qed

lemma apply_and_tell_leads:
  assumes "apply_and_tell w claimed f ev data notice now = Inr (wrote, w')" and "ev \<noteq> E_Claim"
    and "transition (f_expected f) ev \<noteq> Inr S_Pending"
  shows "leads w w'"
  using assms(1)
proof (rule apply_and_tell_cases)
  fix applied t u
  assume run: "apply_event (w_db w) f ev data now = Inr (applied, t)" and u: "u = w\<lparr>w_db := t\<rparr>"
    and core: "same_core u w'"
  show ?thesis
    by (rule leads_apply [of w f ev data now applied])
      (use run u core assms(2) no_redispatch [OF _ run assms(3)] in \<open>auto simp: same_core_def\<close>)
qed

text \<open>The same when the write's own dispatch is queued after it.\<close>

lemma apply_and_queue_leads:
  assumes "apply_and_tell w claimed f ev data notice now = Inr (wrote, u)" and "ev \<noteq> E_Claim"
    and w': "w' = (case wrote of Wrote_Done (Some d) \<Rightarrow> enqueue u (publish_job_of d) (dp_run_at d) | _ \<Rightarrow> u)"
  shows "leads w w'"
  using assms(1)
proof (rule apply_and_tell_cases)
  fix applied t v
  assume run: "apply_event (w_db w) f ev data now = Inr (applied, t)" and v: "v = w\<lparr>w_db := t\<rparr>"
    and core: "same_core v u"
    and wrote: "wrote = (case applied of Done _ d _ \<Rightarrow> Wrote_Done d | Stale \<Rightarrow> Wrote_Stale)"
  show ?thesis
    by (rule leads_apply [of w f ev data now applied])
      (use run v core assms(2) in \<open>auto simp: w' wrote same_core_def redispatched_def enqueue_def
         split: Applied.split option.split\<close>)
qed

lemma apply_then_queue_leads:
  assumes "bindE (apply_and_tell w claimed f ev data notice now) (\<lambda>(wrote, w).
      case wrote of
        Wrote_Done (Some d) \<Rightarrow> Inr (enqueue w (publish_job_of d) (dp_run_at d))
      | _ \<Rightarrow> Inr w) = Inr w'" and "ev \<noteq> E_Claim"
  shows "leads w w'"
proof -
  from assms(1) obtain wrote u where run: "apply_and_tell w claimed f ev data notice now = Inr (wrote, u)"
    and rest: "(case wrote of Wrote_Done (Some d) \<Rightarrow> Inr (enqueue u (publish_job_of d) (dp_run_at d))
        | _ \<Rightarrow> Inr u) = (Inr w' :: JobError + world)"
    by (auto simp: bindE_Inr_iff)
  show ?thesis
    by (rule apply_and_queue_leads [OF run assms(2)])
      (use rest in \<open>auto split: Wrote.splits option.splits\<close>)
qed

lemma late_receipt_leads:
  assumes "late_receipt w claimed receipt now = Inr w'"
  shows "leads w w'"
proof (cases "pr_remote_id receipt")
  case None
  then show ?thesis using assms by (simp add: late_receipt_def)
next
  case (Some remote_id)
  let ?r = "\<lparr>rc_remote_id = remote_id, rc_remote_url = pr_remote_url receipt\<rparr>"
  from assms Some obtain job t where
    run: "record_late_receipt (w_db w) (c_id claimed) ?r now = Inr (job, t)"
    and core: "same_core (w\<lparr>w_db := t\<rparr>) w'"
    by (auto simp: late_receipt_def Let_def result_simps split: option.splits dest: tell_core)
  have "queued Q t" if "queued Q (w_db w)" for Q
    using run that
    by (auto simp: record_late_receipt_def transition_def Let_def bindE_Inr_iff keeps_keys_def receipt_row_def
        split: option.split_asm dest!: touch_job_tables(1) intro!: queued_update [OF that])
  then have "leads w (w\<lparr>w_db := t\<rparr>)"
    using tx.late_receipt [OF run] by (intro leads_run [of _ "[Other]"]) (auto intro: run_single)
  also note leads_same_core [OF core]
  finally show ?thesis .
qed

lemma take_check_leads:
  assumes run: "take_check (w_db w) f seq due = Inr (taken, t)" and "in_check (f_expected f)"
  shows "leads w (w\<lparr>w_db := t\<rparr>)"
proof (rule leads_run)
  show "run tx (w_db w) [if taken then Checked (f_id f) (f_dispatch_gen f) (f_expected f) seq else Other]
      (w_db (w\<lparr>w_db := t\<rparr>))"
    using tx.check [OF assms(2) run] by (auto intro: run_single)
  show "queued (set (w_queue (w\<lparr>w_db := t\<rparr>))) (w_db (w\<lparr>w_db := t\<rparr>))" if "queued (set (w_queue w)) (w_db w)"
    using run that
    by (auto simp: take_check_def keeps_keys_def split: if_splits intro!: queued_update [OF that])
qed simp

lemma set_check_due_leads:
  assumes "in_check (f_expected f)"
  shows "leads w (w\<lparr>w_db := snd (set_check_due (w_db w) f seq due)\<rparr>)"
proof (rule leads_run [of _ "[Other]"])
  show "run tx (w_db w) [Other] (w_db (w\<lparr>w_db := snd (set_check_due (w_db w) f seq due)\<rparr>))"
    using tx.check_due [OF assms] by (auto intro: run_single)
  show "queued (set (w_queue (w\<lparr>w_db := snd (set_check_due (w_db w) f seq due)\<rparr>)))
      (w_db (w\<lparr>w_db := snd (set_check_due (w_db w) f seq due)\<rparr>))" if "queued (set (w_queue w)) (w_db w)"
    by (auto simp: set_check_due_def keeps_keys_def intro!: queued_update [OF that])
qed simp

lemma enqueue_successor_leads:
  assumes "in_check (f_expected f)"
  shows "leads w (enqueue_successor w f seq job at retry_at)"
proof (cases retry_at)
  case None
  then show ?thesis by (simp add: enqueue_successor_def leads_same_core)
next
  case (Some r)
  let ?w = "w\<lparr>w_db := snd (set_check_due (w_db w) f seq r)\<rparr>"
  have "leads w ?w" by (rule set_check_due_leads [OF assms])
  also have "leads ?w (enqueue_successor w f seq job at retry_at)"
    using Some by (auto simp: enqueue_successor_def Let_def leads_same_core split: prod.split)
  finally show ?thesis .
qed

lemma commit_leads:
  assumes "\<And>w'. result = Inr w' \<Longrightarrow> leads w w'"
  shows "leads w (snd (commit w result))"
  using assms by (cases result) (auto simp: commit_def)

text \<open>Steps that leave the deliveries alone.\<close>

lemma leads_aside:
  assumes "run tx (w_db w) ls t" and "deliveries t = deliveries (w_db w)"
  shows "leads w (w\<lparr>w_db := t\<rparr>)"
  using assms by (intro leads_run [of _ ls]) (simp_all add: queued_same [of t])

lemma attempt_steps_leads:
  "attempt_start (w_db w) clock aid did now = Inr t \<Longrightarrow> leads w (w\<lparr>w_db := t\<rparr>)"
  "attempt_finish (w_db w) aid outcome err summary now = Inr t \<Longrightarrow> leads w (w\<lparr>w_db := t\<rparr>)"
proof -
  assume run: "attempt_start (w_db w) clock aid did now = Inr t"
  have "deliveries t = deliveries (w_db w)"
    using run by (auto simp: attempt_start_def Let_def result_simps split: option.splits if_splits)
  moreover have "run tx (w_db w) [Other] t" by (rule run_single) (rule tx.attempt_start [OF run])
  ultimately show "leads w (w\<lparr>w_db := t\<rparr>)" by (metis leads_aside)
next
  assume run: "attempt_finish (w_db w) aid outcome err summary now = Inr t"
  have "deliveries t = deliveries (w_db w)"
    using run by (auto simp: attempt_finish_def Let_def result_simps split: option.splits if_splits)
  moreover have "run tx (w_db w) [Other] t" by (rule run_single) (rule tx.attempt_finish [OF run])
  ultimately show "leads w (w\<lparr>w_db := t\<rparr>)" by (metis leads_aside)
qed

lemma release_run:
  fixes s :: db
  shows "\<exists>ls. run tx s ls (release s units) \<and> deliveries (release s units) = deliveries s"
proof (induction units arbitrary: s)
  case Nil
  then show ?case by (auto simp: release_def intro: run.stop)
next
  case (Cons u units)
  have "tx s Other (release_unit s u)" and same: "deliveries (release_unit s u) = deliveries s"
    by (cases u; auto intro: tx.quota_back tx.app_quota_back simp: quota_tables)+
  moreover obtain ls where "run tx (release_unit s u) ls (release (release_unit s u) units)"
    and "deliveries (release (release_unit s u) units) = deliveries (release_unit s u)"
    using Cons by blast
  ultimately show ?case by (auto simp: release_def intro: run.more)
qed

lemma release_leads: "leads w (w\<lparr>w_db := release (w_db w) units\<rparr>)"
  using release_run [of "w_db w" units] leads_aside by blast

lemma reserve_run:
  fixes s t :: db
  assumes "reserve cal s cl d op1 config now = Inr (r, t)"
  shows "\<exists>ls. run tx s ls t \<and> deliveries t = deliveries s"
proof (cases "c_dry_run cl")
  case True
  then show ?thesis using assms by (auto simp: reserve_def intro: run.stop)
next
  case False
  from assms False obtain acc u where
    loop: "foldE (reserve_bucket cal cl d op1 config now) (([], None), s) (ad_quota_buckets d) = Inr (acc, u)"
    and t: "t = s \<or> t = u"
    by (auto simp: reserve_def bindE_Inr_iff split: option.splits)
  have "(\<lambda>(acc, u). \<exists>ls. run tx s ls u \<and> deliveries u = deliveries s) (acc, u)"
    using loop
  proof (rule foldE_invariant)
    show "case (([], None), s) of (acc, u) \<Rightarrow> \<exists>ls. run tx s ls u \<and> deliveries u = deliveries s"
      by (auto intro: run.stop)
    fix x :: "(ReservedUnit list \<times> timestamp option) \<times> db" and b y
    assume x: "case x of (acc, u) \<Rightarrow> \<exists>ls. run tx s ls u \<and> deliveries u = deliveries s"
      and step: "reserve_bucket cal cl d op1 config now x b = Inr y"
    obtain us r v where x_eq: "x = ((us, r), v)" by (metis surj_pair)
    obtain acc' v' where y_eq: "y = (acc', v')" by (metis surj_pair)
    have "v' = v \<or> tx v Other v' \<and> deliveries v' = deliveries v"
    proof (cases "op_cost op1 b = 0")
      case True
      then show ?thesis using step by (simp add: x_eq y_eq reserve_bucket_step Let_def)
    next
      case False
      then obtain g where "bucket_reserve v (entry_key cal cl d now b) (op_cost op1 b) (quota_limit b config) = Inr (g, v')"
        using step by (auto simp: x_eq y_eq reserve_bucket_step Let_def bindE_Inr_iff split: if_splits)
      then show ?thesis
        by (cases "entry_key cal cl d now b") (auto intro: tx.quota tx.app_quota dest: quota_tables(1,2))
    qed
    moreover obtain ls where "run tx s ls v" and "deliveries v = deliveries s"
      using x by (auto simp: x_eq)
    ultimately have "\<exists>ls. run tx s ls v' \<and> deliveries v' = deliveries s"
      by (metis run_append run_single)
    then show "case y of (acc, u) \<Rightarrow> \<exists>ls. run tx s ls u \<and> deliveries u = deliveries s"
      by (simp add: y_eq)
  qed
  with t show ?thesis by (auto intro: run.stop)
qed

lemma claim_leads:
  assumes run: "claim (w_db w) did gen now lease = Inr (c, t)"
  shows "leads w (w\<lparr>w_db := t\<rparr>)"
proof (rule leads_run [of _ "[Other]"])
  show "run tx (w_db w) [Other] (w_db (w\<lparr>w_db := t\<rparr>))" using tx.claim [OF run] by (auto intro: run_single)
  show "queued (set (w_queue (w\<lparr>w_db := t\<rparr>))) (w_db (w\<lparr>w_db := t\<rparr>))" if "queued (set (w_queue w)) (w_db w)"
    using run that
    by (auto simp: claim_def Let_def bindE_Inr_iff keeps_keys_def claim_row_def split: option.split_asm
        dest!: touch_job_tables(1) intro!: queued_update [OF that])
qed simp

lemma materialize_leads:
  assumes run: "materialize (w_db w) clock fresh d audience now = Inr (n, t)"
  shows "leads w (w\<lparr>w_db := t\<rparr>)"
proof (rule leads_run [of _ "[Other]"])
  show "run tx (w_db w) [Other] (w_db (w\<lparr>w_db := t\<rparr>))" using tx.materialize [OF run] by (auto intro: run_single)
  show "queued (set (w_queue (w\<lparr>w_db := t\<rparr>))) (w_db (w\<lparr>w_db := t\<rparr>))" if "queued (set (w_queue w)) (w_db w)"
    using run that
    by (auto simp: materialize_def Let_def result_simps keeps_keys_def split: option.splits
      dest!: touch_job_tables(1) intro!: queued_update [OF that])
qed simp

end
