(* ===== verification/Worker.thy ===== *)
theory Worker
  imports World Request
begin

text \<open>
  The \<^verbatim>\<open>publish_delivery\<close> handler: the model of \<^verbatim>\<open>backend/crates/publishing/src/worker.rs\<close>,
  \<^verbatim>\<open>checks.rs\<close>, the stop reasons of \<^verbatim>\<open>progress.rs\<close> and the start of a campaign of
  \<^verbatim>\<open>direct.rs\<close>.

  What other services answered during one run is the record \<open>PublishAnswers\<close>: the account service
  (availability of the platform, the bound client), the media service and the agent itself; the
  Unicode tables the checks read are there too. \<open>meanwhile i\<close> is what other transactions did at the \<open>i\<close>-th
  place where the run holds no connection; the record \<open>Clocks\<close> has the readings of the clock. How
  long an email's images are kept is the media store's and is not modelled.
\<close>

section \<open>Answers of other services\<close>

datatype Availability = Available | NotCompiledIn | Disabled | NotConfigured

datatype AccountError =
    AE_PlatformNotFound
  | AE_PlatformDisabled
  | AE_PlatformUnavailable
  | AE_ConnectMethodUnsupported
  | AE_Validation "Violation list"
  | AE_CredentialsInvalid "string option" "string list"
  | AE_RateLimited "duration option"
  | AE_NotFound
  | AE_AccountDisconnected
  | AE_JobActive
  | AE_SendingMethodExists
  | AE_ReturnToInvalid
  | AE_EventRejected
  | AE_EventMalformed
  | AE_CsvInvalid string
  | AE_Scope ScopeError
  | AE_Data DataError
  | AE_Vault
  | AE_Notify
  | AE_Internal string

record BoundClient =
  bc_account :: AccountRef
  bc_descriptor :: AgentDescriptor
  bc_config :: json
  bc_grant :: uuid
  bc_commenter :: bool
  bc_direct :: bool
  bc_native :: bool

text \<open>\<open>an_uuid\<close> is what \<^verbatim>\<open>Uuid::parse_str\<close> reads.\<close>

record PublishAnswers =
  an_shutdown :: bool
  an_available :: "AccountError + Availability"
  an_bound :: "AccountError + BoundClient"
  an_media :: media
  an_unicode :: unicode
  an_uuid :: "string \<Rightarrow> uuid option"
  an_validated :: "AgentError + Violation list"
  an_attempt :: uuid
  an_answer :: "AgentError + PublishOutcome"
  an_lost :: bool
  an_cancel :: bool
  an_stopping :: bool
  an_saved :: bool
  an_fresh :: "uuid list"

record Clocks =
  ck_claim :: timestamp
  ck_native :: timestamp
  ck_start :: timestamp
  ck_record :: timestamp
  ck_db :: timestamp

section \<open>The pre-send checks\<close>

definition park_reason :: "db \<Rightarrow> ClaimedDelivery \<Rightarrow> bool \<Rightarrow> Availability \<Rightarrow> DataError + ParkReason option" where
  "park_reason s claimed live available =
     bindE (ok_or DE_NotFound (row_by u_id (c_owner_id claimed) (users s))) (\<lambda>user.
       if u_status user \<noteq> ''active'' then Inr (Some OwnerDisabled)
       else bindE (own_account s (c_owner_id claimed) (c_account_id claimed)) (\<lambda>account.
         if ac_status account \<noteq> ''active'' then Inr (Some AccountNeedsReconnect)
         else
           (case available of
              NotCompiledIn \<Rightarrow> Inr (Some PlatformUnavailable)
            | Disabled \<Rightarrow> Inr (Some PlatformDisabled)
            | _ \<Rightarrow> Inr (if \<not> c_dry_run claimed \<and> \<not> live then Some LivePublishDisabled else None))))"

definition availability :: "string list \<Rightarrow> AccountError + Availability \<Rightarrow> string \<Rightarrow> JobError + Availability" where
  "availability compiled answer platform =
     (if platform \<notin> set compiled then Inr NotCompiledIn else map_err (\<lambda>_. JE_Retry) answer)"

record PreSendChecked =
  ch_park :: "ParkReason option"
  ch_available :: Availability
  ch_grant :: "uuid option"

definition pre_send_checks ::
  "string list \<Rightarrow> AccountError + Availability \<Rightarrow> world \<Rightarrow> ClaimedDelivery \<Rightarrow> JobError + PreSendChecked" where
  "pre_send_checks compiled answer w claimed =
     bindE (map_err data_error (own_account (w_db w) (c_owner_id claimed) (c_account_id claimed))) (\<lambda>account.
     bindE (availability compiled answer (ac_platform_id account)) (\<lambda>available.
     bindE (map_err data_error (park_reason (w_db w) claimed (live_switch (w_db w)) available)) (\<lambda>park.
       Inr \<lparr>ch_park = park, ch_available = available, ch_grant = ac_grant_id account\<rparr>)))"

section \<open>Ending a claim\<close>

definition park ::
  "world \<Rightarrow> ClaimedDelivery \<Rightarrow> ParkReason \<Rightarrow> timestamp option \<Rightarrow> uuid option \<Rightarrow> timestamp \<Rightarrow> JobError + world" where
  "park w claimed reason parked_until mark now =
     bindE (map_err data_error (apply_event (w_db w) (fence claimed S_Claimed) (E_Park reason)
              (td_default\<lparr>td_last_error := Some (JObject [(''code'', JString (park_reason_str reason))]),
                          td_parked_until := parked_until\<rparr>) now)) (\<lambda>(applied, t).
       let w = w\<lparr>w_db := t\<rparr>
       in case applied of
            Done _ _ _ \<Rightarrow>
              let w = (case mark of None \<Rightarrow> w | Some grant \<Rightarrow> mark_grant w claimed grant)
              in if c_dry_run claimed then Inr w
                 else record_notice w (subject_of claimed) (Some reason) N_DeliveryParked
          | Stale \<Rightarrow> Inr w)"

definition fail_in_one_transaction ::
  "world \<Rightarrow> ClaimedDelivery \<Rightarrow> json \<Rightarrow> ReservedUnit list \<Rightarrow> timestamp \<Rightarrow> JobError + world" where
  "fail_in_one_transaction w claimed err reserved now =
     bindE (map_err data_error (apply_event (release (w_db w) reserved) (fence claimed S_Claimed)
              E_RevalidationFailed (td_default\<lparr>td_last_error := Some err\<rparr>) now)) (\<lambda>(applied, t).
       let w = w\<lparr>w_db := t\<rparr>
       in if applied \<noteq> Stale \<and> \<not> c_dry_run claimed
          then record_notice w (subject_of claimed) None N_DeliveryFailed
          else Inr w)"

definition give_back :: "world \<Rightarrow> ReservedUnit list \<Rightarrow> world" where
  "give_back w reserved = (if reserved = [] then w else w\<lparr>w_db := release (w_db w) reserved\<rparr>)"

definition fail_claim ::
  "world \<Rightarrow> ClaimedDelivery \<Rightarrow> json \<Rightarrow> ReservedUnit list \<Rightarrow> timestamp \<Rightarrow> JobError option \<times> world" where
  "fail_claim w claimed err reserved now =
     (case fail_in_one_transaction w claimed err reserved now of
        Inl e \<Rightarrow> (Some e, give_back w reserved)
      | Inr w' \<Rightarrow> (None, w'))"

datatype Unbound = UB_Park ParkReason | UB_Fail string | UB_Retry

definition unbound :: "AccountError \<Rightarrow> Unbound" where
  "unbound e =
     (case e of
        AE_Data _ \<Rightarrow> UB_Retry
      | AE_CredentialsInvalid _ _ \<Rightarrow> UB_Park AccountNeedsReconnect
      | AE_PlatformDisabled \<Rightarrow> UB_Park PlatformDisabled
      | AE_AccountDisconnected \<Rightarrow> UB_Fail ''account_disconnected''
      | AE_PlatformUnavailable \<Rightarrow> UB_Fail ''platform_unavailable''
      | AE_PlatformNotFound \<Rightarrow> UB_Fail ''platform_unavailable''
      | _ \<Rightarrow> UB_Fail ''account_unusable'')"

definition quota_op_of :: "Operation \<Rightarrow> QuotaOp option" where
  "quota_op_of op1 = (case op1 of Op_Publish \<Rightarrow> Some QO_Publish | Op_Comment \<Rightarrow> Some QO_Comment | Op_Direct \<Rightarrow> None)"

text \<open>\<open>Inr None\<close>: a bucket is used up and the delivery was parked until its next period.\<close>

definition reserve_quota ::
  "'z calendar \<Rightarrow> (nat \<Rightarrow> world \<Rightarrow> world) \<Rightarrow> world \<Rightarrow> ClaimedDelivery \<Rightarrow> BoundClient \<Rightarrow> timestamp
   \<Rightarrow> (JobError + ReservedUnit list option) \<times> world" where
  "reserve_quota cal meanwhile w claimed bound now =
     (case quota_op_of (c_operation claimed) of
        None \<Rightarrow> (Inr (Some []), w)
      | Some op1 \<Rightarrow>
          (case reserve cal (w_db w) claimed (bc_descriptor bound) op1 (bc_config bound) now of
             Inl e \<Rightarrow> (Inl (data_error e), w)
           | Inr (Reserved units, t) \<Rightarrow> (Inr (Some units), w\<lparr>w_db := t\<rparr>)
           | Inr (Exhausted retry_at, t) \<Rightarrow>
               let w = meanwhile 3 w
               in case park w claimed QuotaExceeded (Some retry_at) None now of
                    Inl e \<Rightarrow> (Inl e, w)
                  | Inr w' \<Rightarrow> (Inr None, w')))"

section \<open>Revalidation\<close>

definition revalidation_failed :: "json list \<Rightarrow> json" where
  "revalidation_failed violations =
     JObject [(''code'', JString ''revalidation_failed''), (''violations'', JArray violations)]"

definition unavailable :: json where
  "unavailable = JObject [(''code'', JString ''platform_unavailable'')]"

definition capability_unsupported :: json where
  "capability_unsupported =
     JObject [(''code'', JString ''capability_unsupported''), (''class'', JString ''permanent'')]"

definition code_and_path :: "Violation \<Rightarrow> json" where
  "code_and_path v = JObject ((''code'', JString (violation_code_str (v_code v))) #
     (case v_path v of None \<Rightarrow> [] | Some p \<Rightarrow> [(''path'', JString p)]))"

definition missing_media :: "Variant option \<Rightarrow> uuid list \<Rightarrow> json list" where
  "missing_media v ids =
     (if ids = [] then [JObject [(''code'', JString ''media_missing'')]]
      else map (\<lambda>i. case Option.bind v (\<lambda>v. media_path v i) of
               Some path \<Rightarrow> JObject [(''code'', JString ''media_missing''), (''path'', JString path)]
             | None \<Rightarrow> JObject [(''code'', JString ''media_missing'')]) ids)"

definition audience_invalid :: "string \<Rightarrow> json" where
  "audience_invalid key = JObject [(''code'', JString ''audience_invalid''), (''path'', JString (''options.'' @ key))]"

definition AUDIENCE_LISTS :: string where
  "AUDIENCE_LISTS = ''lists''"

definition AUDIENCE_TAGS :: string where
  "AUDIENCE_TAGS = ''tags''"

text \<open>An option that is an array of items, or is left out.\<close>

definition option_items :: "(json \<Rightarrow> 'a option) \<Rightarrow> string \<Rightarrow> obj \<Rightarrow> json + 'a list" where
  "option_items read key options =
     (case map_of options key of
        None \<Rightarrow> Inr []
      | Some JNull \<Rightarrow> Inr []
      | Some (JArray items) \<Rightarrow> ok_or (audience_invalid key) (those (map read items))
      | Some _ \<Rightarrow> Inl (audience_invalid key))"

definition take_audience :: "(string \<Rightarrow> uuid option) \<Rightarrow> Variant \<Rightarrow> (json + Audience) \<times> Variant" where
  "take_audience parse_uuid v =
     (let no_lists = obj_remove AUDIENCE_LISTS (va_options v)
      in case option_items (\<lambda>item. Option.bind (json_str item) parse_uuid) AUDIENCE_LISTS (va_options v) of
           Inl e \<Rightarrow> (Inl e, v\<lparr>va_options := no_lists\<rparr>)
         | Inr lists1 \<Rightarrow>
             if lists1 = [] then (Inl (audience_invalid AUDIENCE_LISTS), v\<lparr>va_options := no_lists\<rparr>)
             else (bindE (option_items json_str AUDIENCE_TAGS no_lists) (\<lambda>tags. Inr \<lparr>au_lists = lists1, au_tags = tags\<rparr>),
                   v\<lparr>va_options := obj_remove AUDIENCE_TAGS no_lists\<rparr>))"

text \<open>The audience a campaign goes to, and the request without the options that name it.\<close>

definition split_audience ::
  "(string \<Rightarrow> uuid option) \<Rightarrow> Operation \<Rightarrow> Assembled \<Rightarrow> json + Audience option \<times> Assembled" where
  "split_audience parse_uuid op1 a =
     (if op1 = Op_Direct
      then (case take_audience parse_uuid (asm_variant a) of (audience, v) \<Rightarrow>
              bindE audience (\<lambda>found. Inr (Some found, a\<lparr>asm_variant := v\<rparr>)))
      else Inr (None, a))"

text \<open>The schedule was checked when the job was created; it is due now.\<close>

definition publish_input :: "AgentDescriptor \<Rightarrow> Assembled \<Rightarrow> timestamp \<Rightarrow> ValidationInput" where
  "publish_input d a now =
     \<lparr>vi_descriptor = d, vi_options_schema = ad_options_schema d, vi_variant = asm_variant a,
      vi_media = asm_assets a, vi_schedule = Sch_Now, vi_now = now\<rparr>"

definition agent_found :: "AgentError + Violation list \<Rightarrow> Violation list" where
  "agent_found answer = (case answer of Inr found \<Rightarrow> found | Inl (Validation found) \<Rightarrow> found | Inl _ \<Rightarrow> [])"

definition revalidate ::
  "PublishAnswers \<Rightarrow> world \<Rightarrow> ClaimedDelivery \<Rightarrow> BoundClient \<Rightarrow> timestamp
   \<Rightarrow> JobError + (json + Assembled \<times> Audience option)" where
  "revalidate an w claimed bound now =
     bindE (map_err data_error (job_snapshot (w_db w) (c_job_id claimed))) (\<lambda>snapshot.
       case assemble (an_media an) snapshot (c_account_id claimed) of
         Inl VariantMissing \<Rightarrow>
           Inr (Inl (revalidation_failed [JObject [(''code'', JString ''variant_missing'')]]))
       | Inl (AssetsMissing ids) \<Rightarrow>
           Inr (Inl (revalidation_failed (missing_media (variant_for snapshot (c_account_id claimed)) ids)))
       | Inl (AssembleData e) \<Rightarrow> Inl (data_error e)
       | Inr whole \<Rightarrow>
           (case split_audience (an_uuid an) (c_operation claimed) whole of
              Inl violation \<Rightarrow> Inr (Inl (revalidation_failed [violation]))
            | Inr (audience, assembled) \<Rightarrow>
                let violations = validate_target (an_unicode an) (publish_input (bc_descriptor bound) assembled now)
                      @ agent_found (an_validated an)
                in if violations = [] then Inr (Inr (assembled, audience))
                   else Inr (Inl (revalidation_failed (map code_and_path violations)))))"

section \<open>Preparing a delivery\<close>

record Prepared =
  pp_claimed :: ClaimedDelivery
  pp_bound :: BoundClient
  pp_assembled :: Assembled
  pp_reserved :: "ReservedUnit list"
  pp_audience :: "Audience option"

type_synonym 'a outcome = "(JobError + 'a option) \<times> world"

text \<open>A step that ends the claim: the run goes on with nothing to publish, or with the error.\<close>

definition ended :: "JobError option \<times> world \<Rightarrow> 'a outcome" where
  "ended r = (case r of (None, w) \<Rightarrow> (Inr None, w) | (Some e, w) \<Rightarrow> (Inl e, w))"

text \<open>From the bound client on: quota, then revalidation.\<close>

definition prepare_bound ::
  "'z calendar \<Rightarrow> PublishAnswers \<Rightarrow> (nat \<Rightarrow> world \<Rightarrow> world) \<Rightarrow> timestamp \<Rightarrow> ClaimedDelivery \<Rightarrow> BoundClient
   \<Rightarrow> world \<Rightarrow> Prepared outcome" where
  "prepare_bound cal an meanwhile now claimed bound w =
     (case reserve_quota cal meanwhile w claimed bound now of
        (Inl e, w) \<Rightarrow> (Inl e, w)
      | (Inr None, w) \<Rightarrow> (Inr None, w)
      | (Inr (Some reserved), w) \<Rightarrow>
          let w = meanwhile 2 w
          in case revalidate an w claimed bound now of
               Inr (Inr (assembled, audience)) \<Rightarrow>
                 (Inr (Some \<lparr>pp_claimed = claimed, pp_bound = bound, pp_assembled = assembled,
                    pp_reserved = reserved, pp_audience = audience\<rparr>), w)
             | Inr (Inl err) \<Rightarrow> ended (fail_claim w claimed err reserved now)
             | Inl e \<Rightarrow> (Inl e, give_back w reserved))"

definition prepare_claimed ::
  "'z calendar \<Rightarrow> string list \<Rightarrow> PublishAnswers \<Rightarrow> (nat \<Rightarrow> world \<Rightarrow> world) \<Rightarrow> timestamp \<Rightarrow> ClaimedDelivery
   \<Rightarrow> world \<Rightarrow> Prepared outcome" where
  "prepare_claimed cal compiled an meanwhile now claimed w =
     (case pre_send_checks compiled (an_available an) w claimed of
        Inl e \<Rightarrow> (Inl e, w)
      | Inr checked \<Rightarrow>
          let w = meanwhile 1 w
          in (case ch_park checked of
             Some reason \<Rightarrow> ended (commit w (park w claimed reason None None now))
           | None \<Rightarrow>
               if ch_available checked = NotConfigured
               then ended (fail_claim w claimed unavailable [] now)
               else
                 (case an_bound an of
                      Inr bound \<Rightarrow> prepare_bound cal an meanwhile now claimed bound w
                    | Inl e \<Rightarrow>
                        (case unbound e of
                           UB_Park reason \<Rightarrow>
                             ended (commit w (park w claimed reason None
                               (if reason = AccountNeedsReconnect then ch_grant checked else None) now))
                         | UB_Fail code \<Rightarrow>
                             ended (fail_claim w claimed (JObject [(''code'', JString code)]) [] now)
                         | UB_Retry \<Rightarrow> (Inl JE_Retry, w)))))"

text \<open>\<^verbatim>\<open>TimeDelta::from_std\<close> of the lease; the setting is out of range above \<^verbatim>\<open>TimeDelta::MAX\<close>.\<close>

definition prepare ::
  "'z calendar \<Rightarrow> PublishingSettings \<Rightarrow> string list \<Rightarrow> PublishAnswers \<Rightarrow> (nat \<Rightarrow> world \<Rightarrow> world) \<Rightarrow> Clocks
   \<Rightarrow> uuid \<Rightarrow> int \<Rightarrow> world \<Rightarrow> Prepared outcome" where
  "prepare cal settings compiled an meanwhile ck did gen w =
     (if an_shutdown an then (Inr None, w)
      else if ps_lease settings > time_delta_max then (Inl JE_Fatal, w)
      else
        (case claim (w_db w) did gen (ck_claim ck) (int (ps_lease settings)) of
           Inl e \<Rightarrow> (Inl (data_error e), w)
         | Inr (None, t) \<Rightarrow> (Inr None, w\<lparr>w_db := t\<rparr>)
         | Inr (Some claimed, t) \<Rightarrow>
             prepare_claimed cal compiled an meanwhile (ck_claim ck) claimed (meanwhile 0 (w\<lparr>w_db := t\<rparr>))))"

section \<open>The remote call\<close>

datatype NativeTime = NT_Publish "timestamp option" | NT_Retime timestamp

definition native_publish_at ::
  "world \<Rightarrow> ClaimedDelivery \<Rightarrow> BoundClient \<Rightarrow> timestamp \<Rightarrow> JobError + NativeTime" where
  "native_publish_at w claimed bound now =
     (if \<not> c_native_schedule claimed then Inr (NT_Publish None)
      else bindE (map_err data_error (get_job (w_db w) (own (c_owner_id claimed)) (c_job_id claimed))) (\<lambda>job.
        if supports_native_schedule (bc_descriptor bound) then Inr (NT_Publish (Some (j_scheduled_at job)))
        else if now < j_scheduled_at job then Inr (NT_Retime (j_scheduled_at job))
        else Inr (NT_Publish None)))"

definition retime :: "world \<Rightarrow> ClaimedDelivery \<Rightarrow> timestamp \<Rightarrow> timestamp \<Rightarrow> JobError + world" where
  "retime w claimed at now =
     bindE (apply_and_tell w claimed (fence claimed S_Claimed) E_Shutdown
              (td_default\<lparr>td_next_attempt_at := Some at\<rparr>) None now) (\<lambda>(wrote, w).
       case wrote of
         Wrote_Done (Some dispatch) \<Rightarrow> Inr (enqueue w (publish_job_of dispatch) (dp_run_at dispatch))
       | _ \<Rightarrow> Inr w)"

definition start_remote ::
  "world \<Rightarrow> ClaimedDelivery \<Rightarrow> uuid \<Rightarrow> timestamp \<Rightarrow> timestamp \<Rightarrow> JobError + bool \<times> world" where
  "start_remote w claimed attempt clock now =
     bindE (map_err data_error (apply_event (w_db w) (fence claimed S_Claimed) E_StartRemote td_default now))
       (\<lambda>(applied, t).
         if applied = Stale then Inr (False, w)
         else bindE (map_err data_error (attempt_start t clock attempt (c_id claimed) now)) (\<lambda>t.
           Inr (True, w\<lparr>w_db := t\<rparr>)))"

datatype Called = Called_Agent "AgentError + PublishOutcome" | Called_Unsupported

definition proves_no_remote_call :: "Called \<Rightarrow> bool \<Rightarrow> bool" where
  "proves_no_remote_call called saved =
     (case called of
        Called_Unsupported \<Rightarrow> True
      | Called_Agent (Inl (Authentication _)) \<Rightarrow> True
      | Called_Agent (Inl (AccountUnreachable _)) \<Rightarrow> True
      | Called_Agent (Inl AgentCancelled) \<Rightarrow> \<not> saved
      | Called_Agent _ \<Rightarrow> False)"

definition cause_of :: "bool \<Rightarrow> bool \<Rightarrow> bool \<Rightarrow> CancelCause" where
  "cause_of lost cancel stopping =
     (if lost then CC_LeaseLost else if cancel then CC_User else if stopping then CC_Shutdown else CC_None)"

text \<open>The log of platform calls grows by the delivery and the generation the call is made for.\<close>

definition call_agent :: "world \<Rightarrow> PublishAnswers \<Rightarrow> ClaimedDelivery \<Rightarrow> BoundClient \<Rightarrow> Called \<times> world" where
  "call_agent w an claimed bound =
     (if c_operation claimed = Op_Comment \<and> \<not> bc_commenter bound then (Called_Unsupported, w)
      else (Called_Agent (an_answer an), w\<lparr>w_calls := w_calls w @ [(c_id claimed, c_dispatch_gen claimed)]\<rparr>))"

definition attempt_row_of :: "ClaimedDelivery \<Rightarrow> Assembled \<Rightarrow> Called \<Rightarrow> string \<times> json option \<times> json" where
  "attempt_row_of claimed assembled called =
     (let summary = [(''operation'', JString (operation_str (c_operation claimed))),
            (''mode'', JString (if c_dry_run claimed then ''dry_run'' else ''live'')),
            (''media'', JNumber (int (length (asm_assets assembled)))),
            (''resumed'', JBool (c_container_ref claimed \<noteq> None))]
      in case called of
           Called_Unsupported \<Rightarrow> (''permanent'', Some capability_unsupported, JObject summary)
         | Called_Agent (Inr (PO_Published _)) \<Rightarrow> (''published'', None, JObject summary)
         | Called_Agent (Inr (PO_Processing _)) \<Rightarrow> (''processing'', None, JObject summary)
         | Called_Agent (Inr (PO_Simulated planned)) \<Rightarrow>
             (''simulated'', None, JObject (summary @ [(''planned'', JArray (map JString planned))]))
         | Called_Agent (Inl e) \<Rightarrow>
             (retry_class_str (retry_class e), Some (last_error e), JObject summary))"

definition after_write ::
  "world \<Rightarrow> ClaimedDelivery \<Rightarrow> BoundClient \<Rightarrow> FollowUp \<Rightarrow> Dispatch option \<Rightarrow> timestamp \<Rightarrow> world" where
  "after_write w claimed bound follow_up redispatch now =
     (let w = (case redispatch of
                 None \<Rightarrow> w
               | Some dispatch \<Rightarrow> enqueue w (publish_job_of dispatch) (dp_run_at dispatch));
          dispatch = \<lparr>dp_delivery = c_id claimed, dp_dispatch_gen = c_dispatch_gen claimed, dp_run_at = now\<rparr>
      in case follow_up of
           FU_Poll at \<Rightarrow> enqueue w (first_poll_of dispatch) at
         | FU_Reconcile \<Rightarrow> enqueue w (first_reconcile_of dispatch) now
         | FU_MarkGrant \<Rightarrow> mark_grant w claimed (bc_grant bound)
         | FU_MarkAccount \<Rightarrow> mark_account w claimed
         | _ \<Rightarrow> w)"

text \<open>What the result of a call maps to.\<close>

definition mapped_of ::
  "'z calendar \<Rightarrow> (nat \<Rightarrow> nat) \<Rightarrow> PublishingSettings \<Rightarrow> ClaimedDelivery \<Rightarrow> BoundClient \<Rightarrow> Called \<Rightarrow> CancelCause
   \<Rightarrow> timestamp \<Rightarrow> Mapped option" where
  "mapped_of cal pick settings claimed bound called cause now =
     (case called of
        Called_Agent result \<Rightarrow>
          map_result cal pick result (c_attempt_count claimed) (ps_max_attempts settings) now cause
            (bc_descriptor bound)
      | Called_Unsupported \<Rightarrow>
          Some \<lparr>m_event = E_PermanentFailure,
                m_data = td_default\<lparr>td_last_error := Some capability_unsupported\<rparr>,
                m_follow_up = FU_None, m_notice = Some N_DeliveryFailed\<rparr>)"

definition record_result ::
  "'z calendar \<Rightarrow> (nat \<Rightarrow> nat) \<Rightarrow> PublishingSettings \<Rightarrow> world \<Rightarrow> ClaimedDelivery \<Rightarrow> BoundClient \<Rightarrow> Assembled
   \<Rightarrow> uuid \<Rightarrow> Fence \<Rightarrow> Called \<Rightarrow> CancelCause \<Rightarrow> ReservedUnit list \<Rightarrow> timestamp \<Rightarrow> JobError + world" where
  "record_result cal pick settings w claimed bound assembled attempt f called cause released now =
     (let (name, err, summary) = attempt_row_of claimed assembled called
      in bindE (map_err data_error (attempt_finish (w_db w) attempt name err (Some summary) now)) (\<lambda>t.
           let w = w\<lparr>w_db := release t released\<rparr>
           in case mapped_of cal pick settings claimed bound called cause now of
                None \<Rightarrow> Inr w
              | Some mapped \<Rightarrow>
                  bindE (map_err data_error (apply_event (w_db w) f (m_event mapped) (m_data mapped) now))
                    (\<lambda>(applied, t).
                      let w = w\<lparr>w_db := t\<rparr>
                      in case applied of
                           Done st redispatch job \<Rightarrow>
                             tell (after_write w claimed bound (m_follow_up mapped) redispatch now)
                               claimed (m_notice mapped) st job
                         | Stale \<Rightarrow>
                             (case called of
                                Called_Agent (Inr (PO_Published receipt)) \<Rightarrow> late_receipt w claimed receipt now
                              | _ \<Rightarrow> Inr w))))"

section \<open>Starting a campaign\<close>

definition direct_summary :: "ClaimedDelivery \<Rightarrow> int \<Rightarrow> json" where
  "direct_summary claimed n = JObject [(''operation'', JString (operation_str Op_Direct)),
     (''mode'', JString (if c_dry_run claimed then ''dry_run'' else ''live'')), (''audience'', JNumber n)]"

definition direct_dry_run :: "world \<Rightarrow> ClaimedDelivery \<Rightarrow> Audience \<Rightarrow> uuid \<Rightarrow> timestamp \<Rightarrow> JobError + world" where
  "direct_dry_run w claimed audience attempt now =
     bindE (map_err data_error (attempt_finish (w_db w) attempt ''simulated'' None
              (Some (direct_summary claimed (audience_count (w_db w) (c_owner_id claimed) audience))) now)) (\<lambda>t.
     bindE (apply_and_tell (w\<lparr>w_db := t\<rparr>) claimed (fence claimed S_InFlight) E_Simulated td_default None now)
       (\<lambda>(wrote, w). Inr w))"

definition direct_materialize ::
  "world \<Rightarrow> ClaimedDelivery \<Rightarrow> Audience \<Rightarrow> uuid list \<Rightarrow> uuid \<Rightarrow> timestamp \<Rightarrow> timestamp \<Rightarrow> JobError + world" where
  "direct_materialize w claimed audience fresh attempt clock now =
     bindE (map_err data_error (materialize (w_db w) clock fresh claimed audience now)) (\<lambda>(n, t).
     bindE (map_err data_error (attempt_finish t attempt ''processing'' None
              (Some (direct_summary claimed n)) now)) (\<lambda>t.
     bindE (apply_and_tell (w\<lparr>w_db := t\<rparr>) claimed (fence claimed S_InFlight) E_Accepted td_default None now)
       (\<lambda>(wrote, w').
         case wrote of
           Wrote_Stale \<Rightarrow> Inr w
         | Wrote_Done _ \<Rightarrow> Inr (enqueue w' (DirectSendBatch (c_id claimed) (c_dispatch_gen claimed)) now))))"

definition direct_start ::
  "(nat \<Rightarrow> world \<Rightarrow> world) \<Rightarrow> PublishAnswers \<Rightarrow> Clocks \<Rightarrow> ClaimedDelivery \<Rightarrow> BoundClient \<Rightarrow> Audience \<Rightarrow> world
   \<Rightarrow> JobError option \<times> world" where
  "direct_start meanwhile an ck claimed bound audience w =
     (if \<not> bc_direct bound then fail_claim w claimed capability_unsupported [] (ck_start ck)
      else
        (case start_remote w claimed (an_attempt an) (ck_db ck) (ck_start ck) of
           Inl e \<Rightarrow> (Some e, w)
         | Inr (False, w) \<Rightarrow> (None, w)
         | Inr (True, w) \<Rightarrow>
             let w = meanwhile 5 w
             in commit w (if c_dry_run claimed
                  then direct_dry_run w claimed audience (an_attempt an) (ck_record ck)
                  else direct_materialize w claimed audience (an_fresh an) (an_attempt an) (ck_db ck) (ck_record ck))))"

section \<open>The handler\<close>

definition publish_started ::
  "'z calendar \<Rightarrow> (nat \<Rightarrow> nat) \<Rightarrow> PublishingSettings \<Rightarrow> (nat \<Rightarrow> world \<Rightarrow> world) \<Rightarrow> PublishAnswers \<Rightarrow> Clocks \<Rightarrow> Prepared
   \<Rightarrow> world \<Rightarrow> JobError option \<times> world" where
  "publish_started cal pick settings meanwhile an ck p w =
     (let claimed = pp_claimed p;
          (called, w) = call_agent w an claimed (pp_bound p);
          w = meanwhile 5 w;
          released = (if proves_no_remote_call called (an_saved an) then pp_reserved p else []);
          cause = cause_of (an_lost an) (c_cancel_requested claimed \<or> an_cancel an) (an_stopping an)
      in case record_result cal pick settings w claimed (pp_bound p) (pp_assembled p) (an_attempt an)
                (fence claimed S_InFlight) called cause released (ck_record ck) of
           Inl e \<Rightarrow> (Some e, give_back w released)
         | Inr w' \<Rightarrow> (None, w'))"

definition publish ::
  "'z calendar \<Rightarrow> (nat \<Rightarrow> nat) \<Rightarrow> PublishingSettings \<Rightarrow> (nat \<Rightarrow> world \<Rightarrow> world) \<Rightarrow> PublishAnswers \<Rightarrow> Clocks \<Rightarrow> Prepared
   \<Rightarrow> world \<Rightarrow> JobError option \<times> world" where
  "publish cal pick settings meanwhile an ck p w =
     (let claimed = pp_claimed p; reserved = pp_reserved p
      in if c_operation claimed = Op_Direct
         then direct_start meanwhile an ck claimed (pp_bound p)
                (case pp_audience p of None \<Rightarrow> \<lparr>au_lists = [], au_tags = []\<rparr> | Some a \<Rightarrow> a) w
         else
           (case native_publish_at w claimed (pp_bound p) (ck_native ck) of
              Inl e \<Rightarrow> (Some e, give_back w reserved)
            | Inr (NT_Retime at) \<Rightarrow>
                let w = meanwhile 4 (give_back w reserved)
                in commit w (retime w claimed at (ck_start ck))
            | Inr (NT_Publish at) \<Rightarrow>
                let w = meanwhile 4 w
                in case start_remote w claimed (an_attempt an) (ck_db ck) (ck_start ck) of
                     Inl e \<Rightarrow> (Some e, give_back w reserved)
                   | Inr (False, w) \<Rightarrow> (None, give_back w reserved)
                   | Inr (True, w) \<Rightarrow> publish_started cal pick settings meanwhile an ck p w))"

definition run_publish ::
  "'z calendar \<Rightarrow> (nat \<Rightarrow> nat) \<Rightarrow> PublishingSettings \<Rightarrow> string list \<Rightarrow> (nat \<Rightarrow> world \<Rightarrow> world) \<Rightarrow> PublishAnswers
   \<Rightarrow> Clocks \<Rightarrow> uuid \<Rightarrow> int \<Rightarrow> world \<Rightarrow> JobError option \<times> world" where
  "run_publish cal pick settings compiled meanwhile an ck did gen w =
     (case prepare cal settings compiled an meanwhile ck did gen w of
        (Inl e, w) \<Rightarrow> (Some e, w)
      | (Inr None, w) \<Rightarrow> (None, w)
      | (Inr (Some p), w) \<Rightarrow> publish cal pick settings meanwhile an ck p w)"

end
