(* ===== verification/Worker_Run.thy ===== *)
theory Worker_Run
  imports Worker Validation_Spec
begin

text \<open>
  A run of \<^verbatim>\<open>publish_delivery\<close> is made of transactions of the engine, whatever the other services
  answer and whatever other handlers do meanwhile: each step of \<open>run_publish\<close> meets the contract
  \<open>leads\<close>, with the platform call accounted to the move to \<^verbatim>\<open>in_flight\<close> before it.
\<close>

section \<open>Steps of a run\<close>

lemma apply_event_leads:
  assumes "apply_event (w_db w) f ev data now = Inr (applied, t)" and "ev \<noteq> E_Claim"
    and "transition (f_expected f) ev \<noteq> Inr S_Pending"
  shows "leads w (w\<lparr>w_db := t\<rparr>)"
  by (rule leads_apply [of w f ev data now applied]) (use assms no_redispatch [OF _ assms(1,3)] in auto)

lemma snd_ended [simp]: "snd (ended r) = snd r"
  by (auto simp: ended_def split: prod.split option.split)

lemma park_leads:
  assumes "park w claimed reason parked_until mark now = Inr w'"
  shows "leads w w'"
proof -
  let ?marked = "\<lambda>w. case mark of None \<Rightarrow> w | Some grant \<Rightarrow> mark_grant w claimed grant"
  from assms obtain data applied t where
    run: "apply_event (w_db w) (fence claimed S_Claimed) (E_Park reason) data now = Inr (applied, t)"
    and rest: "(case applied of
        Done _ _ _ \<Rightarrow> if c_dry_run claimed then Inr (?marked (w\<lparr>w_db := t\<rparr>))
          else record_notice (?marked (w\<lparr>w_db := t\<rparr>)) (subject_of claimed) (Some reason) N_DeliveryParked
      | Stale \<Rightarrow> Inr (w\<lparr>w_db := t\<rparr>)) = (Inr w' :: JobError + world)"
    unfolding park_def Let_def by (auto simp: result_simps)
  have "leads w (w\<lparr>w_db := t\<rparr>)" by (rule apply_event_leads [OF run]) (simp_all add: transition_def)
  also have "same_core (w\<lparr>w_db := t\<rparr>) (?marked (w\<lparr>w_db := t\<rparr>))" by (simp split: option.split)
  then have "same_core (w\<lparr>w_db := t\<rparr>) w'"
    using rest by (cases applied) (auto split: if_splits dest: record_notice_core intro: same_core_trans)
  then have "leads (w\<lparr>w_db := t\<rparr>) w'" by (rule leads_same_core)
  finally show ?thesis .
qed

lemma fail_in_one_transaction_leads:
  assumes "fail_in_one_transaction w claimed err reserved now = Inr w'"
  shows "leads w w'"
proof -
  let ?w = "w\<lparr>w_db := release (w_db w) reserved\<rparr>"
  from assms obtain data applied t where
    run: "apply_event (w_db ?w) (fence claimed S_Claimed) E_RevalidationFailed data now = Inr (applied, t)"
    and rest: "(if applied \<noteq> Stale \<and> \<not> c_dry_run claimed
      then record_notice (w\<lparr>w_db := t\<rparr>) (subject_of claimed) None N_DeliveryFailed
      else Inr (w\<lparr>w_db := t\<rparr>)) = Inr w'"
    unfolding fail_in_one_transaction_def by (auto simp: Let_def result_simps)
  have "leads w ?w" by (rule release_leads)
  also have "leads ?w (?w\<lparr>w_db := t\<rparr>)" by (rule apply_event_leads [OF run]) (simp_all add: transition_def)
  also have "same_core (w\<lparr>w_db := t\<rparr>) w'" using rest by (auto split: if_splits dest: record_notice_core)
  then have "leads (?w\<lparr>w_db := t\<rparr>) w'" by (simp add: leads_same_core)
  finally show ?thesis .
qed

lemma give_back_leads: "leads w (give_back w reserved)"
  by (simp add: give_back_def release_leads)

lemma fail_claim_leads: "leads w (snd (fail_claim w claimed err reserved now))"
  by (auto simp: fail_claim_def give_back_leads dest: fail_in_one_transaction_leads split: sum.split)

section \<open>Preparing\<close>

lemma reserve_quota_leads:
  assumes "\<And>i. engine_handler (meanwhile i)"
  shows "leads w (snd (reserve_quota cal meanwhile w claimed bound now))"
proof (cases "quota_op_of (c_operation claimed)")
  case None
  then show ?thesis by (simp add: reserve_quota_def)
next
  case (Some op1)
  have reserved: "leads w (w\<lparr>w_db := t\<rparr>)"
    if "reserve cal (w_db w) claimed (bc_descriptor bound) op1 (bc_config bound) now = Inr (r, t)" for r t
    using reserve_run [OF that] leads_aside by blast
  have gap: "leads w (meanwhile 3 w)" by (rule handler_leads [OF assms])
  then have parked: "leads w w'" if "park (meanwhile 3 w) claimed QuotaExceeded (Some at) None now = Inr w'" for w' at
    using park_leads [OF that] by (rule leads_trans)
  show ?thesis
    using Some reserved gap parked
    by (auto simp: reserve_quota_def Let_def split: sum.split prod.split Reservation.split)
qed

lemma prepare_bound_leads:
  assumes "\<And>i. engine_handler (meanwhile i)"
  shows "leads w (snd (prepare_bound cal an meanwhile now claimed bound w))"
proof -
  obtain r u where r: "reserve_quota cal meanwhile w claimed bound now = (r, u)" by (metis surj_pair)
  from reserve_quota_leads [OF assms]
  have "leads w (snd (reserve_quota cal meanwhile w claimed bound now))" .
  then have start: "leads w u" by (simp add: r)
  have gap: "leads u (meanwhile 2 u)" by (rule handler_leads [OF assms])
  note ends = leads_trans [OF gap give_back_leads] leads_trans [OF gap fail_claim_leads]
  have "leads u (snd (prepare_bound cal an meanwhile now claimed bound w))"
    using gap ends by (auto simp: prepare_bound_def r Let_def split: sum.splits option.splits)
  with start show ?thesis by (rule leads_trans)
qed

lemma prepare_claimed_leads:
  assumes "\<And>i. engine_handler (meanwhile i)"
  shows "leads w (snd (prepare_claimed cal compiled an meanwhile now claimed w))"
proof (cases "pre_send_checks compiled (an_available an) w claimed")
  case (Inl e)
  then show ?thesis by (simp add: prepare_claimed_def)
next
  case (Inr checked)
  let ?w = "meanwhile 1 w"
  have parked: "leads ?w (snd (commit ?w (park ?w claimed reason at mark now)))" for reason at mark
    by (rule commit_leads) (rule park_leads)
  have "leads ?w (snd (prepare_claimed cal compiled an meanwhile now claimed w))"
    using parked fail_claim_leads prepare_bound_leads [OF assms]
    by (auto simp: prepare_claimed_def Inr Let_def split: option.split sum.split Unbound.split)
  then show ?thesis using leads_trans [OF handler_leads [OF assms]] by blast
qed

lemma prepare_leads:
  assumes "\<And>i. engine_handler (meanwhile i)"
  shows "leads w (snd (prepare cal settings compiled an meanwhile ck did gen w))"
proof -
  have claimed: "leads w (w\<lparr>w_db := t\<rparr>)"
    if "claim (w_db w) did gen (ck_claim ck) (int (ps_lease settings)) = Inr (c, t)" for c t
    using that by (rule claim_leads)
  have "leads v (snd (prepare_claimed cal compiled an meanwhile (ck_claim ck) c (meanwhile 0 v)))" for v c
    by (rule leads_trans [OF handler_leads [OF assms] prepare_claimed_leads [OF assms]])
  with claimed show ?thesis
    by (auto simp: prepare_def intro: leads_trans split: sum.split option.split)
qed

section \<open>What a prepared delivery has passed\<close>

text \<open>
  The request of a prepared delivery is one the rules allow, with the media of the variant all
  ready and an audience for a campaign, and the agent found nothing wrong with it.
\<close>

definition validated :: "PublishAnswers \<Rightarrow> timestamp \<Rightarrow> Prepared \<Rightarrow> bool" where
  "validated an now p \<longleftrightarrow>
     publishable (an_unicode an) (publish_input (bc_descriptor (pp_bound p)) (pp_assembled p) now)
     \<and> list_all ready (asm_assets (pp_assembled p))
     \<and> acr_account (va_target (asm_variant (pp_assembled p))) = c_account_id (pp_claimed p)
     \<and> (c_operation (pp_claimed p) = Op_Direct \<longrightarrow> (\<exists>a. pp_audience p = Some a \<and> au_lists a \<noteq> []))
     \<and> agent_found (an_validated an) = []"

lemma take_audience_keeps: "take_audience parse v = (r, v') \<Longrightarrow> va_target v' = va_target v"
  by (auto simp: take_audience_def Let_def split: sum.splits if_splits)

lemma take_audience_lists: "take_audience parse v = (Inr a, v') \<Longrightarrow> au_lists a \<noteq> []"
  by (auto simp: take_audience_def Let_def result_simps split: sum.splits if_splits)

lemma split_audience_passed:
  assumes "split_audience parse op1 a = Inr (audience, a')"
  shows "asm_assets a' = asm_assets a" and "va_target (asm_variant a') = va_target (asm_variant a)"
    and "op1 = Op_Direct \<Longrightarrow> \<exists>found. audience = Some found \<and> au_lists found \<noteq> []"
  using assms take_audience_keeps take_audience_lists
  by (auto simp: split_audience_def result_simps split: if_splits prod.splits)

lemma revalidate_passed:
  assumes "revalidate an w claimed bound now = Inr (Inr (assembled, audience))"
  shows "validated an now \<lparr>pp_claimed = claimed, pp_bound = bound, pp_assembled = assembled,
    pp_reserved = reserved, pp_audience = audience\<rparr>"
proof -
  from assms obtain snapshot where snapshot: "job_snapshot (w_db w) (c_job_id claimed) = Inr snapshot"
    by (auto simp: revalidate_def result_simps)
  note rest = assms [unfolded revalidate_def snapshot, simplified]
  obtain whole where request: "assemble (an_media an) snapshot (c_account_id claimed) = Inr whole"
    using rest by (cases "assemble (an_media an) snapshot (c_account_id claimed)") (auto split: AssembleError.splits)
  obtain r where r: "split_audience (an_uuid an) (c_operation claimed) whole = Inr r"
    using rest by (cases "split_audience (an_uuid an) (c_operation claimed) whole") (auto simp: request)
  have split: "split_audience (an_uuid an) (c_operation claimed) whole = Inr (audience, assembled)"
    and rules: "validate_target (an_unicode an) (publish_input (bc_descriptor bound) assembled now) = []"
    and agent: "agent_found (an_validated an) = []"
    using rest by (auto simp: request r Let_def split: prod.splits if_splits)
  show ?thesis
    using assembled [OF request] split_audience_passed [OF split] rules agent
    by (simp add: validated_def validate_target_iff)
qed

lemma prepare_bound_passed:
  assumes "prepare_bound cal an meanwhile now claimed bound w = (Inr (Some p), w')"
  shows "pp_claimed p = claimed \<and> validated an now p"
  using assms
  by (auto simp: prepare_bound_def ended_def Let_def split: sum.splits option.splits prod.splits intro: revalidate_passed)

definition may_send :: "db \<Rightarrow> string list \<Rightarrow> ClaimedDelivery \<Rightarrow> bool" where
  "may_send s compiled claimed \<longleftrightarrow>
     (\<exists>user account. row_by u_id (c_owner_id claimed) (users s) = Some user \<and> u_status user = ''active''
        \<and> own_account s (c_owner_id claimed) (c_account_id claimed) = Inr account \<and> ac_status account = ''active''
        \<and> ac_platform_id account \<in> set compiled \<and> (c_dry_run claimed \<or> live_switch s))"

lemma checks_passed:
  assumes "pre_send_checks compiled answer w claimed = Inr checked" and "ch_park checked = None"
  shows "may_send (w_db w) compiled claimed"
  using assms
  by (auto simp: pre_send_checks_def park_reason_def availability_def may_send_def result_simps
      split: if_splits Availability.splits)

lemma ended_stops [simp]: "ended r \<noteq> (Inr (Some p), w)"
  by (auto simp: ended_def split: prod.split option.split)

lemma prepare_claimed_passed:
  assumes run: "prepare_claimed cal compiled an meanwhile now claimed w = (Inr (Some p), w')"
  shows "pp_claimed p = claimed \<and> may_send (w_db w) compiled claimed \<and> validated an now p"
proof (cases "pre_send_checks compiled (an_available an) w claimed")
  case (Inl e)
  then show ?thesis using run by (simp add: prepare_claimed_def)
next
  case checks: (Inr checked)
  have no_park: "ch_park checked = None"
    using run by (cases "ch_park checked") (simp_all add: prepare_claimed_def checks Let_def)
  obtain bound where "an_bound an = Inr bound"
  proof (cases "an_bound an")
    case (Inl e)
    then show ?thesis
      using run no_park by (cases "unbound e") (auto simp: prepare_claimed_def checks Let_def split: if_splits)
  qed
  with run no_park have "prepare_bound cal an meanwhile now claimed bound (meanwhile 1 w) = (Inr (Some p), w')"
    by (simp add: prepare_claimed_def checks Let_def split: if_splits)
  then show ?thesis using prepare_bound_passed checks_passed [OF checks no_park] by blast
qed

lemma prepared_delivery:
  assumes "prepare cal settings compiled an meanwhile ck did gen w = (Inr (Some p), w')"
  shows "\<exists>t. claim (w_db w) did gen (ck_claim ck) (int (ps_lease settings)) = Inr (Some (pp_claimed p), t)
    \<and> may_send (w_db (meanwhile 0 (w\<lparr>w_db := t\<rparr>))) compiled (pp_claimed p) \<and> validated an (ck_claim ck) p"
proof -
  from assms obtain claimed t where claim: "claim (w_db w) did gen (ck_claim ck) (int (ps_lease settings)) = Inr (Some claimed, t)"
    and rest: "prepare_claimed cal compiled an meanwhile (ck_claim ck) claimed (meanwhile 0 (w\<lparr>w_db := t\<rparr>)) = (Inr (Some p), w')"
    by (auto simp: prepare_def split: if_splits sum.splits option.splits prod.splits)
  show ?thesis using claim prepare_claimed_passed [OF rest] by blast
qed

section \<open>The remote call\<close>

lemma mapped_not_claim:
  assumes "mapped_of cal pick settings claimed bound called cause now = Some m"
  shows "m_event m \<noteq> E_Claim"
proof (cases called)
  case (Called_Agent r)
  show ?thesis
  proof (cases r)
    case (Inl e)
    then have "map_error cal pick e (c_attempt_count claimed) (ps_max_attempts settings) now cause (bc_descriptor bound) = Some m"
      using assms Called_Agent by (simp add: mapped_of_def map_result_def)
    then show ?thesis by (cases rule: map_error_cases) (auto simp: map_retry_event mapped_defs)
  next
    case (Inr out)
    then show ?thesis
      using assms Called_Agent by (cases out) (auto simp: mapped_of_def map_result_def Let_def mapped_defs)
  qed
qed (use assms in \<open>auto simp: mapped_of_def\<close>)

text \<open>A delivery is \<^verbatim>\<open>in_flight\<close> before its platform is called, and the call is logged for it.\<close>

lemma start_remote_calls:
  assumes "start_remote w claimed attempt clock now = Inr (True, u)"
  shows "leads w u" and "leads w (snd (call_agent u an claimed bound))"
proof -
  let ?f = "fence claimed S_Claimed"
  from assms obtain applied t1 t2 where
    start: "apply_event (w_db w) ?f E_StartRemote td_default now = Inr (applied, t1)" and "applied \<noteq> Stale"
    and attempt: "attempt_start t1 clock attempt (c_id claimed) now = Inr t2" and u: "u = w\<lparr>w_db := t2\<rparr>"
    by (auto simp: start_remote_def result_simps split: if_splits)
  have first: "leads w (w\<lparr>w_db := t1\<rparr>)" by (rule apply_event_leads [OF start]) (simp_all add: transition_def)
  moreover have "leads (w\<lparr>w_db := t1\<rparr>) u"
    using attempt_steps_leads(1) [of "w\<lparr>w_db := t1\<rparr>"] attempt u by simp
  ultimately show leads: "leads w u" by (rule leads_trans)
  let ?key = "(c_id claimed, c_dispatch_gen claimed)"
  have "tx (w_db w) (Started (c_id claimed) (c_dispatch_gen claimed)) t1"
    using tx.fenced [OF _ start] \<open>applied \<noteq> Stale\<close> by (simp add: label_of_def fence_def)
  then have run: "run tx (w_db w) [Started (c_id claimed) (c_dispatch_gen claimed), Other] t2"
    using tx.attempt_start [OF attempt] by (blast intro: run.intros)
  have "leads w (u\<lparr>w_calls := w_calls u @ [?key]\<rparr>)"
    using leads run u by (auto simp: leads_def world_ok_def accounted_def List.map_filter_simps intro!: exI)
  then show "leads w (snd (call_agent u an claimed bound))"
    using leads by (simp add: call_agent_def)
qed

lemma after_write_core:
  "same_core (case redispatch of None \<Rightarrow> w | Some d \<Rightarrow> enqueue w (publish_job_of d) (dp_run_at d))
     (after_write w claimed bound follow_up redispatch now)"
  by (auto simp: after_write_def Let_def split: FollowUp.split)

text \<open>The write of the result, with the job of what it sent back.\<close>

lemma written_leads:
  assumes run: "apply_event (w_db w) f ev data now = Inr (Done st redispatch job, t)" and "ev \<noteq> E_Claim"
    and told: "tell (after_write (w\<lparr>w_db := t\<rparr>) claimed bound follow_up redispatch now) claimed notice st job = Inr w'"
  shows "leads w w'"
proof (rule leads_apply [of w f ev data now "Done st redispatch job"])
  note core = same_core_trans [OF after_write_core tell_core [OF told]]
  from core show "w_calls w' = w_calls w"
    and "set (w_queue w) \<union> redispatched (Done st redispatch job) \<subseteq> set (w_queue w')"
    by (auto simp: same_core_def redispatched_def enqueue_def split: option.splits)
  from core have "w_db w' = t" by (auto simp: same_core_def enqueue_def split: option.splits)
  then show "apply_event (w_db w) f ev data now = Inr (Done st redispatch job, w_db w')" by (simp add: run)
qed (rule assms(2))

lemma record_result_leads:
  assumes "record_result cal pick settings w claimed bound assembled attempt (fence claimed S_InFlight) called
      cause released now = Inr w'"
  shows "leads w w'"
proof -
  obtain name err summary where row: "attempt_row_of claimed assembled called = (name, err, summary)" by (metis surj_pair)
  from assms obtain t where
    finish: "attempt_finish (w_db w) attempt name err (Some summary) now = Inr t"
    by (auto simp: record_result_def row result_simps)
  let ?u = "w\<lparr>w_db := release t released\<rparr>"
  have "leads w (w\<lparr>w_db := t\<rparr>)" by (rule attempt_steps_leads(2) [OF finish])
  also have "leads (w\<lparr>w_db := t\<rparr>) ?u" using release_leads [of "w\<lparr>w_db := t\<rparr>" released] by simp
  also have "leads ?u w'"
  proof (cases "mapped_of cal pick settings claimed bound called cause now")
    case None
    then show ?thesis using assms by (simp add: record_result_def row finish)
  next
    case (Some m)
    with assms obtain applied v where
      run: "apply_event (w_db ?u) (fence claimed S_InFlight) (m_event m) (m_data m) now = Inr (applied, v)"
      and rest: "(case applied of
          Done st redispatch job \<Rightarrow>
            tell (after_write (?u\<lparr>w_db := v\<rparr>) claimed bound (m_follow_up m) redispatch now) claimed (m_notice m) st job
        | Stale \<Rightarrow> (case called of
              Called_Agent (Inr (PO_Published receipt)) \<Rightarrow> late_receipt (?u\<lparr>w_db := v\<rparr>) claimed receipt now
            | _ \<Rightarrow> Inr (?u\<lparr>w_db := v\<rparr>))) = (Inr w' :: JobError + world)"
      unfolding record_result_def row Let_def by (auto simp: finish result_simps)
    show ?thesis
    proof (cases applied)
      case (Done st redispatch job)
      then show ?thesis using written_leads [OF run [unfolded Done] mapped_not_claim [OF Some]] rest by simp
    next
      case Stale
      have stale: "leads ?u (?u\<lparr>w_db := v\<rparr>)"
        by (rule leads_apply [of ?u "fence claimed S_InFlight" "m_event m" "m_data m" now applied])
          (use run mapped_not_claim [OF Some] Stale in \<open>auto simp: redispatched_def\<close>)
      have "leads (?u\<lparr>w_db := v\<rparr>) w'"
        using rest Stale by (auto dest: late_receipt_leads split: Called.splits sum.splits PublishOutcome.splits)
      with stale show ?thesis by (rule leads_trans)
    qed
  qed
  finally show ?thesis .
qed

lemma publish_started_leads:
  assumes "\<And>i. engine_handler (meanwhile i)"
    and start: "start_remote w (pp_claimed p) attempt clock now = Inr (True, u)"
  shows "leads w (snd (publish_started cal pick settings meanwhile an ck p u))"
proof -
  obtain called v where call: "call_agent u an (pp_claimed p) (pp_bound p) = (called, v)" by (metis surj_pair)
  have "leads w v" using start_remote_calls(2) [OF start, of an "pp_bound p"] by (simp add: call)
  also have "leads v (meanwhile 5 v)" by (rule handler_leads [OF assms(1)])
  also have "leads (meanwhile 5 v) (snd (publish_started cal pick settings meanwhile an ck p u))"
    by (auto simp: publish_started_def call Let_def give_back_leads dest: record_result_leads split: sum.split)
  finally show ?thesis .
qed

section \<open>Starting a campaign\<close>

lemma direct_dry_run_leads:
  assumes "direct_dry_run w claimed audience attempt now = Inr w'"
  shows "leads w w'"
proof -
  from assms obtain summary t wrote where
    finish: "attempt_finish (w_db w) attempt ''simulated'' None (Some summary) now = Inr t"
    and written: "apply_and_tell (w\<lparr>w_db := t\<rparr>) claimed (fence claimed S_InFlight) E_Simulated td_default None now
        = Inr (wrote, w')"
    by (auto simp: direct_dry_run_def result_simps)
  have "leads w (w\<lparr>w_db := t\<rparr>)" by (rule attempt_steps_leads(2) [OF finish])
  also have "leads (w\<lparr>w_db := t\<rparr>) w'"
    by (rule apply_and_tell_leads [OF written]) (simp_all add: transition_def)
  finally show ?thesis .
qed

lemma direct_materialize_leads:
  assumes "direct_materialize w claimed audience fresh attempt clock now = Inr w'"
  shows "leads w w'"
proof -
  from assms obtain n t1 t2 wrote v where
    rows: "materialize (w_db w) clock fresh claimed audience now = Inr (n, t1)"
    and finish: "attempt_finish t1 attempt ''processing'' None (Some (direct_summary claimed n)) now = Inr t2"
    and written: "apply_and_tell (w\<lparr>w_db := t2\<rparr>) claimed (fence claimed S_InFlight) E_Accepted td_default None now
        = Inr (wrote, v)"
    and rest: "(case wrote of
        Wrote_Stale \<Rightarrow> Inr w
      | Wrote_Done _ \<Rightarrow> Inr (enqueue v (DirectSendBatch (c_id claimed) (c_dispatch_gen claimed)) now))
      = (Inr w' :: JobError + world)"
    by (auto simp: direct_materialize_def result_simps)
  show ?thesis
  proof (cases wrote)
    case Wrote_Stale
    then show ?thesis using rest by simp
  next
    case (Wrote_Done d)
    have "leads w (w\<lparr>w_db := t1\<rparr>)" by (rule materialize_leads [OF rows])
    also have "leads (w\<lparr>w_db := t1\<rparr>) (w\<lparr>w_db := t2\<rparr>)"
      using attempt_steps_leads(2) [of "w\<lparr>w_db := t1\<rparr>"] finish by simp
    also have "leads (w\<lparr>w_db := t2\<rparr>) v"
      by (rule apply_and_tell_leads [OF written]) (simp_all add: transition_def)
    also have "leads v w'" using rest Wrote_Done leads_same_core same_core_simps(1) by auto
    finally show ?thesis .
  qed
qed

lemma start_remote_stale: "start_remote w claimed attempt clock now = Inr (False, u) \<Longrightarrow> u = w"
  by (auto simp: start_remote_def result_simps split: if_splits)

lemma direct_start_leads:
  assumes "\<And>i. engine_handler (meanwhile i)"
  shows "leads w (snd (direct_start meanwhile an ck claimed bound audience w))"
proof -
  have "leads w (snd (commit (meanwhile 5 u) (if c_dry_run claimed
        then direct_dry_run (meanwhile 5 u) claimed audience (an_attempt an) (ck_record ck)
        else direct_materialize (meanwhile 5 u) claimed audience (an_fresh an) (an_attempt an) (ck_db ck) (ck_record ck))))"
    if "start_remote w claimed (an_attempt an) (ck_db ck) (ck_start ck) = Inr (True, u)" for u
  proof -
    have "leads w u" by (rule start_remote_calls(1) [OF that])
    also have "leads u (meanwhile 5 u)" by (rule handler_leads [OF assms])
    also have "leads (meanwhile 5 u) (snd (commit (meanwhile 5 u) (if c_dry_run claimed
        then direct_dry_run (meanwhile 5 u) claimed audience (an_attempt an) (ck_record ck)
        else direct_materialize (meanwhile 5 u) claimed audience (an_fresh an) (an_attempt an) (ck_db ck) (ck_record ck))))"
      by (rule commit_leads) (auto split: if_splits dest: direct_dry_run_leads direct_materialize_leads)
    finally show ?thesis .
  qed
  then show ?thesis
    by (auto simp: direct_start_def Let_def fail_claim_leads dest!: start_remote_stale split: sum.split bool.split)
qed

section \<open>The whole run\<close>

lemma retime_leads: "retime w claimed at now = Inr w' \<Longrightarrow> leads w w'"
  unfolding retime_def by (erule apply_then_queue_leads) simp

lemma publish_leads:
  assumes "\<And>i. engine_handler (meanwhile i)"
  shows "leads w (snd (publish cal pick settings meanwhile an ck p w))"
proof (cases "c_operation (pp_claimed p) = Op_Direct")
  case True
  then show ?thesis by (simp add: publish_def direct_start_leads [OF assms])
next
  case False
  show ?thesis
  proof (cases "native_publish_at w (pp_claimed p) (pp_bound p) (ck_native ck)")
    case (Inl e)
    then show ?thesis using False by (simp add: publish_def give_back_leads)
  next
    case (Inr native)
    show ?thesis
    proof (cases native)
      case (NT_Retime at)
      let ?w = "meanwhile 4 (give_back w (pp_reserved p))"
      have "leads w ?w" by (rule leads_trans [OF give_back_leads handler_leads [OF assms]])
      also have "leads ?w (snd (commit ?w (retime ?w (pp_claimed p) at (ck_start ck))))"
        by (rule commit_leads) (rule retime_leads)
      finally show ?thesis using False Inr NT_Retime by (simp add: publish_def Let_def)
    next
      case (NT_Publish at)
      let ?w = "meanwhile 4 w"
      have gap: "leads w ?w" by (rule handler_leads [OF assms])
      note started = publish_started_leads [OF assms]
      have "leads ?w (snd (publish cal pick settings meanwhile an ck p w))"
        using False Inr NT_Publish
        by (auto simp: publish_def Let_def give_back_leads started dest!: start_remote_stale split: sum.split bool.split)
      with gap show ?thesis by (rule leads_trans)
    qed
  qed
qed

lemma run_publish_leads:
  assumes "\<And>i. engine_handler (meanwhile i)"
  shows "leads w (snd (run_publish cal pick settings compiled meanwhile an ck did gen w))"
proof -
  obtain r u where r: "prepare cal settings compiled an meanwhile ck did gen w = (r, u)" by (metis surj_pair)
  from prepare_leads [OF assms] have "leads w (snd (prepare cal settings compiled an meanwhile ck did gen w))" .
  then have "leads w u" by (simp add: r)
  also have "leads u (snd (run_publish cal pick settings compiled meanwhile an ck did gen w))"
    by (auto simp: run_publish_def r publish_leads [OF assms] split: sum.split option.split)
  finally show ?thesis .
qed

end
