(* ===== verification/Checks.thy ===== *)
theory Checks
  imports World
begin

text \<open>
  The handlers that ask a platform about a delivery: the models of
  \<^verbatim>\<open>backend/crates/publishing/src/poll.rs\<close> and \<^verbatim>\<open>reconcile.rs\<close>.

  \<open>answer\<close> is what the platform's client said; it is \<open>None\<close> when it could not be asked (no variant
  of the account in the snapshot, or no client could be bound). \<open>now\<close> is the clock at the start
  and \<open>now2\<close> after the call. Each read and each transaction has a connection of its own: \<open>meanwhile\<close>
  is what other transactions did after the delivery was read (0), after the chain's step was taken
  (1) and before the transaction that writes the answer (2).
\<close>

section \<open>Polling a processing delivery\<close>

definition timed_out :: "'z calendar \<Rightarrow> CheckTarget \<Rightarrow> duration \<Rightarrow> timestamp \<Rightarrow> bool" where
  "timed_out cal target timeout now =
     (case (case ct_remote_publish_at target of Some t \<Rightarrow> Some t | None \<Rightarrow> ct_attempt_started_at target) of
        None \<Rightarrow> False
      | Some since \<Rightarrow> now \<ge> later cal since timeout)"

definition poll_publish ::
  "world \<Rightarrow> CheckTarget \<Rightarrow> Fence \<Rightarrow> PublishReceipt \<Rightarrow> timestamp \<Rightarrow> JobError + world" where
  "poll_publish w target f receipt now =
     bindE (apply_and_tell w (ct_delivery target) f E_Published (receipt_data receipt)
              (Some N_DeliveryPublished) now) (\<lambda>(wrote, w).
       case wrote of
         Wrote_Stale \<Rightarrow> late_receipt w (ct_delivery target) receipt now
       | Wrote_Done _ \<Rightarrow> Inr w)"

definition poll_fail :: "world \<Rightarrow> CheckTarget \<Rightarrow> Fence \<Rightarrow> AgentError \<Rightarrow> timestamp \<Rightarrow> JobError + world" where
  "poll_fail w target f e now =
     bindE (apply_and_tell w (ct_delivery target) f E_PermanentFailure
              (td_default\<lparr>td_last_error := Some (last_error e)\<rparr>) (Some N_DeliveryFailed) now)
       (\<lambda>(wrote, w). Inr w)"

definition poll_time_out :: "world \<Rightarrow> CheckTarget \<Rightarrow> Fence \<Rightarrow> timestamp \<Rightarrow> JobError + world" where
  "poll_time_out w target f now =
     bindE (apply_and_tell w (ct_delivery target) f E_ProcessingTimeout
              (td_default\<lparr>td_last_error := Some (JObject [(''code'', JString ''processing_timeout''),
                                                        (''class'', JString ''ambiguous'')]),
                          td_count_attempt := True\<rparr>) (Some N_DeliveryOutcomeUnknown) now)
       (\<lambda>(wrote, w).
         case wrote of
           Wrote_Done _ \<Rightarrow> Inr (enqueue w (ReconcileDelivery (c_id (ct_delivery target))
             (c_dispatch_gen (ct_delivery target)) 0) now)
         | Wrote_Stale \<Rightarrow> Inr w)"

text \<open>The answer of the platform decides, in a transaction of its own.\<close>

definition poll_settle ::
  "'z calendar \<Rightarrow> world \<Rightarrow> CheckTarget \<Rightarrow> Fence \<Rightarrow> int \<Rightarrow> timestamp \<Rightarrow> (AgentError + PublishOutcome) option
   \<Rightarrow> timestamp \<Rightarrow> JobError + world" where
  "poll_settle cal w target f next_poll next_due answer now2 =
     (let again = (\<lambda>retry_at. Inr (enqueue_successor w f next_poll
            (PollDeliveryStatus (c_id (ct_delivery target)) (c_dispatch_gen (ct_delivery target)) next_poll)
            next_due retry_at))
      in case answer of
           Some (Inr (PO_Published receipt)) \<Rightarrow> poll_publish w target f receipt now2
         | Some (Inl e) \<Rightarrow>
             if retry_class e = RC_Permanent then poll_fail w target f e now2
             else again (retry_after_at cal e now2)
         | _ \<Rightarrow> again None)"

definition run_poll ::
  "'z calendar \<Rightarrow> PublishingSettings \<Rightarrow> (nat \<Rightarrow> world \<Rightarrow> world) \<Rightarrow> (AgentError + PublishOutcome) option
   \<Rightarrow> timestamp \<Rightarrow> timestamp \<Rightarrow> uuid \<Rightarrow> int \<Rightarrow> int \<Rightarrow> world \<Rightarrow> JobError option \<times> world" where
  "run_poll cal settings meanwhile answer now now2 did gen poll w =
     (case check_target (w_db w) did of
        None \<Rightarrow> (None, w)
      | Some target \<Rightarrow>
          let claimed = ct_delivery target; f = fence claimed S_Processing;
              next_poll = i32_saturating_add poll 1
          in if ct_state target \<noteq> S_Processing \<or> c_dispatch_gen claimed \<noteq> gen
                \<or> c_operation claimed = Op_Direct
             then (None, w)
             else
               let w = meanwhile 0 w
               in if timed_out cal target (ps_processing_timeout settings) now
               then commit w (poll_time_out w target f now)
               else
               (case (case ct_remote_publish_at target of
                        Some at \<Rightarrow> if at > now then Some at else None | None \<Rightarrow> None) of
                  Some live_at \<Rightarrow>
                    commit w (bindE (map_err data_error (take_check (w_db w) f poll live_at)) (\<lambda>(taken, t).
                      let w = w\<lparr>w_db := t\<rparr>
                      in Inr (if taken
                              then enqueue w (PollDeliveryStatus (c_id claimed) (c_dispatch_gen claimed) next_poll) live_at
                              else w)))
                | None \<Rightarrow>
                    let next_due = later cal now (poll_delay next_poll)
                    in case take_check (w_db w) f poll next_due of
                         Inl e \<Rightarrow> (Some (data_error e), w)
                       | Inr (taken, t) \<Rightarrow>
                           let w = meanwhile 1 (w\<lparr>w_db := t\<rparr>)
                           in if \<not> taken then (None, w)
                              else (case job_snapshot (w_db w) (c_job_id claimed) of
                                      Inl e \<Rightarrow> (Some (data_error e), w)
                                    | Inr _ \<Rightarrow>
                                        let w = meanwhile 2 w
                                        in commit w (poll_settle cal w target f next_poll next_due answer now2))))"

section \<open>Reconciling an unknown outcome\<close>

datatype Verdict =
    V_Found PublishReceipt
  | V_Absent
  | V_Unresolvable
  | V_Retry "timestamp option"

text \<open>\<open>pick\<close> is the random pick of the retry delay.\<close>

definition settle ::
  "'z calendar \<Rightarrow> (nat \<Rightarrow> nat) \<Rightarrow> PublishingSettings \<Rightarrow> world \<Rightarrow> CheckTarget \<Rightarrow> Fence \<Rightarrow> Verdict \<Rightarrow> int
   \<Rightarrow> timestamp \<Rightarrow> timestamp \<Rightarrow> JobError + world" where
  "settle cal pick settings w target f verdict next_round next_due now =
     (let claimed = ct_delivery target
      in case verdict of
           V_Found receipt \<Rightarrow>
             bindE (apply_and_tell w claimed f E_ReconcileFound (receipt_data receipt)
                      (Some N_DeliveryPublished) now) (\<lambda>(wrote, w).
               case wrote of
                 Wrote_Stale \<Rightarrow> late_receipt w claimed receipt now
               | Wrote_Done _ \<Rightarrow> Inr w)
         | V_Absent \<Rightarrow>
             let spent = c_attempt_count claimed \<ge> int (ps_max_attempts settings);
                 (event, notice, data) =
                   (if spent then (E_RetryBudgetExhausted, Some N_DeliveryDeadLettered, td_default)
                    else (E_ReconcileAbsent, None,
                      td_default\<lparr>td_next_attempt_at :=
                        Some (later cal now (retry_delay pick (c_attempt_count claimed)))\<rparr>))
             in bindE (apply_and_tell w claimed f event data notice now) (\<lambda>(wrote, w).
                  case wrote of
                    Wrote_Done (Some dispatch) \<Rightarrow>
                      Inr (enqueue w (publish_job_of dispatch) (dp_run_at dispatch))
                  | _ \<Rightarrow> Inr w)
         | V_Unresolvable \<Rightarrow>
             bindE (apply_and_tell w claimed f E_ReconcileUnresolvable td_default
                      (Some N_DeliveryParked) now) (\<lambda>(wrote, w). Inr w)
         | V_Retry retry_at \<Rightarrow>
             Inr (enqueue_successor w f next_round
               (ReconcileDelivery (c_id claimed) (c_dispatch_gen claimed) next_round) next_due retry_at))"

definition verdict_of ::
  "'z calendar \<Rightarrow> PublishingSettings \<Rightarrow> CheckTarget \<Rightarrow> timestamp \<Rightarrow> (AgentError + ReconcileOutcome) option
   \<Rightarrow> timestamp \<Rightarrow> Verdict" where
  "verdict_of cal settings target attempted_at asked now =
     (let failed = (\<lambda>retry_at.
            if now \<ge> later cal (max (ct_state_since target) attempted_at) (ps_processing_timeout settings)
            then V_Unresolvable else V_Retry retry_at)
      in case asked of
           Some (Inr (RO_Found receipt)) \<Rightarrow> V_Found receipt
         | Some (Inr RO_Absent) \<Rightarrow> V_Absent
         | Some (Inr RO_Unresolvable) \<Rightarrow> V_Unresolvable
         | Some (Inl e) \<Rightarrow>
             if retry_class e = RC_Permanent then V_Unresolvable else failed (retry_after_at cal e now)
         | None \<Rightarrow> failed None)"

definition run_reconcile ::
  "'z calendar \<Rightarrow> (nat \<Rightarrow> nat) \<Rightarrow> PublishingSettings \<Rightarrow> (nat \<Rightarrow> world \<Rightarrow> world) \<Rightarrow> (AgentError + ReconcileOutcome) option
   \<Rightarrow> timestamp \<Rightarrow> timestamp \<Rightarrow> uuid \<Rightarrow> int \<Rightarrow> int \<Rightarrow> world \<Rightarrow> JobError option \<times> world" where
  "run_reconcile cal pick settings meanwhile answer now now2 did gen round w =
     (case check_target (w_db w) did of
        None \<Rightarrow> (None, w)
      | Some target \<Rightarrow>
          let claimed = ct_delivery target; f = fence claimed S_OutcomeUnknown;
              next_round = i32_saturating_add round 1;
              next_due = later cal now (poll_delay next_round);
              attempted_at = (case ct_attempt_started_at target of None \<Rightarrow> now | Some t \<Rightarrow> t)
          in if ct_state target \<noteq> S_OutcomeUnknown \<or> c_dispatch_gen claimed \<noteq> gen then (None, w)
             else
               let w = meanwhile 0 w
               in (case take_check (w_db w) f round next_due of
                  Inl e \<Rightarrow> (Some (data_error e), w)
                | Inr (taken, t) \<Rightarrow>
                    let w = meanwhile 1 (w\<lparr>w_db := t\<rparr>)
                    in if \<not> taken then (None, w)
                       else if c_operation claimed = Op_Direct
                       then
                         let w = meanwhile 2 w
                         in commit w (settle cal pick settings w target f V_Absent next_round next_due now)
                       else
                         (case job_snapshot (w_db w) (c_job_id claimed) of
                            Inl e \<Rightarrow> (Some (data_error e), w)
                          | Inr _ \<Rightarrow>
                              let w = meanwhile 2 w
                              in commit w (settle cal pick settings w target f
                                   (verdict_of cal settings target attempted_at answer now2)
                                   next_round next_due now2))))"

section \<open>Both handlers are the engine's\<close>

lemma poll_publish_leads:
  assumes "poll_publish w target (fence claimed S_Processing) receipt now = Inr w'"
  shows "leads w w'"
proof -
  from assms obtain wrote u where
    run: "apply_and_tell w (ct_delivery target) (fence claimed S_Processing) E_Published (receipt_data receipt)
        (Some N_DeliveryPublished) now = Inr (wrote, u)"
    and rest: "(case wrote of Wrote_Stale \<Rightarrow> late_receipt u (ct_delivery target) receipt now
        | Wrote_Done _ \<Rightarrow> Inr u) = Inr w'"
    by (auto simp: poll_publish_def result_simps)
  have "leads w u" by (rule apply_and_tell_leads [OF run]) (simp_all add: transition_def)
  also have "leads u w'" using rest by (cases wrote) (auto intro: late_receipt_leads)
  finally show ?thesis .
qed

lemma poll_fail_leads:
  "poll_fail w target (fence claimed S_Processing) e now = Inr w' \<Longrightarrow> leads w w'"
  by (auto simp: poll_fail_def result_simps transition_def elim!: apply_and_tell_leads)

lemma poll_time_out_leads:
  assumes "poll_time_out w target (fence claimed S_Processing) now = Inr w'"
  shows "leads w w'"
proof -
  from assms obtain wrote u data where
    run: "apply_and_tell w (ct_delivery target) (fence claimed S_Processing) E_ProcessingTimeout data
        (Some N_DeliveryOutcomeUnknown) now = Inr (wrote, u)"
    and rest: "(case wrote of
          Wrote_Done _ \<Rightarrow> Inr (enqueue u (ReconcileDelivery (c_id (ct_delivery target))
            (c_dispatch_gen (ct_delivery target)) 0) now)
        | Wrote_Stale \<Rightarrow> Inr u) = (Inr w' :: JobError + world)"
    by (auto simp: poll_time_out_def bindE_Inr_iff)
  have "leads w u" by (rule apply_and_tell_leads [OF run]) (simp_all add: transition_def)
  also have "leads u w'" using rest by (cases wrote) (auto simp: leads_same_core)
  finally show ?thesis .
qed

lemma poll_settle_leads:
  assumes "poll_settle cal w target (fence claimed S_Processing) n due answer now2 = Inr w'"
  shows "leads w w'"
proof -
  have again: "leads w (enqueue_successor w (fence claimed S_Processing) n job due retry_at)" for job retry_at
    by (rule enqueue_successor_leads) (simp add: in_check_def)
  show ?thesis
    using assms again
    by (auto simp: poll_settle_def Let_def split: option.splits sum.splits PublishOutcome.splits if_splits
        intro: poll_publish_leads poll_fail_leads)
qed

lemma run_poll_leads:
  assumes "\<And>i. engine_handler (meanwhile i)"
  shows "leads w (snd (run_poll cal settings meanwhile answer now now2 did gen poll w))"
proof (cases "check_target (w_db w) did")
  case None
  then show ?thesis by (simp add: run_poll_def)
next
  case (Some target)
  let ?f = "fence (ct_delivery target) S_Processing" and ?w = "meanwhile 0 w"
  have check: "in_check (f_expected ?f)" by (simp add: in_check_def)
  have gap: "leads u (meanwhile i u)" for i u by (rule handler_leads [OF assms])
  have native: "leads w (snd (commit ?w (bindE (map_err data_error (take_check (w_db ?w) ?f poll at)) (\<lambda>(taken, t).
      Inr (if taken then enqueue (?w\<lparr>w_db := t\<rparr>) job at else ?w\<lparr>w_db := t\<rparr>)))))" for at job
    by (rule leads_trans [OF gap], rule commit_leads)
      (auto simp: result_simps intro: take_check_leads [OF _ check] leads_trans [OF take_check_leads [OF _ check] leads_same_core])
  have late: "leads w (snd (commit ?w (poll_time_out ?w target ?f now)))"
    by (rule leads_trans [OF gap], rule commit_leads) (rule poll_time_out_leads)
  have taken: "leads w (meanwhile 1 (?w\<lparr>w_db := t\<rparr>))"
    if "take_check (w_db ?w) ?f poll due = Inr (taken, t)" for taken t due
    by (rule leads_trans [OF leads_trans [OF gap take_check_leads [OF that check]] gap])
  have asked: "leads w (snd (commit (meanwhile 2 (meanwhile 1 (?w\<lparr>w_db := t\<rparr>)))
      (poll_settle cal (meanwhile 2 (meanwhile 1 (?w\<lparr>w_db := t\<rparr>))) target ?f n due answer now2)))"
    if "take_check (w_db ?w) ?f poll due = Inr (taken, t)" for taken t n due
    by (rule leads_trans [OF leads_trans [OF taken [OF that] gap]], rule commit_leads) (rule poll_settle_leads)
  show ?thesis
    using late native asked taken gap
    by (auto simp: run_poll_def Some Let_def split: option.splits sum.splits if_splits)
qed

lemma settle_leads:
  assumes "settle cal pick settings w target (fence claimed S_OutcomeUnknown) verdict n due now = Inr w'"
  shows "leads w w'"
proof (cases verdict)
  case (V_Found receipt)
  with assms obtain wrote u where
    run: "apply_and_tell w (ct_delivery target) (fence claimed S_OutcomeUnknown) E_ReconcileFound
        (receipt_data receipt) (Some N_DeliveryPublished) now = Inr (wrote, u)"
    and rest: "(case wrote of Wrote_Stale \<Rightarrow> late_receipt u (ct_delivery target) receipt now
        | Wrote_Done _ \<Rightarrow> Inr u) = Inr w'"
    by (auto simp: settle_def Let_def result_simps)
  have "leads w u" by (rule apply_and_tell_leads [OF run]) (simp_all add: transition_def)
  also have "leads u w'" using rest by (cases wrote) (auto intro: late_receipt_leads)
  finally show ?thesis .
next
  case V_Absent
  then show ?thesis
    using assms
    by (cases "int (ps_max_attempts settings) \<le> c_attempt_count (ct_delivery target)")
      (simp_all add: settle_def Let_def apply_then_queue_leads)
next
  case V_Unresolvable
  then show ?thesis
    using assms by (auto simp: settle_def Let_def result_simps transition_def elim!: apply_and_tell_leads)
next
  case (V_Retry retry_at)
  have "in_check (f_expected (fence claimed S_OutcomeUnknown))" by (simp add: in_check_def)
  then show ?thesis
    using assms V_Retry enqueue_successor_leads by (auto simp: settle_def Let_def)
qed

lemma run_reconcile_leads:
  assumes "\<And>i. engine_handler (meanwhile i)"
  shows "leads w (snd (run_reconcile cal pick settings meanwhile answer now now2 did gen round w))"
proof (cases "check_target (w_db w) did")
  case None
  then show ?thesis by (simp add: run_reconcile_def)
next
  case (Some target)
  let ?f = "fence (ct_delivery target) S_OutcomeUnknown" and ?w = "meanwhile 0 w"
  have check: "in_check (f_expected ?f)" by (simp add: in_check_def)
  have gap: "leads u (meanwhile i u)" for i u by (rule handler_leads [OF assms])
  have taken: "leads w (meanwhile 1 (?w\<lparr>w_db := t\<rparr>))"
    if "take_check (w_db ?w) ?f round due = Inr (taken, t)" for taken t due
    by (rule leads_trans [OF leads_trans [OF gap take_check_leads [OF that check]] gap])
  have settled: "leads w (snd (commit (meanwhile 2 (meanwhile 1 (?w\<lparr>w_db := t\<rparr>)))
      (settle cal pick settings (meanwhile 2 (meanwhile 1 (?w\<lparr>w_db := t\<rparr>))) target ?f verdict n due at)))"
    if "take_check (w_db ?w) ?f round due' = Inr (taken, t)" for taken t n due due' verdict at
    by (rule leads_trans [OF leads_trans [OF taken [OF that] gap]], rule commit_leads) (rule settle_leads)
  show ?thesis
    using settled taken gap
    by (auto simp: run_reconcile_def Some Let_def split: option.splits sum.splits if_splits)
qed

end
