(* ===== verification/Batch.thy ===== *)
theory Batch
  imports Worker_Run "HOL-Library.AList"
begin

text \<open>
  The \<^verbatim>\<open>direct_send_batch\<close> handler: the model of \<^verbatim>\<open>run_batch\<close> and what it calls in
  \<^verbatim>\<open>backend/crates/publishing/src/direct.rs\<close>. \<open>send\<close> is the agent's \<^verbatim>\<open>send_batch\<close>, a function of the
  recipients it is handed; \<open>render\<close> is \<^verbatim>\<open>serde_json\<close>'s text of a value. The maps the source keeps
  by send id are association lists with distinct keys; where it iterates over one, \<open>order\<close> is the
  order of the iteration. The lease is renewed while the call runs (\<open>renew_batch\<close> is a transaction
  of its own, among \<open>meanwhile\<close>). How long the images of an email are kept is the media store's:
  \<open>retain\<close> is the error, if any, of \<^verbatim>\<open>retain_images\<close>, which fails the transaction.
\<close>

section \<open>Fates\<close>

datatype DirectSendOutcome =
    DSO_Sent "string option"
  | DSO_Bounced bool string
  | DSO_Failed bool string

record DirectRecipient =
  rp_send_id :: uuid
  rp_address :: string
  rp_merge_fields :: "string \<rightharpoonup> string"
  rp_locale :: string

datatype Fate = F_Record DirectResult | F_Unsent DirectResult | F_Soft string

type_synonym fates = "(uuid \<times> Fate) list"

definition MAX_REQUEUES :: int where
  "MAX_REQUEUES = 2"

definition MAX_REASON_LEN :: nat where
  "MAX_REASON_LEN = 64"

definition code_char :: "char \<Rightarrow> bool" where
  "code_char c = (let n = of_char c :: nat in (97 \<le> n \<and> n \<le> 122) \<or> (48 \<le> n \<and> n \<le> 57) \<or> n = 95)"

definition stored_code :: "string \<Rightarrow> string \<Rightarrow> string" where
  "stored_code reason fallback =
     (if reason \<noteq> [] \<and> length reason \<le> MAX_REASON_LEN \<and> list_all code_char reason then reason else fallback)"

definition fate :: "DirectSendOutcome \<Rightarrow> Fate" where
  "fate outcome =
     (case outcome of
        DSO_Sent remote_id \<Rightarrow> F_Record (DR_Sent remote_id)
      | DSO_Bounced permanent reason \<Rightarrow>
          if permanent then F_Record (DR_Bounced (stored_code reason ''bounced''))
          else F_Soft (stored_code reason ''soft_bounce'')
      | DSO_Failed retryable reason \<Rightarrow>
          if retryable then F_Soft (stored_code reason ''send_failed'')
          else F_Record (DR_Failed (stored_code reason ''rejected'')))"

definition text_fields :: "(json \<Rightarrow> string) \<Rightarrow> (string \<times> json) list \<Rightarrow> (string \<times> string) list" where
  "text_fields render entries =
     List.map_filter (\<lambda>(key, v). case v of
         JNull \<Rightarrow> None | JString t \<Rightarrow> Some (key, t) | _ \<Rightarrow> Some (key, render v)) entries"

definition insert_some :: "string \<Rightarrow> string option \<Rightarrow> (string \<rightharpoonup> string) \<Rightarrow> (string \<rightharpoonup> string)" where
  "insert_some key v m = (case v of None \<Rightarrow> m | Some x \<Rightarrow> m(key \<mapsto> x))"

definition recipient :: "(json \<Rightarrow> string) \<Rightarrow> DirectRecipientRow \<Rightarrow> string \<Rightarrow> DirectRecipient" where
  "recipient render found address =
     (let own_fields = (case rr_fields found of JObject entries \<Rightarrow> map_of (rev (text_fields render entries)) | _ \<Rightarrow> Map.empty)
      in \<lparr>rp_send_id = rr_id found, rp_address = address,
          rp_merge_fields = insert_some ''last_name'' (rr_last_name found)
            (insert_some ''first_name'' (rr_first_name found) own_fields),
          rp_locale = (case rr_locale found of None \<Rightarrow> ''en'' | Some l \<Rightarrow> l)\<rparr>)"

section \<open>What stops a batch\<close>

datatype Blocked = BL_Wait | BL_Reconnect uuid | BL_Fail json

definition fail_campaign :: "world \<Rightarrow> ClaimedDelivery \<Rightarrow> json \<Rightarrow> timestamp \<Rightarrow> JobError + world" where
  "fail_campaign w claimed err now =
     bindE (apply_and_tell w claimed (fence claimed S_Processing) E_PermanentFailure
              (td_default\<lparr>td_last_error := Some err\<rparr>) (Some N_DeliveryFailed) now) (\<lambda>(wrote, w). Inr w)"

definition settle_blocked :: "world \<Rightarrow> ClaimedDelivery \<Rightarrow> Blocked \<Rightarrow> timestamp \<Rightarrow> JobError option \<times> world" where
  "settle_blocked w claimed blocked now =
     (case blocked of
        BL_Wait \<Rightarrow> (None, w)
      | BL_Reconnect grant \<Rightarrow> commit w (Inr (mark_grant w claimed grant))
      | BL_Fail err \<Rightarrow> commit w (fail_campaign w claimed err now))"

definition bind_sender ::
  "world \<Rightarrow> AccountError + BoundClient \<Rightarrow> ClaimedDelivery \<Rightarrow> JobError + (Blocked + BoundClient)" where
  "bind_sender w answer claimed =
     (case own_account (w_db w) (c_owner_id claimed) (c_account_id claimed) of
        Inl e \<Rightarrow> if e = DE_NotFound then Inr (Inl BL_Wait) else Inl (data_error e)
      | Inr account \<Rightarrow>
          if ac_status account \<noteq> ''active'' then Inr (Inl BL_Wait)
          else
            (case answer of
               Inr bound \<Rightarrow> if bc_direct bound then Inr (Inr bound) else Inr (Inl (BL_Fail capability_unsupported))
             | Inl e \<Rightarrow>
                 (case unbound e of
                    UB_Retry \<Rightarrow> Inl JE_Retry
                  | UB_Park reason \<Rightarrow>
                      Inr (Inl (if reason = AccountNeedsReconnect
                                then (case ac_grant_id account of Some grant \<Rightarrow> BL_Reconnect grant | None \<Rightarrow> BL_Wait)
                                else BL_Wait))
                  | UB_Fail code \<Rightarrow>
                      Inr (Inl (BL_Fail (JObject [(''code'', JString code), (''class'', JString ''permanent'')]))))))"

definition batch_message ::
  "world \<Rightarrow> media \<Rightarrow> (string \<Rightarrow> uuid option) \<Rightarrow> ClaimedDelivery \<Rightarrow> JobError + (Blocked + Assembled)" where
  "batch_message w media parse_uuid claimed =
     bindE (map_err data_error (job_snapshot (w_db w) (c_job_id claimed))) (\<lambda>snapshot.
       case assemble media snapshot (c_account_id claimed) of
         Inr assembled \<Rightarrow>
           Inr (Inr (assembled\<lparr>asm_variant := snd (take_audience parse_uuid (asm_variant assembled))\<rparr>))
       | Inl (AssembleData e) \<Rightarrow> Inl (data_error e)
       | Inl VariantMissing \<Rightarrow>
           Inr (Inl (BL_Fail (revalidation_failed [JObject [(''code'', JString ''variant_missing'')]])))
       | Inl (AssetsMissing _) \<Rightarrow>
           Inr (Inl (BL_Fail (revalidation_failed [JObject [(''code'', JString ''media_missing'')]]))))"

section \<open>The daily cap\<close>

record DailyCap =
  cap_key :: AccountQuotaKey
  cap_limit :: int
  cap_resume_at :: timestamp

definition EMAIL_CAP_BUCKET :: string where
  "EMAIL_CAP_BUCKET = ''daily_cap''"

definition email_daily_cap :: "db \<Rightarrow> uuid \<Rightarrow> int" where
  "email_daily_cap s user =
     (case row_by ul_user_id user (user_limits s) of
        Some limits \<Rightarrow> if ul_email_daily_cap limits < 0 then 0 else ul_email_daily_cap limits
      | None \<Rightarrow> 500)"

definition daily_cap :: "'z calendar \<Rightarrow> world \<Rightarrow> ClaimedDelivery \<Rightarrow> BoundClient \<Rightarrow> timestamp \<Rightarrow> DailyCap" where
  "daily_cap cal w claimed bound now =
     (let zone = (case row_by up_user_id (c_owner_id claimed) (user_preferences (w_db w)) of
                    None \<Rightarrow> ''UTC'' | Some p \<Rightarrow> up_timezone p);
          (today, resume_at) = local_day cal zone now
      in \<lparr>cap_key = \<lparr>qk_owner = c_owner_id claimed, qk_account = c_account_id claimed,
                     qk_platform = ad_platform (bc_descriptor bound), qk_bucket = EMAIL_CAP_BUCKET,
                     qk_period_start = today\<rparr>,
          cap_limit = email_daily_cap (w_db w) (c_owner_id claimed), cap_resume_at = resume_at\<rparr>)"

section \<open>Recording a batch\<close>

definition enqueue_batch :: "world \<Rightarrow> ClaimedDelivery \<Rightarrow> timestamp \<Rightarrow> world" where
  "enqueue_batch w claimed at = enqueue w (batch_job_of
     \<lparr>dp_delivery = c_id claimed, dp_dispatch_gen = c_dispatch_gen claimed, dp_run_at = at\<rparr>) at"

definition finish_or_continue ::
  "world \<Rightarrow> ClaimedDelivery \<Rightarrow> timestamp option \<Rightarrow> timestamp \<Rightarrow> JobError + world" where
  "finish_or_continue w claimed next_at now =
     bindE (map_err data_error (finish_if_done (w_db w) (fence claimed S_Processing) now)) (\<lambda>(ended, t).
       let w = w\<lparr>w_db := t\<rparr>
       in case ended of
            Some (Done st _ job) \<Rightarrow> tell w claimed (Some N_DeliveryPublished) st job
          | Some Stale \<Rightarrow> Inr w
          | None \<Rightarrow> (case next_at of Some at \<Rightarrow> Inr (enqueue_batch w claimed at) | None \<Rightarrow> Inr w))"

record Tally =
  ta_recorded :: bool
  ta_sent :: bool
  ta_answered :: bool
  ta_requeued :: "int option"

definition tally_start :: Tally where
  "tally_start = \<lparr>ta_recorded = False, ta_sent = False, ta_answered = False, ta_requeued = None\<rparr>"

definition record_result_row ::
  "uuid \<Rightarrow> timestamp \<Rightarrow> uuid \<Rightarrow> DirectResult \<Rightarrow> bool \<Rightarrow> Tally \<Rightarrow> db \<Rightarrow> DataError + Tally \<times> db" where
  "record_result_row batch now sid result from_provider tally s =
     bindE (record_send s sid batch result now) (\<lambda>(landed, t).
       Inr (tally\<lparr>ta_recorded := ta_recorded tally \<or> landed,
                  ta_sent := ta_sent tally \<or> (landed \<and> (case result of DR_Sent _ \<Rightarrow> True | _ \<Rightarrow> False)),
                  ta_answered := ta_answered tally \<or> (landed \<and> from_provider)\<rparr>, t))"

definition record_one ::
  "uuid \<Rightarrow> timestamp \<Rightarrow> (fates \<times> Tally) \<times> db \<Rightarrow> DirectSendRow \<Rightarrow> DataError + (fates \<times> Tally) \<times> db" where
  "record_one batch now acc row =
     (case acc of ((fates, tally), s) \<Rightarrow>
        (case map_of fates (dr_id row) of
           None \<Rightarrow> Inr acc
         | Some given \<Rightarrow>
             let fates = AList.delete (dr_id row) fates;
                 settle = (\<lambda>result from_provider s.
                   bindE (record_result_row batch now (dr_id row) result from_provider tally s) (\<lambda>(tally, t).
                     Inr ((fates, tally), t)))
             in (case given of
                   F_Record result \<Rightarrow> settle result True s
                 | F_Unsent result \<Rightarrow> settle result False s
                 | F_Soft code \<Rightarrow>
                     if dr_tries row < MAX_REQUEUES then
                       bindE (requeue s (dr_id row) batch now) (\<lambda>(put_back, t).
                         if put_back then
                           (let tried = min (2 ^ 15 - 1) (dr_tries row + 1)
                            in Inr ((fates, tally\<lparr>ta_requeued := Some (case ta_requeued tally of
                                   None \<Rightarrow> tried | Some most \<Rightarrow> max most tried)\<rparr>), t))
                         else settle (DR_Failed code) False t)
                     else settle (DR_Failed code) False s)))"

definition next_batch ::
  "'z calendar \<Rightarrow> (nat \<Rightarrow> nat) \<Rightarrow> Tally \<Rightarrow> timestamp option \<Rightarrow> timestamp \<Rightarrow> timestamp option" where
  "next_batch cal pick tally retry_at now =
     (let rest = (if ta_recorded tally then Some now else None)
      in case ta_requeued tally of
           Some tried \<Rightarrow>
             if \<not> ta_answered tally
             then Some (case retry_at of Some at \<Rightarrow> at | None \<Rightarrow> later cal now (retry_delay pick tried))
             else rest
         | None \<Rightarrow> rest)"

record BatchClocks =
  bk_start :: timestamp
  bk_fail :: timestamp
  bk_answer :: timestamp
  bk_record :: timestamp
  bk_finish :: timestamp
  bk_db :: timestamp

definition record_after ::
  "'z calendar \<Rightarrow> (nat \<Rightarrow> nat) \<Rightarrow> BatchClocks \<Rightarrow> world \<Rightarrow> ClaimedDelivery \<Rightarrow> DailyCap \<Rightarrow> uuid \<Rightarrow> DirectSendRow list
   \<Rightarrow> JobError option \<Rightarrow> fates \<Rightarrow> int \<Rightarrow> timestamp option \<Rightarrow> JobError + world" where
  "record_after cal pick bk w claimed cap batch rows retain fates unsent retry_at =
     bindE (map_err data_error (foldE (record_one batch (bk_record bk)) ((fates, tally_start), w_db w) rows))
       (\<lambda>((_, tally), t).
       bindE (case retain of Some e \<Rightarrow> if ta_sent tally then Inl e else Inr () | None \<Rightarrow> Inr ()) (\<lambda>_.
         let next_at = next_batch cal pick tally retry_at (bk_record bk);
             t = (if cap_limit cap \<noteq> 0 \<and> unsent > 0 then quota_release t (cap_key cap) unsent else t)
         in finish_or_continue (w\<lparr>w_db := t\<rparr>) claimed next_at (bk_finish bk)))"

definition record_unsent :: "uuid \<Rightarrow> timestamp \<Rightarrow> db \<Rightarrow> uuid \<times> Fate \<Rightarrow> DataError + db" where
  "record_unsent batch now s entry =
     (case snd entry of
        F_Unsent result \<Rightarrow> bindE (record_send s (fst entry) batch result now) (\<lambda>(_, t). Inr t)
      | _ \<Rightarrow> Inr s)"

definition refuse ::
  "(fates \<Rightarrow> fates) \<Rightarrow> BatchClocks \<Rightarrow> world \<Rightarrow> ClaimedDelivery \<Rightarrow> BoundClient \<Rightarrow> DailyCap \<Rightarrow> uuid \<Rightarrow> nat
   \<Rightarrow> fates \<Rightarrow> JobError + world" where
  "refuse order bk w claimed bound cap batch taken fates =
     bindE (map_err data_error (foldE (record_unsent batch (bk_record bk)) (w_db w) (order fates))) (\<lambda>t.
       let t = snd (release_batch t (bk_db bk) (c_id claimed) batch);
           t = (if cap_limit cap \<noteq> 0 then quota_release t (cap_key cap) (int taken) else t)
       in Inr (mark_grant (w\<lparr>w_db := t\<rparr>) claimed (bc_grant bound)))"

section \<open>Sending a batch\<close>

definition split_one ::
  "(json \<Rightarrow> string) \<Rightarrow> (uuid \<rightharpoonup> DirectRecipientRow) \<Rightarrow> fates \<times> DirectRecipient list \<Rightarrow> DirectSendRow
   \<Rightarrow> fates \<times> DirectRecipient list" where
  "split_one render found acc row =
     (case acc of (fates, to_send) \<Rightarrow>
        (case found (dr_id row) of
           Some contact \<Rightarrow>
             if rr_suppressed contact then (AList.update (dr_id row) (F_Unsent DR_Suppressed) fates, to_send)
             else (case rr_email contact of
                     Some address \<Rightarrow> (fates, to_send @ [recipient render contact address])
                   | None \<Rightarrow> (AList.update (dr_id row) (F_Unsent (DR_Failed ''contact_missing'')) fates, to_send))
         | None \<Rightarrow> (AList.update (dr_id row) (F_Unsent (DR_Failed ''contact_missing'')) fates, to_send)))"

definition split_rows ::
  "(json \<Rightarrow> string) \<Rightarrow> db \<Rightarrow> uuid \<Rightarrow> DirectSendRow list \<Rightarrow> fates \<times> DirectRecipient list" where
  "split_rows render s user rows =
     (let found = map_of (rev (map (\<lambda>r. (rr_id r, r)) (recipients s user (map dr_id rows))))
      in foldl (split_one render found) ([], []) rows)"

definition answered_fates ::
  "fates \<Rightarrow> DirectRecipient list \<Rightarrow> (uuid \<times> DirectSendOutcome) list \<Rightarrow> fates" where
  "answered_fates fates to_send results =
     fst (foldl (\<lambda>(fates, left) r.
         (AList.update (rp_send_id r)
            (case left (rp_send_id r) of Some outcome \<Rightarrow> fate outcome | None \<Rightarrow> F_Soft ''no_result'') fates,
          left(rp_send_id r := None))) (fates, map_of (rev results)) to_send)"

text \<open>An error for the batch as a whole; the two that refuse the credentials do not get here.\<close>

definition failed_fates :: "fates \<Rightarrow> DirectRecipient list \<Rightarrow> AgentError \<Rightarrow> fates" where
  "failed_fates fates to_send e = foldl (\<lambda>fates r. AList.update (rp_send_id r) (F_Soft (error_code e)) fates) fates to_send"

definition send_batch ::
  "'z calendar \<Rightarrow> (nat \<Rightarrow> nat) \<Rightarrow> (json \<Rightarrow> string) \<Rightarrow> (DirectRecipient list \<Rightarrow> AgentError + (uuid \<times> DirectSendOutcome) list)
   \<Rightarrow> (fates \<Rightarrow> fates) \<Rightarrow> (world \<Rightarrow> world) \<Rightarrow> BatchClocks \<Rightarrow> ClaimedDelivery \<Rightarrow> BoundClient \<Rightarrow> DailyCap \<Rightarrow> uuid
   \<Rightarrow> DirectSendRow list \<Rightarrow> JobError option \<Rightarrow> world \<Rightarrow> JobError option \<times> world" where
  "send_batch cal pick render send order meanwhile bk claimed bound cap batch rows retain w =
     (let (fates, to_send) = split_rows render (w_db w) (c_owner_id claimed) rows;
          unsent = int (length fates);
          called = (if to_send = [] then Inr [] else send to_send);
          w = meanwhile w
      in commit w
           (case called of
              Inr results \<Rightarrow>
                record_after cal pick bk w claimed cap batch rows retain (answered_fates fates to_send results) unsent None
            | Inl (Authentication _) \<Rightarrow> refuse order bk w claimed bound cap batch (length rows) fates
            | Inl (InvalidCredentials _) \<Rightarrow> refuse order bk w claimed bound cap batch (length rows) fates
            | Inl e \<Rightarrow>
                record_after cal pick bk w claimed cap batch rows retain (failed_fates fates to_send e) (int (length rows))
                  (retry_after_at cal e (bk_answer bk))))"

section \<open>The handler\<close>

record BatchAnswers =
  ba_shutdown :: bool
  ba_bound :: "AccountError + BoundClient"
  ba_media :: media
  ba_uuid :: "string \<Rightarrow> uuid option"
  ba_render :: "json \<Rightarrow> string"
  ba_send :: "DirectRecipient list \<Rightarrow> AgentError + (uuid \<times> DirectSendOutcome) list"
  ba_order :: "fates \<Rightarrow> fates"
  ba_held :: "uuid \<Rightarrow> bool"
  ba_batch :: uuid
  ba_retain :: "JobError option"

definition claimed_batch ::
  "'z calendar \<Rightarrow> (nat \<Rightarrow> nat) \<Rightarrow> BatchAnswers \<Rightarrow> (nat \<Rightarrow> world \<Rightarrow> world) \<Rightarrow> BatchClocks \<Rightarrow> ClaimedDelivery
   \<Rightarrow> BoundClient \<Rightarrow> Assembled \<Rightarrow> DailyCap \<Rightarrow> BatchClaim \<Rightarrow> world \<Rightarrow> JobError option \<times> world" where
  "claimed_batch cal pick ba meanwhile bk claimed bound message cap got w =
     (case got of
        BC_Stale \<Rightarrow> (None, w)
      | BC_Empty \<Rightarrow> let w = meanwhile 4 w in commit w (finish_or_continue w claimed None (bk_finish bk))
      | BC_CapReached \<Rightarrow>
          let w = meanwhile 4 w
          in commit w (bindE (map_err data_error (wait_for_cap (w_db w) (fence claimed S_Processing)
                                (cap_resume_at cap) (bk_start bk))) (\<lambda>(waiting, t).
               let w = w\<lparr>w_db := t\<rparr>
               in Inr (if waiting then enqueue_batch w claimed (cap_resume_at cap) else w)))
      | BC_Rows batch rows \<Rightarrow>
          send_batch cal pick (ba_render ba) (ba_send ba) (ba_order ba) (meanwhile 5) bk claimed bound cap batch rows
            (case va_email (asm_variant message) of
               None \<Rightarrow> None | Some email \<Rightarrow> if email_media_ids email = [] then None else ba_retain ba)
            (meanwhile 4 w))"

definition run_batch ::
  "'z calendar \<Rightarrow> (nat \<Rightarrow> nat) \<Rightarrow> PublishingSettings \<Rightarrow> int \<Rightarrow> (nat \<Rightarrow> world \<Rightarrow> world) \<Rightarrow> BatchAnswers \<Rightarrow> BatchClocks
   \<Rightarrow> uuid \<Rightarrow> int \<Rightarrow> world \<Rightarrow> JobError option \<times> world" where
  "run_batch cal pick settings batch_size meanwhile ba bk did gen w =
     (if ba_shutdown ba then (None, w)
      else
        (case check_target (w_db w) did of
           None \<Rightarrow> (None, w)
         | Some target \<Rightarrow>
             let claimed = ct_delivery target
             in if ct_state target \<noteq> S_Processing \<or> c_dispatch_gen claimed \<noteq> gen
                   \<or> c_operation claimed \<noteq> Op_Direct \<or> c_dry_run claimed
                then (None, w)
                else
                  let w = meanwhile 0 w
                  in (case bind_sender w (ba_bound ba) claimed of
                        Inl e \<Rightarrow> (Some e, w)
                      | Inr (Inl blocked) \<Rightarrow> settle_blocked (meanwhile 1 w) claimed blocked (bk_fail bk)
                      | Inr (Inr bound) \<Rightarrow>
                          let w = meanwhile 1 w
                          in (case batch_message w (ba_media ba) (ba_uuid ba) claimed of
                                Inl e \<Rightarrow> (Some e, w)
                              | Inr (Inl blocked) \<Rightarrow> settle_blocked (meanwhile 2 w) claimed blocked (bk_fail bk)
                              | Inr (Inr message) \<Rightarrow>
                                  let w = meanwhile 2 w; cap = daily_cap cal w claimed bound (bk_start bk)
                                  in if ps_lease settings > time_delta_max then (Some JE_Fatal, w)
                                     else
                                       let w = meanwhile 3 w;
                                           (got, t) = claim_batch (w_db w) (ba_held ba) (ba_batch ba)
                                             (fence claimed S_Processing) batch_size (bk_start bk)
                                             (int (ps_lease settings)) (Some (cap_key cap, cap_limit cap))
                                       in claimed_batch cal pick ba meanwhile bk claimed bound message cap got
                                            (w\<lparr>w_db := t\<rparr>)))))"

section \<open>A batch is made of transactions\<close>

lemma store_counts_deliveries:
  "store_counts s did = Inr t \<Longrightarrow>
   \<exists>cs. deliveries t = sql_update (\<lambda>r. d_id r = did) (\<lambda>r. r\<lparr>d_direct_counts := cs\<rparr>) (deliveries s)"
  by (auto simp: store_counts_def result_simps)

lemma queued_counts:
  assumes "queued Q s" and "deliveries t = sql_update p (\<lambda>r. r\<lparr>d_direct_counts := cs\<rparr>) (deliveries s)"
  shows "queued Q t"
  by (rule queued_update [OF assms]) (simp_all add: keeps_keys_def)

lemma record_send_queued:
  assumes run: "record_send s sid b result now = Inr (r, t)" and left: "queued Q s"
  shows "queued Q t"
  using run
proof (cases rule: record_send_cases)
  case gone
  then show ?thesis using left by simp
next
  case (landed old s2)
  have "deliveries s2 = deliveries s"
    using landed(3) by (auto split: DirectResult.splits dest!: add_hash_tables(1))
  then have s2: "queued Q s2" using left queued_same by blast
  from landed(4) show ?thesis
  proof (elim disjE exE conjE)
    fix job s3 c
    assume "store_counts s2 (s_delivery_id old) = Inr s3" and "touch_job s3 job now = Inr (c, t)"
    then show ?thesis
      using store_counts_deliveries queued_counts [OF s2] touch_job_tables(1) by metis
  qed (use s2 in simp)
qed

lemma record_send_leads:
  assumes "record_send (w_db w) sid b result now = Inr (r, t)"
  shows "leads w (w\<lparr>w_db := t\<rparr>)"
proof (rule leads_run [of _ "[Other]"])
  show "run tx (w_db w) [Other] (w_db (w\<lparr>w_db := t\<rparr>))"
    using tx.recorded [OF assms] by (auto intro: run_single)
qed (use record_send_queued [OF assms] in auto)

lemma requeue_leads:
  assumes "requeue (w_db w) sid b now = Inr (r, t)"
  shows "leads w (w\<lparr>w_db := t\<rparr>)"
proof (rule leads_aside)
  show "run tx (w_db w) [Other] t" by (rule run_single) (rule tx.requeue [OF assms])
  show "deliveries t = deliveries (w_db w)"
    using assms by (auto simp: requeue_def Let_def split: if_splits)
qed

lemma release_batch_leads: "leads w (w\<lparr>w_db := snd (release_batch (w_db w) clock did b)\<rparr>)"
proof (rule leads_aside)
  show "run tx (w_db w) [Other] (snd (release_batch (w_db w) clock did b))"
    by (rule run_single) (rule tx.batch_release)
qed (simp add: release_batch_def Let_def)

lemma quota_back_leads: "leads w (w\<lparr>w_db := quota_release (w_db w) key n\<rparr>)"
proof (rule leads_aside)
  show "run tx (w_db w) [Other] (quota_release (w_db w) key n)" by (rule run_single) (rule tx.quota_back)
qed simp

lemma claim_batch_leads:
  assumes "claim_batch (w_db w) held b f want now lease cap = (r, t)"
  shows "leads w (w\<lparr>w_db := t\<rparr>)"
proof (rule leads_aside)
  show "run tx (w_db w) [Other] t" by (rule run_single) (rule tx.batch [OF assms])
qed (use claim_batch_tables [OF assms] in simp)

lemma wait_for_cap_leads:
  assumes "wait_for_cap (w_db w) f at now = Inr (r, t)"
  shows "leads w (w\<lparr>w_db := t\<rparr>)"
proof (rule leads_run [of _ "[Other]"])
  show "run tx (w_db w) [Other] (w_db (w\<lparr>w_db := t\<rparr>))" using tx.cap [OF assms] by (auto intro: run_single)
  assume left: "queued (set (w_queue w)) (w_db w)"
  from assms have "t = w_db w \<or> deliveries t = sql_update (processing_row f)
      (\<lambda>r. r\<lparr>d_next_attempt_at := Some at, d_updated_at := now\<rparr>) (deliveries (w_db w))"
    by (auto simp: wait_for_cap_def Let_def result_simps split: option.splits dest!: touch_job_tables(1))
  then show "queued (set (w_queue (w\<lparr>w_db := t\<rparr>))) (w_db (w\<lparr>w_db := t\<rparr>))"
  proof
    assume "deliveries t = sql_update (processing_row f)
      (\<lambda>r. r\<lparr>d_next_attempt_at := Some at, d_updated_at := now\<rparr>) (deliveries (w_db w))"
    from queued_update [OF left this] show ?thesis by (simp add: keeps_keys_def processing_row_def)
  qed (use left in simp)
qed simp

lemma finish_if_done_leads:
  assumes "finish_if_done (w_db w) (fence claimed S_Processing) now = Inr (r, t)"
  shows "leads w (w\<lparr>w_db := t\<rparr>)"
proof (cases r)
  case None
  then show ?thesis using assms by (auto simp: finish_if_done_def result_simps split: if_splits)
next
  case (Some applied)
  then obtain data where
    "apply_event (w_db w) (fence claimed S_Processing) E_Published data now = Inr (applied, t)"
    using assms by (auto simp: finish_if_done_def result_simps split: if_splits)
  then show ?thesis by (rule apply_event_leads) (simp_all add: transition_def)
qed

section \<open>Steps of a batch\<close>

lemma finish_or_continue_leads:
  assumes "finish_or_continue w claimed next_at now = Inr w'"
  shows "leads w w'"
proof -
  from assms obtain r t where run: "finish_if_done (w_db w) (fence claimed S_Processing) now = Inr (r, t)"
    and rest: "(case r of
        Some (Done st _ job) \<Rightarrow> tell (w\<lparr>w_db := t\<rparr>) claimed (Some N_DeliveryPublished) st job
      | Some Stale \<Rightarrow> Inr (w\<lparr>w_db := t\<rparr>)
      | None \<Rightarrow> (case next_at of Some at \<Rightarrow> Inr (enqueue_batch (w\<lparr>w_db := t\<rparr>) claimed at)
                  | None \<Rightarrow> Inr (w\<lparr>w_db := t\<rparr>))) = (Inr w' :: JobError + world)"
    by (auto simp: finish_or_continue_def Let_def result_simps)
  have "leads w (w\<lparr>w_db := t\<rparr>)" by (rule finish_if_done_leads [OF run])
  also have "same_core (w\<lparr>w_db := t\<rparr>) w'"
  proof (cases r)
    case None
    then show ?thesis using rest by (auto simp: enqueue_batch_def split: option.splits)
  next
    case (Some applied)
    then show ?thesis using rest by (cases applied) (auto dest: tell_core)
  qed
  then have "leads (w\<lparr>w_db := t\<rparr>) w'" by (rule leads_same_core)
  finally show ?thesis .
qed

lemma record_result_row_leads:
  assumes "record_result_row b now sid result from_provider tally (w_db w) = Inr (tally', t)"
  shows "leads w (w\<lparr>w_db := t\<rparr>)"
  using assms by (auto simp: record_result_row_def result_simps dest: record_send_leads)

lemma record_one_leads:
  assumes "record_one b now ((fates, tally), w_db w) row = Inr (acc, t)"
  shows "leads w (w\<lparr>w_db := t\<rparr>)"
proof (cases "map_of fates (dr_id row)")
  case None
  then show ?thesis using assms by (auto simp: record_one_def)
next
  case (Some given)
  have soft: "leads w (w\<lparr>w_db := t\<rparr>)"
    if "requeue (w_db w) (dr_id row) b now = Inr (put_back, u)"
      and "record_result_row b now (dr_id row) result p tally u = Inr (tally', t)" for put_back u result p tally'
    using requeue_leads [OF that(1)] record_result_row_leads [of b now "dr_id row" result p tally "w\<lparr>w_db := u\<rparr>"] that(2)
    by (auto intro: leads_trans)
  show ?thesis
    using assms Some soft
    by (cases given) (auto simp: record_one_def Let_def result_simps split: if_splits
        dest: record_result_row_leads requeue_leads)
qed

lemma record_rows_leads:
  assumes "foldE (record_one b now) (acc, w_db w) rows = Inr (acc', t)"
  shows "leads w (w\<lparr>w_db := t\<rparr>)"
proof -
  have "(\<lambda>(acc, u). leads w (w\<lparr>w_db := u\<rparr>)) (acc', t)"
    using assms
  proof (rule foldE_invariant)
    fix x row y
    assume x: "case x of (acc, u) \<Rightarrow> leads w (w\<lparr>w_db := u\<rparr>)" and step: "record_one b now x row = Inr y"
    obtain fates tally u acc v where [simp]: "x = ((fates, tally), u)" "y = (acc, v)" by (metis surj_pair)
    from step record_one_leads [of b now fates tally "w\<lparr>w_db := u\<rparr>" row acc v]
    show "case y of (acc, u) \<Rightarrow> leads w (w\<lparr>w_db := u\<rparr>)" using x by (auto intro: leads_trans)
  qed simp
  then show ?thesis by simp
qed

lemma record_after_leads:
  assumes "record_after cal pick bk w claimed cap b rows retain fates unsent retry_at = Inr w'"
  shows "leads w w'"
proof -
  from assms obtain acc tally t next_at where
    loop: "foldE (record_one b (bk_record bk)) ((fates, tally_start), w_db w) rows = Inr ((acc, tally), t)"
    and finish: "finish_or_continue (w\<lparr>w_db := if cap_limit cap \<noteq> 0 \<and> unsent > 0
        then quota_release t (cap_key cap) unsent else t\<rparr>) claimed next_at (bk_finish bk) = Inr w'"
    by (auto simp: record_after_def Let_def result_simps)
  have "leads w (w\<lparr>w_db := t\<rparr>)" by (rule record_rows_leads [OF loop])
  also have "leads (w\<lparr>w_db := t\<rparr>) (w\<lparr>w_db := if cap_limit cap \<noteq> 0 \<and> unsent > 0
        then quota_release t (cap_key cap) unsent else t\<rparr>)"
    using quota_back_leads [of "w\<lparr>w_db := t\<rparr>"] by simp
  also note finish_or_continue_leads [OF finish]
  finally show ?thesis .
qed

lemma record_unsent_leads:
  assumes "foldE (record_unsent b now) (w_db w) entries = Inr t"
  shows "leads w (w\<lparr>w_db := t\<rparr>)"
  using assms
proof (rule foldE_invariant)
  fix u x v
  assume "leads w (w\<lparr>w_db := u\<rparr>)" and "record_unsent b now u x = Inr v"
  then show "leads w (w\<lparr>w_db := v\<rparr>)"
    using record_send_leads [of "w\<lparr>w_db := u\<rparr>"]
    by (fastforce simp: record_unsent_def result_simps split: Fate.splits intro: leads_trans)
qed simp

lemma refuse_leads:
  assumes "refuse order bk w claimed bound cap b n fates = Inr w'"
  shows "leads w w'"
proof -
  let ?released = "\<lambda>t. snd (release_batch t (bk_db bk) (c_id claimed) b)"
  let ?given = "\<lambda>t. if cap_limit cap \<noteq> 0 then quota_release t (cap_key cap) (int n) else t"
  from assms obtain t where loop: "foldE (record_unsent b (bk_record bk)) (w_db w) (order fates) = Inr t"
    and w': "w' = mark_grant (w\<lparr>w_db := ?given (?released t)\<rparr>) claimed (bc_grant bound)"
    by (auto simp: refuse_def Let_def result_simps)
  have "leads w (w\<lparr>w_db := t\<rparr>)" by (rule record_unsent_leads [OF loop])
  also have "leads (w\<lparr>w_db := t\<rparr>) (w\<lparr>w_db := ?released t\<rparr>)"
    using release_batch_leads [of "w\<lparr>w_db := t\<rparr>"] by simp
  also have "leads (w\<lparr>w_db := ?released t\<rparr>) (w\<lparr>w_db := ?given (?released t)\<rparr>)"
    using quota_back_leads [of "w\<lparr>w_db := ?released t\<rparr>"] by simp
  also have "leads (w\<lparr>w_db := ?given (?released t)\<rparr>) w'" unfolding w' by (rule leads_same_core) simp
  finally show ?thesis .
qed

lemma send_batch_leads:
  assumes "engine_handler meanwhile"
  shows "leads w (snd (send_batch cal pick render send order meanwhile bk claimed bound cap b rows retain w))"
proof -
  obtain fates to_send where rows: "split_rows render (w_db w) (c_owner_id claimed) rows = (fates, to_send)"
    by (metis surj_pair)
  have gap: "leads w (meanwhile w)" by (rule handler_leads [OF assms])
  show ?thesis
    unfolding send_batch_def Let_def rows prod.case
    by (rule leads_trans [OF gap], rule commit_leads)
      (auto split: sum.splits AgentError.splits dest: record_after_leads refuse_leads)
qed

section \<open>The whole run\<close>

lemma fail_campaign_leads: "fail_campaign w claimed err now = Inr w' \<Longrightarrow> leads w w'"
  by (auto simp: fail_campaign_def result_simps transition_def intro: apply_and_tell_leads)

lemma settle_blocked_leads: "leads w (snd (settle_blocked w claimed blocked now))"
  by (cases blocked)
    (auto simp: settle_blocked_def leads_same_core intro!: commit_leads dest: fail_campaign_leads)

lemma claimed_batch_leads:
  assumes "\<And>i. engine_handler (meanwhile i)"
  shows "leads w (snd (claimed_batch cal pick ba meanwhile bk claimed bound message cap got w))"
proof -
  have gap: "leads w (meanwhile 4 w)" by (rule handler_leads [OF assms])
  show ?thesis
  proof (cases got)
    case (BC_Rows b rows)
    then show ?thesis
      using leads_trans [OF gap send_batch_leads [OF assms]] by (simp add: claimed_batch_def)
  next
    case BC_CapReached
    then show ?thesis
      unfolding claimed_batch_def BC_CapReached BatchClaim.case Let_def
      by (intro leads_trans [OF gap] commit_leads)
        (auto simp: result_simps enqueue_batch_def split: if_splits dest!: wait_for_cap_leads
          intro: leads_trans leads_same_core same_core_simps(1))
  next
    case BC_Empty
    then show ?thesis
      unfolding claimed_batch_def BC_Empty BatchClaim.case Let_def
      by (intro leads_trans [OF gap] commit_leads) (rule finish_or_continue_leads)
  qed (simp add: claimed_batch_def)
qed

lemma run_batch_leads:
  assumes "\<And>i. engine_handler (meanwhile i)"
  shows "leads w (snd (run_batch cal pick settings batch_size meanwhile ba bk did gen w))"
proof -
  let ?w0 = "meanwhile 0 w"
  let ?w1 = "meanwhile 1 ?w0"
  let ?w2 = "meanwhile 2 ?w1"
  let ?w3 = "meanwhile 3 ?w2"
  note gap = handler_leads [OF assms]
  have g0: "leads w ?w0" and g1: "leads w ?w1" and g2: "leads w ?w2" and g3: "leads w ?w3"
    using gap leads_trans by blast+
  have claimed: "leads w (snd (claimed_batch cal pick ba meanwhile bk claimed bound message cap got (?w3\<lparr>w_db := t\<rparr>)))"
    if "claim_batch (w_db ?w3) held b f want now lease c = (got, t)" for claimed bound message cap got t held b f want now lease c
    by (rule leads_trans [OF leads_trans [OF g3 claim_batch_leads [OF that]] claimed_batch_leads [OF assms]])
  note settled = leads_trans [OF g1 settle_blocked_leads] leads_trans [OF g2 settle_blocked_leads]
  show ?thesis
    unfolding run_batch_def Let_def
    using g0 g1 g2 settled claimed
    by (auto split: option.split sum.split prod.split)
qed

section \<open>Properties\<close>

text \<open>The recipients a batch hands to the agent are the rows of the join that pass.\<close>

lemma split_fold_mem:
  assumes "rp \<in> set (snd (foldl (split_one render found) acc rows))"
  shows "rp \<in> set (snd acc) \<or> (\<exists>row \<in> set rows. \<exists>contact address. found (dr_id row) = Some contact
    \<and> \<not> rr_suppressed contact \<and> rr_email contact = Some address \<and> rp = recipient render contact address)"
  using assms
proof (induction rows arbitrary: acc)
  case (Cons row rows)
  obtain fates to_send where acc: "acc = (fates, to_send)" by (metis surj_pair)
  from Cons.IH [OF Cons.prems [simplified]] show ?case
    by (auto simp: acc split_one_def split: option.splits if_splits)
qed simp

lemma found_row:
  assumes "map_of (rev (map (\<lambda>r. (rr_id r, r)) (recipients s user ids))) k = Some contact"
  shows "\<exists>r \<in> set (direct_sends s). s_owner_id r = user \<and> s_id r \<in> set ids \<and> contact = recipient_row s r"
  using map_of_SomeD [OF assms] by (auto simp: recipients_def)

text \<open>
  C24: a batch mails only who may be mailed. Every recipient handed to the agent comes from a row of
  the batch that belongs to the delivery's owner and whose contact, of the same owner, still exists,
  is subscribed and is not suppressed at that moment, and the address is that contact's.
\<close>

theorem suppressed_contact_is_not_mailed:
  assumes "rp \<in> set (snd (split_rows render s user rows))"
  shows "\<exists>r \<in> set (direct_sends s). \<exists>c \<in> set (contacts s).
    s_owner_id r = user \<and> s_id r \<in> dr_id ` set rows \<and> rp_send_id rp = s_id r
    \<and> s_contact_id r = Some (ct_id c) \<and> ct_owner_id c = user \<and> rp_address rp = ct_email c
    \<and> ct_status c = ''subscribed'' \<and> \<not> suppressed s user (s_email_hash r)"
proof -
  let ?found = "map_of (rev (map (\<lambda>r. (rr_id r, r)) (recipients s user (map dr_id rows))))"
  from assms have "rp \<in> set (snd (foldl (split_one render ?found) ([], []) rows))"
    by (simp add: split_rows_def)
  from split_fold_mem [OF this] obtain row :: DirectSendRow and contact address
    where "?found (dr_id row) = Some contact" and open_to: "\<not> rr_suppressed contact" "rr_email contact = Some address"
    and rp: "rp = recipient render contact address"
    by simp blast
  from found_row [OF this(1)] obtain r where r: "r \<in> set (direct_sends s)" "s_owner_id r = user"
    "s_id r \<in> dr_id ` set rows" and contact: "contact = recipient_row s r" by auto
  with open_to obtain c where found: "find (\<lambda>c. s_contact_id r = Some (ct_id c) \<and> ct_owner_id c = s_owner_id r) (contacts s) = Some c"
    and c: "ct_email c = address" "ct_status c = ''subscribed''" "\<not> suppressed s user (s_email_hash r)"
    by (auto simp: recipient_row_def split: option.splits)
  have "c \<in> set (contacts s)" "s_contact_id r = Some (ct_id c)" "ct_owner_id c = user"
    using found r(2) by (auto simp: find_Some_iff)
  moreover have "rp_send_id rp = s_id r" "rp_address rp = address"
    by (simp_all add: rp contact recipient_def recipient_row_def split: option.split)
  ultimately show ?thesis using r c by (intro bexI [of _ r] bexI [of _ c]) simp_all
qed

theorem suppressed_contact_is_not_mailed_witness:
  "\<exists>rp. let s = (sample_campaign [sample_send 1 DS_Queued (Some 7), sample_send 2 DS_Queued (Some 7)])
          \<lparr>contacts := [sample_contact 101 1, (sample_contact 102 2)\<lparr>ct_status := ''unsubscribed''\<rparr>]\<rparr>;
        rows = map send_view (direct_sends s)
    in map rp_send_id (snd (split_rows (\<lambda>_. []) s 1 rows)) = [1] \<and> rp \<in> set (snd (split_rows (\<lambda>_. []) s 1 rows))
       \<and> (\<exists>r \<in> set (direct_sends s). rp_send_id rp = s_id r \<and> \<not> suppressed s 1 (s_email_hash r))"
proof -
  let ?s = "(sample_campaign [sample_send 1 DS_Queued (Some 7), sample_send 2 DS_Queued (Some 7)])
          \<lparr>contacts := [sample_contact 101 1, (sample_contact 102 2)\<lparr>ct_status := ''unsubscribed''\<rparr>]\<rparr>"
  let ?to_send = "snd (split_rows (\<lambda>_. []) ?s 1 (map send_view (direct_sends ?s)))"
  have ids: "map rp_send_id ?to_send = [1]" by code_simp
  then obtain rp where rp: "rp \<in> set ?to_send" by (cases ?to_send) auto
  from suppressed_contact_is_not_mailed [OF rp] ids rp show ?thesis by (auto simp: Let_def)
qed

lemma cover_step:
  "insert x (A \<union> B) \<subseteq> A' \<union> B' \<Longrightarrow> D \<union> A' \<union> B' \<subseteq> R \<Longrightarrow> insert x D \<union> A \<union> B \<subseteq> R"
  by blast

lemma split_fold_covers:
  assumes "foldl (split_one render found) (fates0, to0) rows = (fates, to_send)"
    and "\<And>k contact. found k = Some contact \<Longrightarrow> rr_id contact = k"
  shows "dr_id ` set rows \<union> dom (map_of fates0) \<union> rp_send_id ` set to0
    \<subseteq> dom (map_of fates) \<union> rp_send_id ` set to_send"
  using assms(1)
proof (induction rows arbitrary: fates0 to0)
  case (Cons row rows)
  obtain f t where step: "split_one render found (fates0, to0) row = (f, t)" by (metis surj_pair)
  have "insert (dr_id row) (dom (map_of fates0) \<union> rp_send_id ` set to0) \<subseteq> dom (map_of f) \<union> rp_send_id ` set t"
    using step assms(2) [of "dr_id row"]
    by (auto simp: split_one_def recipient_def update_conv' split: option.splits if_splits)
  moreover have "foldl (split_one render found) (f, t) rows = (fates, to_send)" using Cons.prems step by simp
  ultimately show ?case
    unfolding list.set image_insert by (rule cover_step [OF _ Cons.IH])
qed simp

lemma answered_fold_keys:
  "dom (map_of (fst (foldl (\<lambda>(fates, left) r.
       (AList.update (rp_send_id r)
          (case left (rp_send_id r) of Some outcome \<Rightarrow> fate outcome | None \<Rightarrow> F_Soft ''no_result'') fates,
        left(rp_send_id r := None))) (fates, left) to_send)))
   = dom (map_of fates) \<union> rp_send_id ` set to_send"
  by (induction to_send arbitrary: fates left) (auto simp: update_conv')

lemma failed_keys:
  "dom (map_of (failed_fates fates to_send e)) = dom (map_of fates) \<union> rp_send_id ` set to_send"
  unfolding failed_fates_def by (induction to_send arbitrary: fates) (auto simp: update_conv')

lemma batch_keys:
  assumes "split_rows render s user rows = (fates, to_send)" and "row \<in> set rows"
  shows "map_of (answered_fates fates to_send results) (dr_id row) \<noteq> None"
    and "map_of (failed_fates fates to_send e) (dr_id row) \<noteq> None"
proof -
  let ?found = "map_of (rev (map (\<lambda>r. (rr_id r, r)) (recipients s user (map dr_id rows))))"
  have keys: "?found k = Some contact \<Longrightarrow> rr_id contact = k" for k contact
    using map_of_SomeD [of _ k contact] by fastforce
  from assms(1) have "foldl (split_one render ?found) ([], []) rows = (fates, to_send)"
    by (simp add: split_rows_def)
  from split_fold_covers [OF this keys] assms(2)
  have covered: "dr_id row \<in> dom (map_of fates) \<union> rp_send_id ` set to_send" by blast
  have "dr_id row \<in> dom (map_of (answered_fates fates to_send results))"
    and "dr_id row \<in> dom (map_of (failed_fates fates to_send e))"
    unfolding answered_fates_def answered_fold_keys failed_keys by (rule covered)+
  then show "map_of (answered_fates fates to_send results) (dr_id row) \<noteq> None"
    and "map_of (failed_fates fates to_send e) (dr_id row) \<noteq> None" by auto
qed

section \<open>Codes\<close>

text \<open>What may be stored as an error code: a short word over a fixed alphabet, which has no \<^verbatim>\<open>@\<close>.\<close>

definition proper_code :: "string \<Rightarrow> bool" where
  "proper_code code \<longleftrightarrow> code \<noteq> [] \<and> length code \<le> 64
     \<and> set code \<subseteq> set ''abcdefghijklmnopqrstuvwxyz0123456789_''"

lemma code_char_iff: "code_char c \<longleftrightarrow> c \<in> set ''abcdefghijklmnopqrstuvwxyz0123456789_''"
proof -
  have "c \<in> set ''abcdefghijklmnopqrstuvwxyz0123456789_''
      \<longleftrightarrow> (of_char c :: nat) \<in> of_char ` set ''abcdefghijklmnopqrstuvwxyz0123456789_''"
    by (rule inj_image_mem_iff [OF inj_of_char, symmetric])
  also have "\<dots> \<longleftrightarrow> code_char c"
    by (simp add: code_char_def Let_def) presburger
  finally show ?thesis by (rule sym)
qed

lemma stored_code_iff: "stored_code reason fallback = (if proper_code reason then reason else fallback)"
proof -
  have "list_all code_char reason \<longleftrightarrow> set reason \<subseteq> set ''abcdefghijklmnopqrstuvwxyz0123456789_''"
    unfolding list_all_iff code_char_iff by blast
  then show ?thesis by (simp add: stored_code_def proper_code_def MAX_REASON_LEN_def del: list.set)
qed

fun coded_result :: "DirectResult \<Rightarrow> bool" where
  "coded_result (DR_Failed code) = proper_code code"
| "coded_result (DR_Bounced code) = proper_code code"
| "coded_result _ = True"

fun coded :: "Fate \<Rightarrow> bool" where
  "coded (F_Record result) = coded_result result"
| "coded (F_Unsent result) = coded_result result"
| "coded (F_Soft code) = proper_code code"

lemma proper_codes:
  "proper_code ''bounced''" "proper_code ''soft_bounce''" "proper_code ''send_failed''" "proper_code ''rejected''"
  "proper_code ''contact_missing''" "proper_code ''no_result''"
  by (simp_all add: proper_code_def)

lemma proper_error_code: "proper_code (error_code e)"
  by (cases e) (simp_all add: proper_code_def)

lemma coded_fate: "coded (fate outcome)"
  by (cases outcome) (auto simp: fate_def stored_code_iff proper_codes)

definition coded_fates :: "fates \<Rightarrow> bool" where
  "coded_fates fates \<longleftrightarrow> (\<forall>x \<in> set fates. coded (snd x))"

lemma coded_update: "coded_fates fates \<Longrightarrow> coded f \<Longrightarrow> coded_fates (AList.update k f fates)"
  by (induction fates) (auto simp: coded_fates_def)

lemma coded_delete: "coded_fates fates \<Longrightarrow> coded_fates (AList.delete k fates)"
  by (auto simp: coded_fates_def AList.delete_eq)

lemma coded_split_fold:
  "coded_fates (fst acc) \<Longrightarrow> coded_fates (fst (foldl (split_one render found) acc rows))"
proof (induction rows arbitrary: acc)
  case (Cons row rows)
  have "coded_fates (fst (split_one render found acc row))"
    using Cons.prems by (cases acc) (auto simp: split_one_def proper_codes split: option.split intro!: coded_update)
  then show ?case using Cons.IH by simp
qed simp

lemma coded_split:
  assumes "split_rows render s user rows = (fates, to_send)"
  shows "coded_fates fates"
proof -
  have "coded_fates (fst (split_rows render s user rows))"
    unfolding split_rows_def Let_def by (rule coded_split_fold) (simp add: coded_fates_def)
  with assms show ?thesis by simp
qed

lemma coded_answered:
  assumes "coded_fates fates"
  shows "coded_fates (answered_fates fates to_send results)"
proof -
  have "coded_fates (fst (foldl (\<lambda>(fates, left) r.
       (AList.update (rp_send_id r)
          (case left (rp_send_id r) of Some outcome \<Rightarrow> fate outcome | None \<Rightarrow> F_Soft ''no_result'') fates,
        left(rp_send_id r := None))) (fates, left) to_send))" for left
    using assms
    by (induction to_send arbitrary: fates left)
      (simp_all add: proper_codes coded_fate coded_update split: option.split)
  then show ?thesis unfolding answered_fates_def .
qed

lemma coded_failed: "coded_fates fates \<Longrightarrow> coded_fates (failed_fates fates to_send e)"
  unfolding failed_fates_def
  by (induction to_send arbitrary: fates) (simp_all add: proper_error_code coded_update)

section \<open>The rows of a batch\<close>

text \<open>
  A row the batch still holds, and what a batch may make of a row: nothing; a result, with no code or
  a proper one; or, for a row that waits, a return to the queue, which counts \<open>n\<close> tries.
\<close>

definition holds :: "uuid \<Rightarrow> send_row \<Rightarrow> bool" where
  "holds batch r \<longleftrightarrow> s_batch r = Some batch \<and> s_state r = DS_Queued \<and> s_lease_expires_at r \<noteq> None"

definition settled_row :: "int \<Rightarrow> uuid \<Rightarrow> send_row \<Rightarrow> send_row \<Rightarrow> bool" where
  "settled_row n batch r q \<longleftrightarrow> q = r
     \<or> s_id q = s_id r \<and> s_delivery_id q = s_delivery_id r \<and> s_batch r = Some batch
       \<and> (s_state q \<noteq> DS_Queued \<and> s_tries q = s_tries r
            \<and> (\<forall>code. s_error_code q = Some code \<longrightarrow> proper_code code)
          \<or> s_state r = DS_Queued \<and> s_state q = DS_Queued \<and> s_batch q = None \<and> s_lease_expires_at q = None
            \<and> s_tries q = s_tries r + n \<and> s_error_code q = s_error_code r)"

abbreviation settled_rows :: "int \<Rightarrow> uuid \<Rightarrow> db \<Rightarrow> db \<Rightarrow> bool" where
  "settled_rows n batch s t \<equiv> list_all2 (settled_row n batch) (direct_sends s) (direct_sends t)"

abbreviation let_go :: "uuid \<Rightarrow> uuid \<Rightarrow> db \<Rightarrow> bool" where
  "let_go batch sid s \<equiv> \<forall>r \<in> set (direct_sends s). s_id r = sid \<longrightarrow> \<not> holds batch r"

lemma settled_row_trans: "settled_row n b r q \<Longrightarrow> settled_row n b q p \<Longrightarrow> settled_row n b r p"
  unfolding settled_row_def by (elim disjE conjE) simp_all

lemma settled_rows_refl [simp]: "settled_rows n b s s"
  by (rule list_all2_refl) (simp add: settled_row_def)

lemma settled_rows_trans: "settled_rows n b s t \<Longrightarrow> settled_rows n b t u \<Longrightarrow> settled_rows n b s u"
  by (rule list_all2_trans [OF settled_row_trans])

lemma settled_holds: "settled_row n b r q \<Longrightarrow> holds b q \<Longrightarrow> q = r"
  by (auto simp: settled_row_def holds_def)

lemma settled_let_go: "settled_rows n b s t \<Longrightarrow> let_go b sid s \<Longrightarrow> let_go b sid t"
  by (fastforce simp: list_all2_conv_all_nth in_set_conv_nth dest: settled_holds)

lemma settled_update:
  assumes "direct_sends t = sql_update p f (direct_sends s)" and "\<And>r. p r \<Longrightarrow> settled_row n b r (f r)"
  shows "settled_rows n b s t"
  using assms by (auto simp: sql_update_def list_all2_conv_all_nth settled_row_def)

lemma update_let_go:
  assumes rows: "direct_sends t = sql_update p f (direct_sends s)"
    and "\<And>r. s_id r = sid \<Longrightarrow> holds b r \<Longrightarrow> p r" and "\<And>r. \<not> holds b (f r)" and "\<And>r. s_id (f r) = s_id r"
  shows "let_go b sid t"
proof (intro ballI impI)
  fix q assume "q \<in> set (direct_sends t)" and "s_id q = sid"
  from this(1) obtain r where "q = (if p r then f r else r)"
    unfolding rows sql_update_def set_map by (elim imageE)
  with \<open>s_id q = sid\<close> assms(2-4) show "\<not> holds b q" by (cases "p r") auto
qed

lemma record_send_all:
  assumes "record_send s sid b result now = Inr (done1, t)"
  shows "direct_sends t = sql_update (recordable sid b) (record_row result now) (direct_sends s)"
  using assms
proof (cases rule: record_send_cases)
  case gone
  then show ?thesis by (auto simp: sql_update_def find_None_iff intro!: map_idI [symmetric])
next
  case landed
  then show ?thesis using assms record_send_rows by blast
qed

lemma record_send_settles:
  assumes "record_send s sid b result now = Inr (done1, t)" and "coded_result result"
  shows "settled_rows n b s t" and "let_go b sid t"
proof -
  note rows = record_send_all [OF assms(1)]
  show "settled_rows n b s t"
    using rows
  proof (rule settled_update)
    fix r assume "recordable sid b r"
    then show "settled_row n b r (record_row result now r)"
      using assms(2) by (cases result) (auto simp: settled_row_def recordable_def record_row_def)
  qed
  show "let_go b sid t"
    using rows by (rule update_let_go) (simp_all add: holds_def recordable_def)
qed

lemma requeue_settles:
  assumes "requeue s sid b now = Inr (done1, t)"
  shows "settled_rows 1 b s t" and "let_go b sid t"
proof -
  have rows: "direct_sends t = sql_update (\<lambda>r. s_id r = sid \<and> s_batch r = Some b \<and> s_state r = DS_Queued
                   \<and> s_lease_expires_at r \<noteq> None)
               (\<lambda>r. r\<lparr>s_batch := None, s_lease_expires_at := None, s_tries := s_tries r + 1,
                      s_updated_at := now\<rparr>) (direct_sends s)"
    using assms by (auto simp: requeue_def Let_def split: if_splits)
  show "settled_rows 1 b s t" using rows by (rule settled_update) (simp add: settled_row_def)
  show "let_go b sid t" using rows by (rule update_let_go) (simp_all add: holds_def)
qed

lemma record_one_settles:
  assumes "record_one b now ((fates, tally), s) row = Inr ((fates', tally'), t)" and "coded_fates fates"
  shows "settled_rows 1 b s t" and "coded_fates fates'"
    and "map_of fates (dr_id row) \<noteq> None \<Longrightarrow> let_go b (dr_id row) t"
    and "k \<noteq> dr_id row \<Longrightarrow> map_of fates' k = map_of fates k"
proof -
  have all: "settled_rows 1 b s t \<and> coded_fates fates'
      \<and> (map_of fates (dr_id row) \<noteq> None \<longrightarrow> let_go b (dr_id row) t)
      \<and> (k \<noteq> dr_id row \<longrightarrow> map_of fates' k = map_of fates k)"
  proof (cases "map_of fates (dr_id row)")
    case None
    then show ?thesis using assms by (auto simp: record_one_def)
  next
    case (Some given)
    have given: "coded given" using map_of_SomeD [OF Some] assms(2) by (force simp: coded_fates_def)
    have kept: "k \<noteq> dr_id row \<longrightarrow> map_of (AList.delete (dr_id row) fates) k = map_of fates k"
      by (simp add: delete_conv')
    have rec: "settled_rows 1 b u t \<and> let_go b (dr_id row) t"
      if "record_result_row b now (dr_id row) result p tally u = Inr (x, t)" "coded_result result" for u result p x
      using that record_send_settles by (fastforce simp: record_result_row_def result_simps)
    show ?thesis
    proof (cases given)
      case (F_Soft code)
      have soft: "coded_result (DR_Failed code)" using given F_Soft by simp
      have again: "settled_rows 1 b s t"
        if "requeue s (dr_id row) b now = Inr (x, u)" "record_result_row b now (dr_id row) (DR_Failed code) p tally u = Inr (y, t)"
        for x u p y
        using requeue_settles(1) [OF that(1)] rec [OF that(2) soft] by (blast intro: settled_rows_trans)
      show ?thesis
        using assms Some F_Soft rec [OF _ soft] again requeue_settles kept coded_delete
        by (auto simp: record_one_def Let_def result_simps split: if_splits)
    qed (use assms Some given rec kept coded_delete in \<open>auto simp: record_one_def Let_def result_simps\<close>)
  qed
  then show "settled_rows 1 b s t" and "coded_fates fates'"
    and "map_of fates (dr_id row) \<noteq> None \<Longrightarrow> let_go b (dr_id row) t"
    and "k \<noteq> dr_id row \<Longrightarrow> map_of fates' k = map_of fates k" by blast+
qed

lemma record_rows_settles:
  assumes "foldE (record_one b now) ((fates, tally), s) rows = Inr (acc, t)" and "coded_fates fates"
    and "\<And>row. row \<in> set rows \<Longrightarrow> map_of fates (dr_id row) \<noteq> None \<or> let_go b (dr_id row) s"
  shows "settled_rows 1 b s t \<and> (\<forall>row \<in> set rows. let_go b (dr_id row) t)"
  using assms
proof (induction rows arbitrary: fates tally s)
  case (Cons row rows)
  from Cons.prems(1) obtain fates' tally' u where
    step: "record_one b now ((fates, tally), s) row = Inr ((fates', tally'), u)"
    and rest: "foldE (record_one b now) ((fates', tally'), u) rows = Inr (acc, t)"
    by (auto simp: bindE_Inr_iff)
  note one = record_one_settles [OF step Cons.prems(2)]
  have here: "let_go b (dr_id row) u"
    using Cons.prems(3) [of row] one(3) settled_let_go [OF one(1)] by auto
  have "map_of fates' (dr_id r) \<noteq> None \<or> let_go b (dr_id r) u" if "r \<in> set rows" for r
    using Cons.prems(3) [of r] that one(4) [of "dr_id r"] here settled_let_go [OF one(1)] by auto
  note later = Cons.IH [OF rest one(2) this]
  have "settled_rows 1 b s t" using one(1) later by (blast intro: settled_rows_trans)
  moreover have "let_go b (dr_id row) t" using here later by (blast dest: settled_let_go)
  ultimately show ?case using later by simp
qed simp

text \<open>The three ends of a batch: recorded, failed as a whole, refused for the credentials.\<close>

lemma finish_or_continue_sends:
  assumes "finish_or_continue w claimed next_at now = Inr w'"
  shows "direct_sends (w_db w') = direct_sends (w_db w)"
proof -
  from assms obtain r t where run: "finish_if_done (w_db w) (fence claimed S_Processing) now = Inr (r, t)"
    and rest: "(case r of
        Some (Done st _ job) \<Rightarrow> tell (w\<lparr>w_db := t\<rparr>) claimed (Some N_DeliveryPublished) st job
      | Some Stale \<Rightarrow> Inr (w\<lparr>w_db := t\<rparr>)
      | None \<Rightarrow> (case next_at of Some at \<Rightarrow> Inr (enqueue_batch (w\<lparr>w_db := t\<rparr>) claimed at)
                  | None \<Rightarrow> Inr (w\<lparr>w_db := t\<rparr>))) = (Inr w' :: JobError + world)"
    by (auto simp: finish_or_continue_def Let_def result_simps)
  have "same_core (w\<lparr>w_db := t\<rparr>) w'"
  proof (cases r)
    case None
    then show ?thesis using rest by (auto simp: enqueue_batch_def split: option.splits)
  next
    case (Some applied)
    then show ?thesis using rest by (cases applied) (auto dest: tell_core)
  qed
  moreover have "direct_sends t = direct_sends (w_db w)"
    using run
  proof (cases rule: finish_if_done_cases)
    case (finished counts applied)
    have "apply_target (w_db w) f S_Published = S_Published" for f by (simp add: apply_target_def)
    then show ?thesis
      using finished(4)
      by (auto simp: apply_event_def transition_def fence_def apply_write_def stop_direct_def stops_rows_def Let_def
          result_simps split: option.split_asm if_split_asm dest!: touch_job_tables(2))
  qed simp
  ultimately show ?thesis by (simp add: same_core_def)
qed

lemma record_after_settles:
  assumes run: "record_after cal pick bk w claimed cap b rows retain fates unsent retry_at = Inr w'"
    and coded: "coded_fates fates" and all: "\<And>row. row \<in> set rows \<Longrightarrow> map_of fates (dr_id row) \<noteq> None"
  shows "settled_rows 1 b (w_db w) (w_db w') \<and> (\<forall>row \<in> set rows. let_go b (dr_id row) (w_db w'))"
proof -
  from run obtain acc tally t next_at where
    loop: "foldE (record_one b (bk_record bk)) ((fates, tally_start), w_db w) rows = Inr ((acc, tally), t)"
    and finish: "finish_or_continue (w\<lparr>w_db := if cap_limit cap \<noteq> 0 \<and> unsent > 0
        then quota_release t (cap_key cap) unsent else t\<rparr>) claimed next_at (bk_finish bk) = Inr w'"
    by (auto simp: record_after_def Let_def result_simps)
  have "direct_sends (w_db w') = direct_sends t"
    using finish_or_continue_sends [OF finish] by simp
  then show ?thesis using record_rows_settles [OF loop coded] all by simp
qed

lemma record_unsent_settles:
  assumes "foldE (record_unsent b now) s entries = Inr t" and "coded_fates entries"
  shows "settled_rows n b s t"
  using assms
proof (induction entries arbitrary: s)
  case (Cons x entries)
  from Cons.prems(1) obtain u where step: "record_unsent b now s x = Inr u"
    and rest: "foldE (record_unsent b now) u entries = Inr t"
    by (auto simp: bindE_Inr_iff)
  have "settled_rows n b s u"
    using step Cons.prems(2)
    by (auto simp: record_unsent_def coded_fates_def result_simps split: Fate.splits intro: record_send_settles)
  moreover have "settled_rows n b u t" using Cons.IH [OF rest] Cons.prems(2) by (simp add: coded_fates_def)
  ultimately show ?case by (rule settled_rows_trans)
qed simp

lemma refuse_settles:
  assumes run: "refuse order bk w claimed bound cap b n fates = Inr w'" and coded: "coded_fates (order fates)"
  shows "settled_rows 0 b (w_db w) (w_db w')
    \<and> (\<forall>r \<in> set (direct_sends (w_db w')). s_delivery_id r = c_id claimed \<longrightarrow> \<not> holds b r)"
proof -
  from run obtain t where loop: "foldE (record_unsent b (bk_record bk)) (w_db w) (order fates) = Inr t"
    and w': "direct_sends (w_db w') = direct_sends (snd (release_batch t (bk_db bk) (c_id claimed) b))"
    by (auto simp: refuse_def Let_def result_simps mark_grant_def split: if_splits)
  let ?p = "\<lambda>r. s_delivery_id r = c_id claimed \<and> s_batch r = Some b \<and> s_state r = DS_Queued"
  let ?f = "\<lambda>r. r\<lparr>s_batch := None, s_lease_expires_at := None, s_updated_at := bk_db bk\<rparr>"
  have rows: "direct_sends (w_db w') = sql_update ?p ?f (direct_sends t)"
    unfolding w' by (simp add: release_batch_def Let_def)
  have "settled_rows 0 b t (w_db w')" using rows by (rule settled_update) (simp add: settled_row_def)
  with record_unsent_settles [OF loop coded] have "settled_rows 0 b (w_db w) (w_db w')"
    by (rule settled_rows_trans)
  moreover have "\<not> holds b q" if "q \<in> set (direct_sends (w_db w'))" "s_delivery_id q = c_id claimed" for q
  proof -
    from that(1) obtain r where "q = (if ?p r then ?f r else r)"
      unfolding rows sql_update_def set_map by (elim imageE)
    with that(2) show ?thesis by (cases "?p r") (auto simp: holds_def)
  qed
  ultimately show ?thesis by blast
qed

definition refused :: "AgentError + 'a \<Rightarrow> bool" where
  "refused answer \<longleftrightarrow> (\<exists>m. answer = Inl (Authentication m)) \<or> (\<exists>m. answer = Inl (InvalidCredentials m))"

lemma send_batch_settles:
  assumes run: "send_batch cal pick render send order meanwhile bk claimed bound cap b rows retain w = (None, w')"
    and order: "\<And>fates. set (order fates) = set fates"
    and to_send: "to_send = snd (split_rows render (w_db w) (c_owner_id claimed) rows)"
  shows "settled_rows (if to_send \<noteq> [] \<and> refused (send to_send) then 0 else 1) b (w_db (meanwhile w)) (w_db w')"
    and "r \<in> set (direct_sends (w_db w')) \<Longrightarrow> s_delivery_id r = c_id claimed \<Longrightarrow> s_id r \<in> dr_id ` set rows
      \<Longrightarrow> \<not> holds b r"
proof -
  obtain fates where split: "split_rows render (w_db w) (c_owner_id claimed) rows = (fates, to_send)"
    using to_send by (metis prod.collapse)
  have fates: "coded_fates fates" by (rule coded_split [OF split])
  then have "coded_fates (order fates)" using order by (simp add: coded_fates_def)
  note refusal = refuse_settles [where order = order and fates = fates, OF _ this]
  note keys = batch_keys [OF split]
  define called where "called = (if to_send = [] then Inr [] else send to_send)"
  have ref: "to_send \<noteq> [] \<and> refused (send to_send) \<longleftrightarrow> refused called"
    by (auto simp: called_def refused_def)
  from run have end1: "commit (meanwhile w)
      (case called of
         Inr results \<Rightarrow> record_after cal pick bk (meanwhile w) claimed cap b rows retain
           (answered_fates fates to_send results) (int (length fates)) None
       | Inl (Authentication _) \<Rightarrow> refuse order bk (meanwhile w) claimed bound cap b (length rows) fates
       | Inl (InvalidCredentials _) \<Rightarrow> refuse order bk (meanwhile w) claimed bound cap b (length rows) fates
       | Inl e \<Rightarrow> record_after cal pick bk (meanwhile w) claimed cap b rows retain
           (failed_fates fates to_send e) (int (length rows)) (retry_after_at cal e (bk_answer bk))) = (None, w')"
    by (simp add: send_batch_def split called_def Let_def)
  have all: "settled_rows (if refused called then 0 else 1) b (w_db (meanwhile w)) (w_db w')
      \<and> (\<forall>r \<in> set (direct_sends (w_db w')). s_delivery_id r = c_id claimed \<and> s_id r \<in> dr_id ` set rows \<longrightarrow> \<not> holds b r)"
  proof (cases "refused called")
    case True
    then have "refuse order bk (meanwhile w) claimed bound cap b (length rows) fates = Inr w'"
      using end1 by (auto simp: refused_def commit_def split: sum.split_asm)
    from refusal [OF this] True show ?thesis by simp
  next
    case False
    then obtain fs n at where "record_after cal pick bk (meanwhile w) claimed cap b rows retain fs n at = Inr w'"
      and "coded_fates fs" and "\<And>row. row \<in> set rows \<Longrightarrow> map_of fs (dr_id row) \<noteq> None"
      using end1 keys coded_answered [OF fates] coded_failed [OF fates]
      by (cases called) (auto simp: refused_def commit_def split: sum.split_asm AgentError.split_asm)
    from record_after_settles [OF this] False show ?thesis by auto
  qed
  then show "settled_rows (if to_send \<noteq> [] \<and> refused (send to_send) then 0 else 1) b (w_db (meanwhile w)) (w_db w')"
    unfolding ref by blast
  from all show "r \<in> set (direct_sends (w_db w')) \<Longrightarrow> s_delivery_id r = c_id claimed
      \<Longrightarrow> s_id r \<in> dr_id ` set rows \<Longrightarrow> \<not> holds b r" by blast
qed

end
