(* ===== verification/Sweeper.thy ===== *)
theory Sweeper
  imports World
begin

text \<open>
  The \<^verbatim>\<open>delivery_due_sweep\<close> handler: the model of \<^verbatim>\<open>backend/crates/publishing/src/sweep.rs\<close>. Each
  duty is one transaction, rolled back as a whole when a step of it fails; the sweep then goes on
  with the next duty. \<open>held\<close> says per duty which rows other transactions hold, and
  \<open>meanwhile i\<close> is what they commit before the \<open>i\<close>-th duty.
\<close>

section \<open>Reports and duties\<close>

definition SWEEP_LIMIT :: int where
  "SWEEP_LIMIT = 500"

record SweepReport =
  sr_requeued :: nat
  sr_reclaimed :: nat
  sr_unknown :: nat
  sr_orphaned_direct :: nat
  sr_unparked :: nat
  sr_stale :: nat
  sr_restarted :: nat

definition report_default :: SweepReport where
  "report_default = \<lparr>sr_requeued = 0, sr_reclaimed = 0, sr_unknown = 0, sr_orphaned_direct = 0,
     sr_unparked = 0, sr_stale = 0, sr_restarted = 0\<rparr>"

record Graces =
  gr_sweep :: int
  gr_park :: int

datatype Duty =
    D_OverduePending
  | D_ExpiredClaims
  | D_ExpiredInFlight
  | D_OrphanedDirect
  | D_Unpark
  | D_StalledChecks

definition duties_all :: "Duty list" where
  "duties_all = [D_OverduePending, D_ExpiredClaims, D_ExpiredInFlight, D_OrphanedDirect, D_Unpark, D_StalledChecks]"

definition duty_name :: "Duty \<Rightarrow> string" where
  "duty_name d =
     (case d of
        D_OverduePending \<Rightarrow> ''overdue_pending''
      | D_ExpiredClaims \<Rightarrow> ''expired_claims''
      | D_ExpiredInFlight \<Rightarrow> ''expired_in_flight''
      | D_OrphanedDirect \<Rightarrow> ''orphaned_direct''
      | D_Unpark \<Rightarrow> ''unpark''
      | D_StalledChecks \<Rightarrow> ''stalled_checks'')"

text \<open>A setting in nanoseconds as a \<^verbatim>\<open>TimeDelta\<close> of at most 36500 days.\<close>

definition grace :: "duration \<Rightarrow> JobError + int" where
  "grace d = (if d \<le> time_delta_max \<and> int d \<le> 36500 * 86400 * 10 ^ 9 then Inr (int d) else Inl JE_Fatal)"

section \<open>Steps of the duties\<close>

definition put_dispatches :: "(Dispatch \<Rightarrow> EngineJob) \<Rightarrow> world \<Rightarrow> Dispatch list \<Rightarrow> world" where
  "put_dispatches job_of w ds = foldl (\<lambda>w d. enqueue w (job_of d) (dp_run_at d)) w ds"

definition sweep_tell :: "world \<Rightarrow> Swept \<Rightarrow> NotificationKind option \<Rightarrow> JobError + world" where
  "sweep_tell w swept notice =
     (if notice = None \<and> \<not> became_partial (sw_job swept) then Inr w
      else
        (case check_target (w_db w) (sw_delivery swept) of
           None \<Rightarrow> Inr w
         | Some target \<Rightarrow> tell w (ct_delivery target) notice (sw_state swept) (sw_job swept)))"

definition redispatch_one :: "nat \<times> world \<Rightarrow> Swept \<Rightarrow> JobError + nat \<times> world" where
  "redispatch_one acc one =
     (case acc of (n, w) \<Rightarrow>
        let (n, w) = (if sw_state one = S_Pending
              then (n + 1, enqueue w (publish_job_of (swept_dispatch one)) (sw_run_at one))
              else (n, w))
        in bindE (sweep_tell w one None) (\<lambda>w. Inr (n, w)))"

definition redispatch :: "world \<Rightarrow> Swept list \<Rightarrow> JobError + nat \<times> world" where
  "redispatch w swept = foldE redispatch_one (0, w) swept"

definition unknown_one :: "nat \<times> world \<Rightarrow> Swept \<Rightarrow> JobError + nat \<times> world" where
  "unknown_one acc one =
     (case acc of (n, w) \<Rightarrow>
        let (n, w) = (if sw_state one = S_OutcomeUnknown
              then (n + 1, enqueue w (first_reconcile_of (swept_dispatch one)) (sw_run_at one))
              else (n, w))
        in bindE (sweep_tell w one (Some N_DeliveryOutcomeUnknown)) (\<lambda>w. Inr (n, w)))"

definition duty_expired_in_flight ::
  "world \<Rightarrow> (uuid \<Rightarrow> bool) \<Rightarrow> timestamp \<Rightarrow> JobError + nat \<times> world" where
  "duty_expired_in_flight w held now =
     bindE (map_err data_error (expired_in_flight (w_db w) held now SWEEP_LIMIT)) (\<lambda>(swept, t).
       foldE unknown_one (0, w\<lparr>w_db := t\<rparr>) swept)"

definition stale :: "world \<Rightarrow> uuid \<Rightarrow> JobError + world" where
  "stale w did =
     (case check_target (w_db w) did of
        None \<Rightarrow> Inr w
      | Some target \<Rightarrow>
          if c_dry_run (ct_delivery target) then Inr w
          else record_notice w (subject_of (ct_delivery target))
                 (case ct_state target of S_Parked reason \<Rightarrow> Some reason | _ \<Rightarrow> None) N_DeliveryStale)"

definition duty_unpark ::
  "string list \<Rightarrow> world \<Rightarrow> (uuid \<Rightarrow> bool) \<Rightarrow> timestamp \<Rightarrow> int \<Rightarrow> JobError + (nat \<times> nat) \<times> world" where
  "duty_unpark compiled w held now park_grace =
     bindE (map_err data_error (unpark (w_db w) held
              \<lparr>ui_now = now, ui_park_grace = park_grace, ui_compiled_platforms = compiled, ui_limit = SWEEP_LIMIT\<rparr>))
       (\<lambda>(unparked, t).
         bindE (redispatch (w\<lparr>w_db := t\<rparr>) (ur_resumed unparked)) (\<lambda>(resumed, w).
         bindE (foldE (\<lambda>w (_, did). stale w did) w (ur_needs_owner unparked)) (\<lambda>w.
           Inr ((resumed, length (ur_needs_owner unparked)), w))))"

definition restart :: "timestamp \<Rightarrow> world \<Rightarrow> StalledCheck \<Rightarrow> world" where
  "restart now w check =
     (case sc_state check of
        S_Processing \<Rightarrow> enqueue w (PollDeliveryStatus (sc_delivery check) (sc_dispatch_gen check) (sc_seq check)) now
      | S_OutcomeUnknown \<Rightarrow> enqueue w (ReconcileDelivery (sc_delivery check) (sc_dispatch_gen check) (sc_seq check)) now
      | _ \<Rightarrow> w)"

section \<open>The sweep\<close>

definition duty_run ::
  "string list \<Rightarrow> (uuid \<Rightarrow> bool) \<Rightarrow> timestamp \<Rightarrow> Graces \<Rightarrow> Duty \<Rightarrow> SweepReport \<Rightarrow> world
   \<Rightarrow> JobError + SweepReport \<times> world" where
  "duty_run compiled held now graces duty report w =
     (case duty of
        D_OverduePending \<Rightarrow>
          bindE (map_err data_error (overdue_pending (w_db w) held now (gr_sweep graces) SWEEP_LIMIT)) (\<lambda>(overdue, t).
            Inr (report\<lparr>sr_requeued := length overdue\<rparr>, put_dispatches publish_job_of (w\<lparr>w_db := t\<rparr>) overdue))
      | D_ExpiredClaims \<Rightarrow>
          bindE (map_err data_error (expired_claims (w_db w) held now SWEEP_LIMIT)) (\<lambda>(claims, t).
          bindE (redispatch (w\<lparr>w_db := t\<rparr>) claims) (\<lambda>(reclaimed, w).
            Inr (report\<lparr>sr_reclaimed := reclaimed\<rparr>, w)))
      | D_ExpiredInFlight \<Rightarrow>
          bindE (duty_expired_in_flight w held now) (\<lambda>(unknown, w). Inr (report\<lparr>sr_unknown := unknown\<rparr>, w))
      | D_OrphanedDirect \<Rightarrow>
          bindE (map_err data_error (orphaned_direct (w_db w) held now (gr_sweep graces) SWEEP_LIMIT)) (\<lambda>(orphans, t).
            Inr (report\<lparr>sr_orphaned_direct := length orphans\<rparr>, put_dispatches batch_job_of (w\<lparr>w_db := t\<rparr>) orphans))
      | D_Unpark \<Rightarrow>
          bindE (duty_unpark compiled w held now (gr_park graces)) (\<lambda>((resumed, stale), w).
            Inr (report\<lparr>sr_unparked := resumed, sr_stale := stale\<rparr>, w))
      | D_StalledChecks \<Rightarrow>
          bindE (map_err data_error (stalled_checks (w_db w) held now (gr_sweep graces) SWEEP_LIMIT)) (\<lambda>(stalled, t).
            Inr (report\<lparr>sr_restarted := length stalled\<rparr>, foldl (restart now) (w\<lparr>w_db := t\<rparr>) stalled)))"

type_synonym sweep_state = "(SweepReport \<times> string list) \<times> world"

definition sweep_duty ::
  "string list \<Rightarrow> (Duty \<Rightarrow> uuid \<Rightarrow> bool) \<Rightarrow> (Duty \<Rightarrow> world \<Rightarrow> world) \<Rightarrow> timestamp \<Rightarrow> Graces \<Rightarrow> sweep_state \<Rightarrow> Duty
   \<Rightarrow> sweep_state" where
  "sweep_duty compiled held meanwhile now graces st duty =
     (case st of ((report, failed), w) \<Rightarrow>
        let w = meanwhile duty w
        in case duty_run compiled (held duty) now graces duty report w of
             Inl e \<Rightarrow> ((report, failed @ [duty_name duty]), w)
           | Inr (report, w) \<Rightarrow> ((report, failed), w))"

text \<open>The names of the failed duties are what the error names.\<close>

definition run_sweep ::
  "PublishingSettings \<Rightarrow> string list \<Rightarrow> (Duty \<Rightarrow> uuid \<Rightarrow> bool) \<Rightarrow> (Duty \<Rightarrow> world \<Rightarrow> world) \<Rightarrow> timestamp \<Rightarrow> world
   \<Rightarrow> (JobError \<times> string list + SweepReport) \<times> world" where
  "run_sweep settings compiled held meanwhile now w =
     (case (grace (ps_sweep_grace settings), grace (ps_park_grace settings)) of
        (Inr sweep, Inr park) \<Rightarrow>
          let ((report, failed), w) =
                foldl (sweep_duty compiled held meanwhile now \<lparr>gr_sweep = sweep, gr_park = park\<rparr>)
                  ((report_default, []), w) duties_all
          in (if failed = [] then Inr report else Inl (JE_Retry, failed), w)
      | _ \<Rightarrow> (Inl (JE_Fatal, []), w))"

section \<open>What a duty hands over\<close>

lemma same_core_enqueue: "same_core (enqueue w job at) u \<Longrightarrow> same_core w u"
  by (rule same_core_trans [OF same_core_simps(1)])

lemma put_dispatches_core:
  "same_core w (put_dispatches job_of w ds)
   \<and> (\<lambda>d. (job_of d, dp_run_at d)) ` set ds \<subseteq> set (w_queue (put_dispatches job_of w ds))"
proof (induction ds arbitrary: w)
  case Nil
  then show ?case by (simp add: put_dispatches_def)
next
  case (Cons d ds)
  let ?w = "enqueue w (job_of d) (dp_run_at d)"
  have "put_dispatches job_of w (d # ds) = put_dispatches job_of ?w ds" by (simp add: put_dispatches_def)
  moreover have "(job_of d, dp_run_at d) \<in> set (w_queue ?w)" by (simp add: enqueue_def)
  ultimately show ?case using Cons [of ?w] by (auto intro: same_core_enqueue dest: same_core_queue)
qed

lemma sweep_tell_core: "sweep_tell w one notice = Inr w' \<Longrightarrow> same_core w w'"
  by (auto simp: sweep_tell_def split: if_splits option.splits dest: tell_core)

definition sent_back :: "Swept list \<Rightarrow> (EngineJob \<times> timestamp) set" where
  "sent_back ws = (\<lambda>s. (publish_job_of (swept_dispatch s), sw_run_at s)) ` {s \<in> set ws. sw_state s = S_Pending}"

lemma redispatch_one_cases:
  assumes "redispatch_one (m, w) one = Inr (k, u)"
  shows "same_core w u \<and> sent_back [one] \<subseteq> set (w_queue u)"
proof (cases "sw_state one = S_Pending")
  case True
  then have core: "same_core (enqueue w (publish_job_of (swept_dispatch one)) (sw_run_at one)) u"
    using assms by (auto simp: redispatch_one_def bindE_Inr_iff dest: sweep_tell_core)
  moreover have "(publish_job_of (swept_dispatch one), sw_run_at one) \<in> set (w_queue u)"
    using same_core_queue [OF core] by (auto simp: enqueue_def)
  ultimately show ?thesis by (auto simp: sent_back_def intro: same_core_enqueue)
next
  case False
  then show ?thesis
    using assms by (auto simp: redispatch_one_def sent_back_def bindE_Inr_iff dest: sweep_tell_core)
qed

lemma redispatch_core:
  assumes "redispatch w swept = Inr (n, w')"
  shows "same_core w w' \<and> sent_back swept \<subseteq> set (w_queue w')"
proof -
  have "same_core w w' \<and> sent_back swept \<subseteq> set (w_queue w')"
    if "foldE redispatch_one (m, w) swept = Inr (n, w')" for m
    using that
  proof (induction swept arbitrary: m w)
    case Nil
    then show ?case by (simp add: sent_back_def)
  next
    case (Cons one swept)
    from Cons.prems obtain k u where step: "redispatch_one (m, w) one = Inr (k, u)"
      and rest: "foldE redispatch_one (k, u) swept = Inr (n, w')"
      by (auto simp: bindE_Inr_iff)
    have "sent_back (one # swept) = sent_back [one] \<union> sent_back swept" by (auto simp: sent_back_def)
    then show ?case
      using redispatch_one_cases [OF step] Cons.IH [OF rest] by (auto intro: same_core_trans dest: same_core_queue)
  qed
  then show ?thesis using assms by (simp add: redispatch_def)
qed

lemma unknown_core:
  assumes "foldE unknown_one (m, w) swept = Inr (n, w')"
  shows "same_core w w'"
proof -
  have "(\<lambda>(k, u). same_core w u) (n, w')"
    using assms
  proof (rule foldE_invariant)
    fix acc one acc'
    assume "case acc of (k, u) \<Rightarrow> same_core w u" and "unknown_one acc one = Inr acc'"
    then show "case acc' of (k, u) \<Rightarrow> same_core w u"
      by (cases acc; cases acc') (auto simp: unknown_one_def Let_def bindE_Inr_iff split: if_splits
          dest!: sweep_tell_core intro: same_core_trans dest: same_core_enqueue)
  qed simp
  then show ?thesis by simp
qed

lemma stale_core: "foldE (\<lambda>w (_, did). stale w did) w ds = Inr w' \<Longrightarrow> same_core w w'"
  by (erule foldE_invariant [where I = "same_core w"])
    (auto simp: stale_def split: option.splits if_splits dest!: record_notice_core intro: same_core_trans)

lemma restart_core: "same_core w (foldl (restart now) w cs)"
proof (induction cs arbitrary: w)
  case (Cons c cs)
  have "same_core w (restart now w c)" by (auto simp: restart_def split: DeliveryState.split)
  then show ?case using Cons [of "restart now w c"] by (auto intro: same_core_trans)
qed simp

section \<open>What a duty leaves pending\<close>

text \<open>A duty's transaction, and jobs for what it left pending.\<close>

lemma leads_jobs:
  assumes "tx (w_db w) Other t" and core: "same_core (w\<lparr>w_db := t\<rparr>) w'" and jobs: "J \<subseteq> set (w_queue w')"
    and left: "db_ok (w_db w) \<Longrightarrow> queued (set (w_queue w)) (w_db w) \<Longrightarrow> queued (set (w_queue w) \<union> J) t"
  shows "leads w w'"
proof (rule leads_run [of _ "[Other]"])
  show "run tx (w_db w) [Other] (w_db w')" using assms(1) core by (auto simp: same_core_def intro: run_single)
  show "w_calls w' = w_calls w" using core by (simp add: same_core_def)
  show "queued (set (w_queue w')) (w_db w')" if "db_ok (w_db w)" "queued (set (w_queue w)) (w_db w)"
    using queued_mono [OF left [OF that]] core jobs by (auto simp: same_core_def)
qed

abbreviation swept_of :: "Fence \<Rightarrow> Applied \<Rightarrow> timestamp \<Rightarrow> Swept list" where
  "swept_of f applied now \<equiv> (case from_applied f applied now of None \<Rightarrow> [] | Some w \<Rightarrow> [w])"

lemma sent_back_append [simp]: "sent_back (xs @ ys) = sent_back xs \<union> sent_back ys"
  by (auto simp: sent_back_def)

lemma sent_back_Nil [simp]: "sent_back [] = {}"
  by (simp add: sent_back_def)

lemma sent_back_single:
  "sent_back [w] = (if sw_state w = S_Pending then {(publish_job_of (swept_dispatch w), sw_run_at w)} else {})"
  by (auto simp: sent_back_def)

lemma redispatched_sent_back:
  assumes "db_inv X s" and "apply_event s f ev data now = Inr (applied, t)"
  shows "redispatched applied \<subseteq> sent_back (swept_of f applied now)"
proof (cases applied)
  case (Done st dispatch change)
  from assms(1) assms(2) [unfolded Done] show ?thesis
  proof (rule apply_event_row)
    fix old
    let ?new = "apply_row st data now old"
    assume "row_by d_id (f_id f) (deliveries s) = Some old" and dispatch: "dispatch = redispatch_of st ?new"
    then have "d_id ?new = f_id f" by (auto simp: apply_row_def dest: row_by_key)
    then have "st = S_Pending \<and> dp_delivery d = f_id f" if "dispatch = Some d" for d
      using that dispatch by (auto simp: redispatch_of_def split: option.splits if_splits)
    note sent = this
    show ?thesis
    proof (cases dispatch)
      case (Some d)
      show ?thesis
        using sent [OF Some]
        by (simp add: Done Some redispatched_def from_applied_def sent_back_single publish_job_of_def swept_dispatch_def)
    qed (simp add: Done redispatched_def)
  qed
qed (simp add: redispatched_def)

lemma swept_not_pending:
  assumes "db_inv X s" and "apply_event s f ev data now = Inr (applied, t)"
    and "transition (f_expected f) ev \<noteq> Inr S_Pending"
  shows "sent_back (swept_of f applied now) = {}"
proof (cases applied)
  case (Done st dispatch change)
  from assms(1) assms(2) [unfolded Done] show ?thesis
  proof (rule apply_event_row)
    fix to assume "transition (f_expected f) ev = Inr to" and "st = apply_target s f to"
    then have "st \<noteq> S_Pending" using assms(3) apply_target_cases [of s f to] by auto
    then show ?thesis by (auto simp: Done from_applied_def sent_back_def)
  qed
qed (simp add: from_applied_def)

lemma apply_event_sent_back:
  assumes "db_inv X s" and "queued (Q \<union> sent_back ws) s" and "apply_event s f ev data now = Inr (applied, t)"
  shows "queued (Q \<union> sent_back (ws @ swept_of f applied now)) t"
  by (rule queued_mono [OF apply_event_queued [OF assms]])
    (use redispatched_sent_back [OF assms(1,3)] in auto)

lemma sweep_fold_queued:
  assumes "db_inv X s" and "queued Q s" and "ev \<noteq> E_Claim"
    and "foldE (sweep_each st ev data now) ([], s) rows = Inr (ws, t)"
  shows "queued (Q \<union> sent_back ws) t" and "transition st ev \<noteq> Inr S_Pending \<Longrightarrow> sent_back ws = {}"
proof -
  let ?I = "\<lambda>(ws, s). db_inv X s \<and> queued (Q \<union> sent_back ws) s
    \<and> (transition st ev \<noteq> Inr S_Pending \<longrightarrow> sent_back ws = {})"
  have "?I (ws, t)"
    using assms(4)
  proof (rule foldE_invariant)
    show "?I ([], s)" using assms by simp
    fix acc row acc'
    assume acc: "?I acc" and step: "sweep_each st ev data now acc row = Inr acc'"
    obtain ws s where [simp]: "acc = (ws, s)" by (metis surj_pair)
    obtain ws' t where [simp]: "acc' = (ws', t)" by (metis surj_pair)
    let ?f = "\<lparr>f_id = fst row, f_dispatch_gen = snd row, f_expected = st\<rparr>"
    from step obtain applied where run: "apply_event s ?f ev data now = Inr (applied, t)"
      and ws': "ws' = ws @ swept_of ?f applied now"
      by (auto elim: sweep_each_cases)
    have ok: "db_inv X s" and left: "queued (Q \<union> sent_back ws) s" using acc by auto
    have "sent_back ws' = {}" if "transition st ev \<noteq> Inr S_Pending"
      using that acc swept_not_pending [OF ok run] by (simp add: ws')
    then show "?I acc'"
      using apply_event_ok [OF ok run assms(3)] apply_event_sent_back [OF ok left run] by (simp add: ws')
  qed
  then show "queued (Q \<union> sent_back ws) t" and "transition st ev \<noteq> Inr S_Pending \<Longrightarrow> sent_back ws = {}" by auto
qed

lemma unpark_queued:
  assumes "db_inv X s" and "queued Q s" and "unpark s held i = Inr (res, t)"
  shows "queued (Q \<union> sent_back (ur_resumed res)) t"
proof -
  let ?start = "\<lparr>ur_resumed = [], ur_needs_owner = []\<rparr>"
  let ?I = "\<lambda>(res, s). db_inv X s \<and> queued (Q \<union> sent_back (ur_resumed res)) s"
  from assms(3) obtain rows where "foldE (unpark_each i) (?start, s) rows = Inr (res, t)"
    by (auto simp: unpark_def bindE_Inr_iff)
  then have "?I (res, t)"
  proof (rule foldE_invariant)
    show "?I (?start, s)" using assms by simp
    fix acc row acc'
    assume acc: "?I acc" and step: "unpark_each i acc row = Inr acc'"
    obtain res s where [simp]: "acc = (res, s)" by (metis surj_pair)
    obtain res' t where [simp]: "acc' = (res', t)" by (metis surj_pair)
    have ok: "db_inv X s" and left: "queued (Q \<union> sent_back (ur_resumed res)) s" using acc by auto
    from step have "unpark_each i (res, s) row = Inr (res', t)" by simp
    then show "?I acc'"
    proof (cases rule: unpark_each_cases)
      case stale
      then show ?thesis
        using ok left by (auto intro: notify_ok queued_update [OF left] simp: keeps_keys_def)
    next
      case (resume applied)
      then show ?thesis
        using apply_event_ok [OF ok resume(2)] apply_event_sent_back [OF ok left resume(2)] by simp
    qed
  qed
  then show ?thesis by simp
qed

section \<open>The duties\<close>

lemma overdue_queued:
  assumes "db_inv X s" and left: "queued Q s" and run: "overdue_pending s held now g limit = Inr (ds, t)"
    and "0 \<le> g"
  shows "queued (Q \<union> (\<lambda>d. (publish_job_of d, dp_run_at d)) ` set ds) t"
  using run
proof (rule overdue_pending_cases)
  fix picked :: "delivery_row list" and u :: db
  let ?chosen = "\<lambda>r. d_id r \<in> d_id ` set picked"
  assume picked: "set picked \<subseteq> {r \<in> set (deliveries s). d_state r = S_Pending
       \<and> at_most (d_next_attempt_at r) (now - g) \<and> d_updated_at r \<le> now - g
       \<and> job_live s r \<and> \<not> held (d_id r)}"
    and u: "u = write_deliveries s ?chosen (overdue_row now)" and t: "deliveries t = deliveries u"
    and ds: "ds = map (dispatch_at now) (sql_returning ?chosen (overdue_row now) (deliveries s))"
  show ?thesis
    unfolding queued_def
  proof (intro allI impI)
    fix d q assume q: "row_by d_id d (deliveries t) = Some q \<and> d_state q = S_Pending"
    then obtain r where r: "row_by d_id d (deliveries s) = Some r"
      and q_eq: "q = (if ?chosen r then overdue_row now r else r)"
      by (auto simp: t u row_by_write keeps_keys_def overdue_row_def)
    show "has_job (Q \<union> (\<lambda>d. (publish_job_of d, dp_run_at d)) ` set ds) q"
    proof (cases "?chosen r")
      case True
      then obtain p where "p \<in> set picked" and "d_id p = d_id r" by auto
      moreover from this have "p \<in> set (deliveries s)" using picked by auto
      ultimately have "p = r"
        using db_inv_unique [OF assms(1)] r row_by_key [OF r] by force
      then have "at_most (d_next_attempt_at r) (now - g)" using picked \<open>p \<in> set picked\<close> by auto
      moreover have "dispatch_at now q \<in> set ds"
        using True row_by_mem [OF r] by (auto simp: ds q_eq sql_returning_def)
      ultimately show ?thesis
        using True assms(4)
        by (auto simp: has_job_def q_eq publish_job_of_def dispatch_at_def at_most_def overdue_row_def
            split: option.splits intro!: exI [of _ now] image_eqI [of _ _ "dispatch_at now q"])
    next
      case False
      then show ?thesis using queued_row [OF left r] q q_eq by (auto intro: has_job_mono)
    qed
  qed
qed

lemma overdue_leads:
  assumes "overdue_pending (w_db w) held now g limit = Inr (ds, t)" and "0 \<le> g"
  shows "leads w (put_dispatches publish_job_of (w\<lparr>w_db := t\<rparr>) ds)"
  using put_dispatches_core [of "w\<lparr>w_db := t\<rparr>" publish_job_of ds] overdue_queued [OF _ _ assms]
  by (intro leads_jobs [OF tx.overdue [OF assms(1)], of _ "(\<lambda>d. (publish_job_of d, dp_run_at d)) ` set ds"]) auto

lemma expired_claims_leads:
  assumes run: "expired_claims (w_db w) held now limit = Inr (ws, t)"
    and sent: "redispatch (w\<lparr>w_db := t\<rparr>) ws = Inr (n, w')"
  shows "leads w w'"
proof (rule leads_jobs [OF tx.claims_expired [OF run], of _ "sent_back ws"])
  show "same_core (w\<lparr>w_db := t\<rparr>) w'" and "sent_back ws \<subseteq> set (w_queue w')"
    using redispatch_core [OF sent] by auto
  show "queued (set (w_queue w) \<union> sent_back ws) t" if "db_ok (w_db w)" "queued (set (w_queue w)) (w_db w)"
    using run by (auto simp: expired_claims_def bindE_Inr_iff intro: sweep_fold_queued(1) [OF that, rotated])
qed

lemma expired_in_flight_leads:
  assumes "duty_expired_in_flight w held now = Inr (n, w')"
  shows "leads w w'"
proof -
  from assms obtain ws t where run: "expired_in_flight (w_db w) held now SWEEP_LIMIT = Inr (ws, t)"
    and sent: "foldE unknown_one (0, w\<lparr>w_db := t\<rparr>) ws = Inr (n, w')"
    by (auto simp: duty_expired_in_flight_def result_simps)
  show ?thesis
  proof (rule leads_jobs [OF tx.in_flight_expired [OF run] unknown_core [OF sent], of "{}"])
    fix w0 assume ok: "db_ok (w_db w)" and left: "queued (set (w_queue w)) (w_db w)"
    obtain rows data where "foldE (sweep_each S_InFlight E_LeaseExpired data now) ([], w_db w) rows = Inr (ws, t)"
      using run by (auto simp: expired_in_flight_def bindE_Inr_iff)
    from sweep_fold_queued [OF ok left _ this] show "queued (set (w_queue w) \<union> {}) t"
      by (simp add: transition_def)
  qed simp
qed

lemma unpark_leads:
  assumes "duty_unpark compiled w held now park_grace = Inr (r, w')"
  shows "leads w w'"
proof -
  from assms obtain i res t n u where run: "unpark (w_db w) held i = Inr (res, t)"
    and sent: "redispatch (w\<lparr>w_db := t\<rparr>) (ur_resumed res) = Inr (n, u)"
    and asked: "foldE (\<lambda>w (_, did). stale w did) u (ur_needs_owner res) = Inr w'"
    by (auto simp: duty_unpark_def result_simps)
  note core = redispatch_core [OF sent] stale_core [OF asked]
  show ?thesis
  proof (rule leads_jobs [OF tx.unpark [OF run], of _ "sent_back (ur_resumed res)"])
    show "same_core (w\<lparr>w_db := t\<rparr>) w'" using core same_core_trans by blast
    show "sent_back (ur_resumed res) \<subseteq> set (w_queue w')" using core same_core_queue by blast
  qed (use unpark_queued [OF _ _ run] in auto)
qed

lemma stamp_leads:
  assumes "stalled_checks (w_db w) held now g limit = Inr (cs, t)"
  shows "leads w (foldl (restart now) (w\<lparr>w_db := t\<rparr>) cs)"
proof (rule leads_jobs [OF tx.stalled [OF assms] restart_core, of "{}"])
  assume left: "queued (set (w_queue w)) (w_db w)"
  from assms obtain p where "deliveries t = sql_update p (\<lambda>r. r\<lparr>d_check_due_at := Some now\<rparr>) (deliveries (w_db w))"
    by (auto simp: stalled_checks_def Let_def bindE_Inr_iff)
  from queued_update [OF left this] show "queued (set (w_queue w) \<union> {}) t" by (simp add: keeps_keys_def)
qed simp

lemma orphaned_leads:
  assumes "orphaned_direct (w_db w) held now g limit = Inr (ds, t)"
  shows "leads w (put_dispatches batch_job_of (w\<lparr>w_db := t\<rparr>) ds)"
proof (rule leads_jobs [OF tx.orphaned [OF assms], of _ "{}"])
  assume left: "queued (set (w_queue w)) (w_db w)"
  from assms obtain p where "deliveries t = sql_update p (\<lambda>r. r\<lparr>d_updated_at := now\<rparr>) (deliveries (w_db w))"
    by (auto simp: orphaned_direct_def Let_def bindE_Inr_iff dest!: touch_all_tables)
  from queued_update [OF left this] show "queued (set (w_queue w) \<union> {}) t" by (simp add: keeps_keys_def)
qed (use put_dispatches_core in auto)

lemma duty_leads:
  assumes "duty_run compiled held now graces duty report w = Inr (report', w')" and "0 \<le> gr_sweep graces"
  shows "leads w w'"
proof (cases duty)
  case D_OverduePending
  then show ?thesis using assms by (auto simp: duty_run_def result_simps intro: overdue_leads)
next
  case D_ExpiredClaims
  then show ?thesis using assms by (auto simp: duty_run_def result_simps intro: expired_claims_leads)
next
  case D_ExpiredInFlight
  then show ?thesis using assms by (auto simp: duty_run_def result_simps intro: expired_in_flight_leads)
next
  case D_OrphanedDirect
  then show ?thesis using assms by (auto simp: duty_run_def result_simps intro: orphaned_leads)
next
  case D_Unpark
  then show ?thesis using assms by (auto simp: duty_run_def result_simps intro: unpark_leads)
next
  case D_StalledChecks
  then show ?thesis using assms by (auto simp: duty_run_def result_simps intro: stamp_leads)
qed

lemma sweep_duty_leads:
  assumes "\<And>d. engine_handler (meanwhile d)" and "0 \<le> gr_sweep graces"
  shows "leads (snd st) (snd (sweep_duty compiled held meanwhile now graces st duty))"
proof -
  obtain report failed w where st: "st = ((report, failed), w)" by (metis surj_pair)
  have "leads w (meanwhile duty w)" by (rule handler_leads [OF assms(1)])
  also have "leads (meanwhile duty w) (snd (sweep_duty compiled held meanwhile now graces st duty))"
    by (auto simp: sweep_duty_def st Let_def split: sum.split dest: duty_leads [OF _ assms(2)])
  finally show ?thesis by (simp add: st)
qed

lemma run_sweep_leads:
  assumes "\<And>d. engine_handler (meanwhile d)"
  shows "leads w (snd (run_sweep settings compiled held meanwhile now w))"
proof -
  have "leads (snd st) (snd (foldl (sweep_duty compiled held meanwhile now graces) st ds))"
    if "0 \<le> gr_sweep graces" for graces st ds
  proof (induction ds arbitrary: st)
    case (Cons d ds)
    have "leads (snd st) (snd (sweep_duty compiled held meanwhile now graces st d))"
      by (rule sweep_duty_leads [OF assms that])
    then show ?case using leads_trans Cons [of "sweep_duty compiled held meanwhile now graces st d"] by simp
  qed simp
  note loop = this [of _ "((report_default, []), w)" duties_all]
  show ?thesis
  proof (cases "\<exists>g p. grace (ps_sweep_grace settings) = Inr g \<and> grace (ps_park_grace settings) = Inr p")
    case True
    then obtain g p where ok: "grace (ps_sweep_grace settings) = Inr g" "grace (ps_park_grace settings) = Inr p" by auto
    have "0 \<le> g" using ok(1) by (auto simp: grace_def split: if_splits)
    then show ?thesis using loop [of "\<lparr>gr_sweep = g, gr_park = p\<rparr>"] by (simp add: run_sweep_def ok case_prod_unfold Let_def)
  next
    case False
    then show ?thesis by (auto simp: run_sweep_def split: sum.split)
  qed
qed

end
