(* ===== verification/Service.thy ===== *)
theory Service
  imports Worker_Run Sweeper
begin

text \<open>
  The calls a user makes: the model of \<^verbatim>\<open>backend/crates/publishing/src/service.rs\<close> with the errors
  of \<^verbatim>\<open>error.rs\<close>, and of what happens to deliveries when a user or an account goes
  (\<^verbatim>\<open>deletion.rs\<close>, \<^verbatim>\<open>disconnect.rs\<close>) and ahead of their time (\<^verbatim>\<open>preflight.rs\<close>).

  A call returns its result and the world; an error before its transaction commits hands over
  nothing. \<open>ServiceAnswers\<close> has what other parts of the system answered during the call: the content
  of the post, the account service, the media service and the agents; \<open>meanwhile i\<close> is what other
  transactions did at the \<open>i\<close>-th place where the call holds no connection. What \<^verbatim>\<open>serde\<close> and \<^verbatim>\<open>url\<close>
  read is given by functions there too. The \<^verbatim>\<open>AuditContext\<close> of a request is left out.
\<close>

section \<open>Errors\<close>

datatype PublishingError =
    PE_Scope ScopeError
  | PE_NotFound
  | PE_AccountNotInScope
  | PE_VersionConflict
  | PE_ConfirmationRequired
  | PE_AcknowledgementRequired
  | PE_ValidationFailed "Violation list"
  | PE_NotReschedulable
  | PE_NotRetryable
  | PE_NotResolvable
  | PE_JobActive
  | PE_PostLocked
  | PE_PlatformDisabled
  | PE_PlatformUnavailable
  | PE_Data DataError
  | PE_Notify
  | PE_Corrupt string
  | PE_Jobs

definition publishing_error :: "DataError \<Rightarrow> PublishingError" where
  "publishing_error e =
     (case e of
        DE_NotFound \<Rightarrow> PE_NotFound
      | DE_AccountNotInScope \<Rightarrow> PE_AccountNotInScope
      | DE_Scope scope \<Rightarrow> PE_Scope scope
      | DE_VersionConflict \<Rightarrow> PE_VersionConflict
      | DE_PostLocked \<Rightarrow> PE_PostLocked
      | DE_JobActive \<Rightarrow> PE_JobActive
      | DE_Conflict code \<Rightarrow> if code = ''acknowledgement_required'' then PE_AcknowledgementRequired else PE_Data e
      | _ \<Rightarrow> PE_Data e)"

definition conflict_in :: "string list \<Rightarrow> PublishingError \<Rightarrow> DataError \<Rightarrow> PublishingError" where
  "conflict_in codes refused e =
     (case e of
        DE_Conflict code \<Rightarrow> if code \<in> set codes then refused else publishing_error e
      | _ \<Rightarrow> publishing_error e)"

definition retry_error :: "DataError \<Rightarrow> PublishingError" where
  "retry_error =
     conflict_in [''not_retryable'', ''transition_not_allowed'', ''job_cancelled'', ''delivery_changed''] PE_NotRetryable"

definition resolve_error :: "DataError \<Rightarrow> PublishingError" where
  "resolve_error = conflict_in [''transition_not_allowed'', ''delivery_changed''] PE_NotResolvable"

definition reschedule_error :: "DataError \<Rightarrow> PublishingError" where
  "reschedule_error = conflict_in [''not_reschedulable'', ''job_cancelled''] PE_NotReschedulable"

section \<open>Requests and answers\<close>

record PublishInput =
  pi_targets :: "uuid list"
  pi_at :: "timestamp option"
  pi_native_schedule :: bool
  pi_dry_run :: bool
  pi_confirm :: bool
  pi_if_match :: int

record RescheduleOutcome =
  ro_moved :: "uuid list"
  ro_failed :: "uuid list"

record CancelReport =
  rep_cancelled :: "uuid list"
  rep_requested :: "uuid list"
  rep_not_cancellable :: "uuid list"

datatype NativeDelete = ND_Cancelled | ND_Kept | ND_Transient

record NativeTally =
  nt_deleted :: nat
  nt_kept :: nat
  nt_transient :: nat

record NativeCleanup =
  nc_deleted :: nat
  nc_remaining :: nat

definition cleanup :: "NativeTally \<Rightarrow> NativeCleanup" where
  "cleanup t = \<lparr>nc_deleted = nt_deleted t, nc_remaining = nt_kept t + nt_transient t\<rparr>"

record Target =
  tg_account :: uuid
  tg_variant :: Variant
  tg_operation :: Operation
  tg_native :: bool

text \<open>The columns of a post's content, its media in order and its override rows.\<close>

record PostOverrideRow =
  po_account_id :: uuid
  po_patch :: json
  po_options :: json

record StoredContent =
  sc_kind :: PostKind
  sc_text :: string
  sc_media :: "MediaItem list"
  sc_link :: "string option"
  sc_tags :: "string list"
  sc_disclose_ai_generated :: bool
  sc_reply_to :: "json option"
  sc_overrides :: "PostOverrideRow list"

record ServiceAnswers =
  sv_content :: "uuid \<Rightarrow> int \<Rightarrow> StoredContent"
  sv_url :: "string \<Rightarrow> string option"
  sv_reply_to :: "json \<Rightarrow> ReplyTo option"
  sv_override :: "json \<Rightarrow> PostOverride option"
  sv_uuid :: "string \<Rightarrow> uuid option"
  sv_unicode :: unicode
  sv_media :: media
  sv_bound :: "uuid \<Rightarrow> AccountError + BoundClient"
  sv_bound_later :: "uuid \<Rightarrow> AccountError + BoundClient"
  sv_moved :: "AccountRef \<Rightarrow> PublishReceipt \<Rightarrow> timestamp \<Rightarrow> AgentError + PublishReceipt"
  sv_deleted :: "AccountRef \<Rightarrow> PublishReceipt \<Rightarrow> AgentError + unit"
  sv_job :: uuid
  sv_fresh :: "nat \<Rightarrow> uuid"
  sv_now :: timestamp
  sv_later :: "uuid \<Rightarrow> timestamp"
  sv_db_clock :: timestamp

type_synonym 'a answer = "(PublishingError + 'a) \<times> world"

section \<open>Small helpers\<close>

definition SCHEDULE_GRACE :: int where
  "SCHEDULE_GRACE = seconds 60"

definition due_time :: "timestamp option \<Rightarrow> timestamp \<Rightarrow> PublishingError + timestamp option" where
  "due_time at now =
     (case at of
        None \<Rightarrow> Inr None
      | Some t \<Rightarrow>
          if now < t then Inr (Some t)
          else if t < now - SCHEDULE_GRACE
          then Inl (PE_ValidationFailed [at_path ''schedule'' (violation_new ScheduleInPast)])
          else Inr None)"

definition require_cap :: "OwnerScope \<Rightarrow> Capability \<Rightarrow> PublishingError + unit" where
  "require_cap scope cap = map_err PE_Scope (require scope cap)"

definition service_audit ::
  "world \<Rightarrow> AuditEventKind \<Rightarrow> OwnerScope \<Rightarrow> (string \<times> AuditDetail) list \<Rightarrow> world" where
  "service_audit w kind scope details = w\<lparr>w_audit := w_audit w @
     [\<lparr>ae_kind = kind, ae_actor = Some (actor scope), ae_owner = owner scope, ae_details = details\<rparr>]\<rparr>"

definition strip_options :: "string \<Rightarrow> string" where
  "strip_options path = (if take 8 path = ''options.'' then drop 8 path else path)"

definition audience_violation :: "Variant \<Rightarrow> json \<Rightarrow> Violation" where
  "audience_violation v entry =
     (let path = (case entry of
                    JObject m \<Rightarrow> (case Option.bind (map_of m ''path'') json_str of None \<Rightarrow> [] | Some p \<Rightarrow> p)
                  | _ \<Rightarrow> []);
          name = strip_options path;
          named = (case map_of (va_options v) name of
                     None \<Rightarrow> False
                   | Some JNull \<Rightarrow> False
                   | Some (JArray items) \<Rightarrow> items \<noteq> []
                   | Some _ \<Rightarrow> True);
          x = (if named then param ''expected'' (JString ''array'') (violation_new OptionType)
               else violation_new OptionRequired)
      in param ''name'' (JString name) (at_path path x))"

definition tagged :: "Violation list \<Rightarrow> uuid \<Rightarrow> Violation list" where
  "tagged found account = map (param ''account_id'' (JString (uuid_text account))) found"

definition missing_violations :: "Variant option \<Rightarrow> uuid list \<Rightarrow> Violation list" where
  "missing_violations v ids =
     (if ids = [] then [violation_new ViolationCode.MediaMissing]
      else map (\<lambda>i.
        let x = param ''id'' (JString (uuid_text i)) (violation_new ViolationCode.MediaMissing)
        in case Option.bind v (\<lambda>v. media_path v i) of Some path \<Rightarrow> at_path path x | None \<Rightarrow> x) ids)"

definition receipt_of :: "ServiceAnswers \<Rightarrow> Delivery \<Rightarrow> PublishReceipt" where
  "receipt_of sv d =
     \<lparr>pr_remote_id = v_remote_id d, pr_remote_url = Option.bind (v_remote_url d) (sv_url sv),
      pr_container_ref = None, pr_remote_publish_at = v_remote_publish_at d\<rparr>"

definition bind_error :: "AccountError \<Rightarrow> PublishingError" where
  "bind_error e =
     (case e of
        AE_NotFound \<Rightarrow> PE_NotFound
      | AE_AccountDisconnected \<Rightarrow> PE_NotFound
      | AE_PlatformDisabled \<Rightarrow> PE_PlatformDisabled
      | AE_Data d \<Rightarrow> publishing_error d
      | AE_Scope s \<Rightarrow> PE_Scope s
      | _ \<Rightarrow> PE_PlatformUnavailable)"

definition bind_account :: "ServiceAnswers \<Rightarrow> uuid \<Rightarrow> PublishingError + BoundClient" where
  "bind_account sv account = map_err bind_error (sv_bound sv account)"

definition media_error :: "MediaServiceError \<Rightarrow> PublishingError" where
  "media_error e =
     (case e of
        ME_Data d \<Rightarrow> publishing_error d
      | ME_NotFound \<Rightarrow> PE_Corrupt ''media not found''
      | ME_Other t \<Rightarrow> PE_Corrupt t)"

fun found_assets :: "media \<Rightarrow> nat \<Rightarrow> uuid list \<Rightarrow> PublishingError + MediaAsset list" where
  "found_assets media n [] = Inr []"
| "found_assets media n (i # ids) =
     (case media n [i] of
        Inl ME_NotFound \<Rightarrow> found_assets media (Suc n) ids
      | Inl e \<Rightarrow> Inl (media_error e)
      | Inr assets \<Rightarrow> bindE (found_assets media (Suc n) ids) (\<lambda>rest. Inr (assets @ rest)))"

definition known_assets :: "media \<Rightarrow> uuid list \<Rightarrow> PublishingError + MediaAsset list" where
  "known_assets media all_ids =
     (let ids = dedup all_ids
      in if ids = [] then Inr []
         else
           (case media 0 ids of
              Inr assets \<Rightarrow> Inr assets
            | Inl ME_NotFound \<Rightarrow> found_assets media 1 ids
            | Inl e \<Rightarrow> Inl (media_error e)))"

text \<open>\<^verbatim>\<open>job_partial\<close>: only the write that made a live job \<^verbatim>\<open>partial\<close> tells its owner.\<close>

definition job_partial ::
  "world \<Rightarrow> job_row \<Rightarrow> uuid \<Rightarrow> JobStatusChange \<Rightarrow> PublishingError + world" where
  "job_partial w job user change =
     (if j_dry_run job \<or> \<not> became_partial change then Inr w
      else map_err (\<lambda>_. PE_Notify) (record_job_partial w (j_id job) (j_post_id job) user))"

section \<open>Reading the post\<close>

definition get_post :: "db \<Rightarrow> OwnerScope \<Rightarrow> uuid \<Rightarrow> DataError + post_row" where
  "get_post s scope post =
     bindE (check_scope scope Cap_View) (\<lambda>_.
       ok_or DE_NotFound (find (\<lambda>p. p_owner_id p = owner scope \<and> p_id p = post) (posts s)))"

definition lock_row :: "db \<Rightarrow> uuid \<Rightarrow> uuid \<Rightarrow> int option \<Rightarrow> DataError + post_row" where
  "lock_row s user post expected =
     bindE (ok_or DE_NotFound (find (\<lambda>p. p_owner_id p = user \<and> p_id p = post) (posts s))) (\<lambda>row.
       if expected \<noteq> None \<and> expected \<noteq> Some (p_version row) then Inl DE_VersionConflict
       else if list_ex (\<lambda>j. j_post_id j = post \<and> (j_status j = J_Scheduled \<or> j_status j = J_Publishing))
                 (publish_jobs s)
       then Inl DE_PostLocked
       else Inr row)"

definition lock_post :: "db \<Rightarrow> OwnerScope \<Rightarrow> uuid \<Rightarrow> int option \<Rightarrow> DataError + post_row" where
  "lock_post s scope post expected =
     bindE (check_scope scope Cap_Edit) (\<lambda>_. lock_row s (owner scope) post expected)"

definition read_opt :: "PublishingError \<Rightarrow> ('a \<Rightarrow> 'b option) \<Rightarrow> 'a option \<Rightarrow> PublishingError + 'b option" where
  "read_opt e read v =
     (case v of None \<Rightarrow> Inr None | Some x \<Rightarrow> bindE (ok_or e (read x)) (\<lambda>y. Inr (Some y)))"

definition override_of :: "ServiceAnswers \<Rightarrow> PostOverrideRow \<Rightarrow> PublishingError + uuid \<times> PostOverride" where
  "override_of sv row =
     bindE (ok_or (PE_Corrupt ''post_override_invalid'') (sv_override sv (po_patch row))) (\<lambda>over1.
       Inr (po_account_id row,
         case po_options row of JObject options \<Rightarrow> over1\<lparr>ov_options := options\<rparr> | _ \<Rightarrow> over1))"

definition read_post ::
  "ServiceAnswers \<Rightarrow> db \<Rightarrow> OwnerScope \<Rightarrow> uuid \<Rightarrow> int \<Rightarrow> PublishingError + Post \<times> (uuid \<times> PostOverride) list" where
  "read_post sv s scope post if_match =
     bindE (map_err publishing_error (get_post s scope post)) (\<lambda>row.
       if p_version row \<noteq> if_match then Inl PE_VersionConflict
       else
         let c = sv_content sv post (p_version row)
         in bindE (read_opt (PE_Corrupt ''post_link_invalid'') (sv_url sv) (sc_link c)) (\<lambda>link.
            bindE (read_opt (PE_Corrupt ''post_reply_to_invalid'') (sv_reply_to sv) (sc_reply_to c)) (\<lambda>reply_to.
            bindE (mapE (override_of sv)
                     (filter (\<lambda>row. filter_admits (account_filter scope) (po_account_id row)) (sc_overrides c)))
              (\<lambda>overrides.
              Inr (\<lparr>po_kind = sc_kind c, po_text = sc_text c, po_media = sc_media c, po_link = link,
                    po_tags = sc_tags c, po_disclose_ai_generated = sc_disclose_ai_generated c,
                    po_reply_to = reply_to\<rparr>, overrides)))))"

section \<open>Checking targets\<close>

definition resolve_one ::
  "ServiceAnswers \<Rightarrow> Post \<Rightarrow> (uuid \<times> PostOverride) list \<Rightarrow> Violation list \<times> (BoundClient \<times> Variant) list \<Rightarrow> uuid
   \<Rightarrow> PublishingError + Violation list \<times> (BoundClient \<times> Variant) list" where
  "resolve_one sv base overrides acc account =
     bindE (bind_account sv account) (\<lambda>bound.
       case resolve_variant base (bc_account bound) (map_of (rev overrides) account) of
         Inr v \<Rightarrow> Inr (fst acc, snd acc @ [(bound, v)])
       | Inl found \<Rightarrow> Inr (fst acc @ tagged found account, snd acc))"

definition operation_of :: "AgentDescriptor \<Rightarrow> Variant \<Rightarrow> Operation" where
  "operation_of d v =
     (if ad_kind d = Direct then Op_Direct else if va_kind v = PK_Comment then Op_Comment else Op_Publish)"

definition schedule_of :: "timestamp option \<Rightarrow> bool \<Rightarrow> Schedule" where
  "schedule_of at native = (case at of None \<Rightarrow> Sch_Now | Some t \<Rightarrow> Sch_At t native)"

text \<open>The variant without its audience, and what is wrong with the audience.\<close>

definition audience_checked ::
  "ServiceAnswers \<Rightarrow> Operation \<Rightarrow> Variant \<Rightarrow> Violation list \<times> Variant" where
  "audience_checked sv op1 v =
     (if op1 = Op_Direct
      then (case take_audience (sv_uuid sv) v of
              (Inl entry, checked) \<Rightarrow> ([audience_violation v entry], checked)
            | (Inr _, checked) \<Rightarrow> ([], checked))
      else ([], v))"

definition target_input ::
  "AgentDescriptor \<Rightarrow> Variant \<Rightarrow> MediaAsset list \<Rightarrow> Schedule \<Rightarrow> timestamp \<Rightarrow> ValidationInput" where
  "target_input d v assets schedule now =
     \<lparr>vi_descriptor = d, vi_options_schema = ad_options_schema d, vi_variant = v, vi_media = assets,
      vi_schedule = schedule, vi_now = now\<rparr>"

definition check_one ::
  "ServiceAnswers \<Rightarrow> PublishInput \<Rightarrow> timestamp option \<Rightarrow> timestamp \<Rightarrow> MediaAsset list \<Rightarrow> BoundClient \<times> Variant
   \<Rightarrow> Violation list \<times> Target" where
  "check_one sv inp at now assets bv =
     (case bv of (bound, v) \<Rightarrow>
        let account = acr_account (bc_account bound); d = bc_descriptor bound; op1 = operation_of d v;
            (wrong, checked) = audience_checked sv op1 v
        in (tagged wrong account
            @ tagged (validate_target (sv_unicode sv)
                (target_input d checked assets (schedule_of at (pi_native_schedule inp)) now)) account,
            \<lparr>tg_account = account, tg_variant = v, tg_operation = op1,
             tg_native = (pi_native_schedule inp \<and> at \<noteq> None \<and> supports_native_schedule d)\<rparr>))"

definition check_targets ::
  "ServiceAnswers \<Rightarrow> Post \<Rightarrow> (uuid \<times> PostOverride) list \<Rightarrow> PublishInput \<Rightarrow> timestamp option \<Rightarrow> timestamp
   \<Rightarrow> PublishingError + Target list" where
  "check_targets sv base overrides inp at now =
     bindE (foldE (resolve_one sv base overrides) ([], []) (pi_targets inp)) (\<lambda>(unresolved, resolved).
     bindE (known_assets (sv_media sv) (concat (map (\<lambda>(bound, v). variant_media_ids v) resolved))) (\<lambda>assets.
       let checked = map (check_one sv inp at now assets) resolved;
           violations = unresolved @ concat (map fst checked)
       in if violations = [] then Inr (map snd checked) else Inl (PE_ValidationFailed violations)))"

section \<open>Creating a job\<close>

definition new_job_of ::
  "ServiceAnswers \<Rightarrow> uuid \<Rightarrow> PublishInput \<Rightarrow> timestamp option \<Rightarrow> Target list \<Rightarrow> NewJob" where
  "new_job_of sv post inp at targets =
     \<lparr>nj_id = sv_job sv,
      nj_snapshot = \<lparr>sn_post_id = post, sn_post_version = pi_if_match inp, sn_variants = map tg_variant targets\<rparr>,
      nj_targets = map (\<lambda>(i, t). \<lparr>nd_id = sv_fresh sv i, nd_account = tg_account t,
        nd_operation = tg_operation t, nd_due_at = (if tg_native t then Some (sv_now sv) else None)\<rparr>)
        (enumerate 0 targets),
      nj_scheduled_at = (case at of None \<Rightarrow> sv_now sv | Some t \<Rightarrow> t),
      nj_native_schedule = pi_native_schedule inp, nj_dry_run = pi_dry_run inp, nj_recurrence_id = None\<rparr>"

definition create_checks ::
  "ServiceAnswers \<Rightarrow> db \<Rightarrow> OwnerScope \<Rightarrow> uuid \<Rightarrow> PublishInput
   \<Rightarrow> PublishingError + timestamp option \<times> Target list" where
  "create_checks sv s scope post inp =
     bindE (require_cap scope (if pi_dry_run inp then Cap_Edit else Cap_Publish)) (\<lambda>_.
       if list_ex (\<lambda>account. \<not> allows_account scope account) (pi_targets inp) then Inl PE_AccountNotInScope
       else if \<not> pi_dry_run inp \<and> \<not> pi_confirm inp then Inl PE_ConfirmationRequired
       else
         bindE (due_time (pi_at inp) (sv_now sv)) (\<lambda>at.
         bindE (read_post sv s scope post (pi_if_match inp)) (\<lambda>(base, overrides).
         bindE (check_targets sv base overrides inp at (sv_now sv)) (\<lambda>targets.
           Inr (at, targets)))))"

definition create_write ::
  "(nat list \<Rightarrow> nat list) \<Rightarrow> ServiceAnswers \<Rightarrow> OwnerScope \<Rightarrow> uuid \<Rightarrow> PublishInput \<Rightarrow> timestamp option \<Rightarrow> Target list
   \<Rightarrow> world \<Rightarrow> PublishingError + CreatedJob \<times> world" where
  "create_write sha256 sv scope post inp at targets w =
     bindE (map_err publishing_error (lock_post (w_db w) scope post (Some (pi_if_match inp)))) (\<lambda>locked.
     bindE (map_err publishing_error (create_job sha256 (w_db w) scope locked (new_job_of sv post inp at targets)
              (sv_db_clock sv) (sv_later sv post))) (\<lambda>(created, t).
       let w = put_dispatches publish_job_of (w\<lparr>w_db := t\<rparr>) (cj_deliveries created);
           w = (if pi_dry_run inp then w
                else service_audit w A_PublishConfirmed scope
                  [(''job_id'', AD_Id (cj_job created)), (''post_id'', AD_Id post),
                   (''post_kind'', AD_Text (post_kind_str (sc_kind (sv_content sv post (pi_if_match inp))))),
                   (''account_ids'', AD_Ids (pi_targets inp))])
       in Inr (created, w)))"

definition service_create_job ::
  "(nat list \<Rightarrow> nat list) \<Rightarrow> ServiceAnswers \<Rightarrow> (nat \<Rightarrow> world \<Rightarrow> world) \<Rightarrow> OwnerScope \<Rightarrow> uuid \<Rightarrow> PublishInput
   \<Rightarrow> world \<Rightarrow> CreatedJob answer" where
  "service_create_job sha256 sv meanwhile scope post inp w =
     (case create_checks sv (w_db w) scope post inp of
        Inl e \<Rightarrow> (Inl e, meanwhile 0 w)
      | Inr (at, targets) \<Rightarrow>
          let w = meanwhile 0 w
          in case create_write sha256 sv scope post inp at targets w of
               Inl e \<Rightarrow> (Inl e, w)
             | Inr (created, w') \<Rightarrow> (Inr created, w'))"

section \<open>Natively scheduled uploads\<close>

definition processing_fence :: "Delivery \<Rightarrow> Fence" where
  "processing_fence d = \<lparr>f_id = v_id d, f_dispatch_gen = v_dispatch_gen d, f_expected = S_Processing\<rparr>"

text \<open>Recording a new time: the poll of the chain's current step is queued at it.\<close>

definition move_write :: "ServiceAnswers \<Rightarrow> Delivery \<Rightarrow> timestamp \<Rightarrow> world \<Rightarrow> PublishingError + bool \<times> world" where
  "move_write sv d moved w =
     bindE (map_err publishing_error (set_remote_publish_at (w_db w) (processing_fence d) moved (sv_later sv (v_id d))))
       (\<lambda>(written, t).
         if written = None then Inr (False, w)
         else
           let w = w\<lparr>w_db := t\<rparr>
           in Inr (True, case check_target t (v_id d) of
                None \<Rightarrow> w
              | Some target \<Rightarrow>
                  enqueue w (PollDeliveryStatus (v_id d) (v_dispatch_gen d) (ct_check_seq target)) moved))"

definition move_native ::
  "ServiceAnswers \<Rightarrow> (world \<Rightarrow> world) \<Rightarrow> Delivery \<Rightarrow> timestamp \<Rightarrow> world \<Rightarrow> bool answer" where
  "move_native sv elsewhere d at w =
     (case sv_bound_later sv (v_account_id d) of
        Inl _ \<Rightarrow> (Inr False, elsewhere w)
      | Inr bound \<Rightarrow>
          if \<not> bc_native bound then (Inr False, elsewhere w)
          else
            (case sv_moved sv (bc_account bound) (receipt_of sv d) at of
               Inl _ \<Rightarrow> (Inr False, elsewhere w)
             | Inr receipt \<Rightarrow>
                 let moved = (case pr_remote_publish_at receipt of None \<Rightarrow> at | Some t \<Rightarrow> t);
                     w = elsewhere w
                 in case move_write sv d moved w of
                      Inl e \<Rightarrow> (Inl e, w)
                    | Inr (written, w') \<Rightarrow> (Inr written, w')))"

definition delete_class :: "RetryClass \<Rightarrow> NativeDelete" where
  "delete_class c =
     (case c of
        RC_Retryable \<Rightarrow> ND_Transient
      | RC_RetryAfter _ \<Rightarrow> ND_Transient
      | RC_QuotaExceeded \<Rightarrow> ND_Transient
      | RC_Ambiguous \<Rightarrow> ND_Transient
      | _ \<Rightarrow> ND_Kept)"

definition delete_write ::
  "ServiceAnswers \<Rightarrow> uuid \<Rightarrow> uuid option \<Rightarrow> job_row \<Rightarrow> Delivery \<Rightarrow> world \<Rightarrow> PublishingError + NativeDelete \<times> world" where
  "delete_write sv user act job d w =
     bindE (map_err publishing_error (apply_event (w_db w) (processing_fence d) E_Cancel
              (td_default\<lparr>td_actor := act\<rparr>) (sv_later sv (v_id d)))) (\<lambda>(applied, t).
       let w = w\<lparr>w_db := t\<rparr>
       in case applied of
            Done _ _ change \<Rightarrow> bindE (job_partial w job user change) (\<lambda>w. Inr (ND_Cancelled, w))
          | Stale \<Rightarrow> Inr (ND_Kept, w))"

definition delete_native ::
  "ServiceAnswers \<Rightarrow> (world \<Rightarrow> world) \<Rightarrow> uuid \<Rightarrow> uuid option \<Rightarrow> job_row \<Rightarrow> Delivery \<Rightarrow> world \<Rightarrow> NativeDelete answer" where
  "delete_native sv elsewhere user act job d w =
     (case sv_bound_later sv (v_account_id d) of
        Inl (AE_Data _) \<Rightarrow> (Inr ND_Transient, elsewhere w)
      | Inl _ \<Rightarrow> (Inr ND_Kept, elsewhere w)
      | Inr bound \<Rightarrow>
          if \<not> bc_native bound then (Inr ND_Kept, elsewhere w)
          else
            (case sv_deleted sv (bc_account bound) (receipt_of sv d) of
               Inl e \<Rightarrow> (Inr (delete_class (retry_class e)), elsewhere w)
             | Inr _ \<Rightarrow>
                 let w = elsewhere w
                 in case delete_write sv user act job d w of
                      Inl e \<Rightarrow> (Inl e, w)
                    | Inr (outcome, w') \<Rightarrow> (Inr outcome, w')))"

section \<open>Rescheduling\<close>

text \<open>The accounts whose agents hold a natively scheduled post, each once.\<close>

definition native_targets :: "ServiceAnswers \<Rightarrow> db \<Rightarrow> OwnerScope \<Rightarrow> job_row \<Rightarrow> PublishingError + uuid list" where
  "native_targets sv s scope job =
     (if \<not> j_native_schedule job \<or> j_dry_run job then Inr []
      else
        bindE (map_err publishing_error (list_for_job s scope (j_id job))) (\<lambda>ds.
          Inr (foldl (\<lambda>accounts d.
            let account = v_account_id d
            in if account \<in> set accounts then accounts
               else
                 (case sv_bound sv account of
                    Inr bound \<Rightarrow> if supports_native_schedule (bc_descriptor bound) then accounts @ [account] else accounts
                  | Inl _ \<Rightarrow> accounts)) [] ds)))"

definition reschedule_checks ::
  "ServiceAnswers \<Rightarrow> db \<Rightarrow> OwnerScope \<Rightarrow> uuid \<Rightarrow> timestamp \<Rightarrow> int \<Rightarrow> PublishingError + timestamp \<times> uuid list" where
  "reschedule_checks sv s scope job at if_match =
     bindE (require_cap scope Cap_Publish) (\<lambda>_.
     bindE (due_time (Some at) (sv_now sv)) (\<lambda>due.
     bindE (map_err publishing_error (get_job s scope job)) (\<lambda>current.
       if j_version current \<noteq> if_match then Inl PE_VersionConflict
       else
         bindE (native_targets sv s scope current) (\<lambda>upload_now.
           Inr (case due of None \<Rightarrow> sv_now sv | Some t \<Rightarrow> t, upload_now)))))"

definition reschedule_write ::
  "ServiceAnswers \<Rightarrow> OwnerScope \<Rightarrow> uuid \<Rightarrow> timestamp \<Rightarrow> int \<Rightarrow> uuid list \<Rightarrow> world
   \<Rightarrow> PublishingError + (uuid list \<times> Delivery list) \<times> world" where
  "reschedule_write sv scope job at if_match upload_now w =
     bindE (map_err reschedule_error (reschedule_pending_with (w_db w) scope job at (sv_now sv) upload_now))
       (\<lambda>(moved, t).
     bindE (map_err publishing_error (get_job t scope job)) (\<lambda>after.
       if \<not> i64_ok (if_match + 1) \<or> j_version after \<noteq> if_match + 1 then Inl PE_VersionConflict
       else
         bindE (map_err publishing_error (mapE (get_delivery t scope) (rs_needs_agent moved))) (\<lambda>natives.
           let w = put_dispatches publish_job_of (w\<lparr>w_db := t\<rparr>) (rs_dispatches moved)
           in Inr ((map dp_delivery (rs_dispatches moved), natives),
                   service_audit w A_PublishJobRescheduled scope
                     [(''job_id'', AD_Id job), (''pending'', AD_Count (length (rs_dispatches moved))),
                      (''native'', AD_Count (length natives))]))))"

fun move_natives ::
  "ServiceAnswers \<Rightarrow> (nat \<Rightarrow> world \<Rightarrow> world) \<Rightarrow> timestamp \<Rightarrow> RescheduleOutcome \<Rightarrow> Delivery list \<Rightarrow> world
   \<Rightarrow> RescheduleOutcome answer" where
  "move_natives sv meanwhile at outcome [] w = (Inr outcome, w)"
| "move_natives sv meanwhile at outcome (d # ds) w =
     (case move_native sv (meanwhile (length ds)) d at w of
        (Inl e, w) \<Rightarrow> (Inl e, w)
      | (Inr moved, w) \<Rightarrow>
          move_natives sv meanwhile at
            (if moved then outcome\<lparr>ro_moved := ro_moved outcome @ [v_id d]\<rparr>
             else outcome\<lparr>ro_failed := ro_failed outcome @ [v_id d]\<rparr>) ds w)"

definition service_reschedule ::
  "ServiceAnswers \<Rightarrow> (world \<Rightarrow> world) \<Rightarrow> (nat \<Rightarrow> world \<Rightarrow> world) \<Rightarrow> OwnerScope \<Rightarrow> uuid \<Rightarrow> timestamp \<Rightarrow> int
   \<Rightarrow> world \<Rightarrow> RescheduleOutcome answer" where
  "service_reschedule sv elsewhere meanwhile scope job at if_match w =
     (case reschedule_checks sv (w_db w) scope job at if_match of
        Inl e \<Rightarrow> (Inl e, elsewhere w)
      | Inr (due, upload_now) \<Rightarrow>
          let w = elsewhere w
          in case reschedule_write sv scope job due if_match upload_now w of
               Inl e \<Rightarrow> (Inl e, w)
             | Inr ((moved, natives), w) \<Rightarrow>
                 move_natives sv meanwhile due \<lparr>ro_moved = moved, ro_failed = []\<rparr> natives w)"

section \<open>Cancelling\<close>

definition empty_report :: CancelReport where
  "empty_report = \<lparr>rep_cancelled = [], rep_requested = [], rep_not_cancellable = []\<rparr>"

definition file_outcome :: "CancelReport \<Rightarrow> uuid \<times> CancelOutcome \<Rightarrow> CancelReport" where
  "file_outcome report r =
     (case r of
        (i, Cancelled) \<Rightarrow> report\<lparr>rep_cancelled := rep_cancelled report @ [i]\<rparr>
      | (i, Requested) \<Rightarrow> report\<lparr>rep_requested := rep_requested report @ [i]\<rparr>
      | (i, NotCancellable) \<Rightarrow> report\<lparr>rep_not_cancellable := rep_not_cancellable report @ [i]\<rparr>
      | (i, NeedsAgent _) \<Rightarrow> report)"

definition needs_agent :: "uuid \<times> CancelOutcome \<Rightarrow> bool" where
  "needs_agent r = (case snd r of NeedsAgent _ \<Rightarrow> True | _ \<Rightarrow> False)"

definition cancel_native ::
  "ServiceAnswers \<Rightarrow> (world \<Rightarrow> world) \<Rightarrow> OwnerScope \<Rightarrow> job_row \<Rightarrow> Delivery \<Rightarrow> CancelReport \<times> world
   \<Rightarrow> CancelReport \<times> world" where
  "cancel_native sv elsewhere scope job d rw =
     (case rw of (report, w) \<Rightarrow>
        (case delete_native sv elsewhere (owner scope) (Some (actor scope)) job d w of
           (Inr ND_Cancelled, w) \<Rightarrow> (report\<lparr>rep_cancelled := rep_cancelled report @ [v_id d]\<rparr>, w)
         | (_, w) \<Rightarrow> (report\<lparr>rep_not_cancellable := rep_not_cancellable report @ [v_id d]\<rparr>, w)))"

fun cancel_natives ::
  "ServiceAnswers \<Rightarrow> (nat \<Rightarrow> world \<Rightarrow> world) \<Rightarrow> OwnerScope \<Rightarrow> job_row \<Rightarrow> Delivery list \<Rightarrow> CancelReport \<times> world
   \<Rightarrow> CancelReport \<times> world" where
  "cancel_natives sv meanwhile scope job [] rw = rw"
| "cancel_natives sv meanwhile scope job (d # ds) rw =
     cancel_natives sv meanwhile scope job ds (cancel_native sv (meanwhile (length ds)) scope job d rw)"

definition cancel_job_write ::
  "ServiceAnswers \<Rightarrow> OwnerScope \<Rightarrow> uuid \<Rightarrow> world
   \<Rightarrow> PublishingError + (CancelReport \<times> job_row \<times> Delivery list) \<times> world" where
  "cancel_job_write sv scope job w =
     bindE (map_err publishing_error (cancel_job_with_status (w_db w) scope job (sv_now sv))) (\<lambda>((outcomes, change), t).
     bindE (map_err publishing_error (get_job t scope job)) (\<lambda>row.
     bindE (map_err publishing_error (mapE (get_delivery t scope) (map fst (filter needs_agent outcomes)))) (\<lambda>natives.
     bindE (job_partial (w\<lparr>w_db := t\<rparr>) row (owner scope) change) (\<lambda>w.
       let report = foldl file_outcome empty_report outcomes
       in Inr ((report, row, natives),
               service_audit w A_PublishJobCancelled scope
                 [(''job_id'', AD_Id job), (''cancelled'', AD_Count (length (rep_cancelled report))),
                  (''requested'', AD_Count (length (rep_requested report))),
                  (''native'', AD_Count (length natives))])))))"

definition service_cancel_job ::
  "ServiceAnswers \<Rightarrow> (nat \<Rightarrow> world \<Rightarrow> world) \<Rightarrow> OwnerScope \<Rightarrow> uuid \<Rightarrow> world \<Rightarrow> CancelReport answer" where
  "service_cancel_job sv meanwhile scope job w =
     (case bindE (require_cap scope Cap_Publish) (\<lambda>_. cancel_job_write sv scope job w) of
        Inl e \<Rightarrow> (Inl e, w)
      | Inr ((report, row, natives), w) \<Rightarrow>
          (case cancel_natives sv meanwhile scope row natives (report, w) of (report, w) \<Rightarrow> (Inr report, w)))"

definition outcome_name :: "CancelOutcome \<Rightarrow> string option" where
  "outcome_name outcome =
     (case outcome of
        Cancelled \<Rightarrow> Some ''cancelled''
      | Requested \<Rightarrow> Some ''requested''
      | NeedsAgent _ \<Rightarrow> Some ''native''
      | NotCancellable \<Rightarrow> None)"

definition cancel_delivery_write ::
  "ServiceAnswers \<Rightarrow> OwnerScope \<Rightarrow> uuid \<Rightarrow> world
   \<Rightarrow> PublishingError + (CancelReport \<times> job_row \<times> Delivery list) \<times> world" where
  "cancel_delivery_write sv scope did w =
     bindE (map_err publishing_error (cancel_with_status (w_db w) scope did (sv_now sv))) (\<lambda>((outcome, change), t).
     bindE (map_err publishing_error (get_delivery t scope did)) (\<lambda>found.
     bindE (map_err publishing_error (get_job t scope (v_job_id found))) (\<lambda>row.
     bindE (case change of
              None \<Rightarrow> Inr (w\<lparr>w_db := t\<rparr>)
            | Some c \<Rightarrow> job_partial (w\<lparr>w_db := t\<rparr>) row (owner scope) c) (\<lambda>w.
       Inr ((file_outcome empty_report (did, outcome), row, if needs_agent (did, outcome) then [found] else []),
            case outcome_name outcome of
              None \<Rightarrow> w
            | Some name \<Rightarrow>
                service_audit w A_DeliveryCancelled scope
                  [(''delivery_id'', AD_Id did), (''job_id'', AD_Id (v_job_id found)),
                   (''account_id'', AD_Id (v_account_id found)), (''outcome'', AD_Text name)])))))"

definition service_cancel_delivery ::
  "ServiceAnswers \<Rightarrow> (nat \<Rightarrow> world \<Rightarrow> world) \<Rightarrow> OwnerScope \<Rightarrow> uuid \<Rightarrow> world \<Rightarrow> CancelReport answer" where
  "service_cancel_delivery sv meanwhile scope did w =
     (case bindE (require_cap scope Cap_Publish) (\<lambda>_. cancel_delivery_write sv scope did w) of
        Inl e \<Rightarrow> (Inl e, w)
      | Inr ((report, row, natives), w) \<Rightarrow>
          (case cancel_natives sv meanwhile scope row natives (report, w) of (report, w) \<Rightarrow> (Inr report, w)))"

section \<open>Retry and resolve\<close>

definition revalidate_retry ::
  "ServiceAnswers \<Rightarrow> Delivery \<Rightarrow> PublishSnapshot \<Rightarrow> timestamp \<Rightarrow> PublishingError + unit" where
  "revalidate_retry sv d snapshot now =
     bindE (bind_account sv (v_account_id d)) (\<lambda>bound.
       case assemble (sv_media sv) snapshot (v_account_id d) of
         Inl VariantMissing \<Rightarrow> Inl PE_NotFound
       | Inl (AssetsMissing ids) \<Rightarrow>
           Inl (PE_ValidationFailed (missing_violations (variant_for snapshot (v_account_id d)) ids))
       | Inl (AssembleData e) \<Rightarrow> Inl (publishing_error e)
       | Inr whole \<Rightarrow>
           let (wrong, checked) = audience_checked sv (v_operation d) (asm_variant whole);
               violations = wrong @ validate_target (sv_unicode sv)
                 (target_input (bc_descriptor bound) checked (asm_assets whole) Sch_Now now)
           in if violations = [] then Inr () else Inl (PE_ValidationFailed violations))"

definition retry_checks ::
  "ServiceAnswers \<Rightarrow> db \<Rightarrow> OwnerScope \<Rightarrow> uuid \<Rightarrow> bool \<Rightarrow> PublishingError + Delivery" where
  "retry_checks sv s scope did confirm =
     (if \<not> confirm then Inl PE_ConfirmationRequired
      else
        bindE (require_cap scope Cap_Publish) (\<lambda>_.
        bindE (map_err publishing_error (get_delivery s scope did)) (\<lambda>found.
        bindE (map_err publishing_error (job_snapshot s (v_job_id found))) (\<lambda>snapshot.
          case transition (v_state found) (E_UserRetry True) of
            Inl (NotAllowed _ _) \<Rightarrow> Inl PE_NotRetryable
          | _ \<Rightarrow> bindE (revalidate_retry sv found snapshot (sv_now sv)) (\<lambda>_. Inr found)))))"

definition retry_write ::
  "ServiceAnswers \<Rightarrow> OwnerScope \<Rightarrow> uuid \<Rightarrow> bool \<Rightarrow> Delivery \<Rightarrow> world \<Rightarrow> PublishingError + Dispatch \<times> world" where
  "retry_write sv scope did ack found w =
     bindE (map_err retry_error (retry (w_db w) scope did ack (sv_later sv did))) (\<lambda>(dispatch, t).
       let w = enqueue (w\<lparr>w_db := t\<rparr>) (publish_job_of dispatch) (dp_run_at dispatch)
       in Inr (dispatch, service_audit w A_DeliveryRetried scope
            [(''delivery_id'', AD_Id did), (''job_id'', AD_Id (v_job_id found)),
             (''account_id'', AD_Id (v_account_id found)), (''acknowledged'', AD_Flag ack)]))"

definition service_retry ::
  "ServiceAnswers \<Rightarrow> (world \<Rightarrow> world) \<Rightarrow> OwnerScope \<Rightarrow> uuid \<Rightarrow> bool \<Rightarrow> bool \<Rightarrow> world \<Rightarrow> Dispatch answer" where
  "service_retry sv elsewhere scope did confirm ack w =
     (case retry_checks sv (w_db w) scope did confirm of
        Inl e \<Rightarrow> (Inl e, elsewhere w)
      | Inr found \<Rightarrow>
          let w = elsewhere w
          in case retry_write sv scope did ack found w of
               Inl e \<Rightarrow> (Inl e, w)
             | Inr (dispatch, w') \<Rightarrow> (Inr dispatch, w'))"

definition resolve_write ::
  "ServiceAnswers \<Rightarrow> OwnerScope \<Rightarrow> uuid \<Rightarrow> ResolvedOutcome \<Rightarrow> world \<Rightarrow> PublishingError + DeliveryState \<times> world" where
  "resolve_write sv scope did outcome w =
     bindE (require_cap scope Cap_Publish) (\<lambda>_.
     bindE (map_err resolve_error (resolve_with_status (w_db w) scope did outcome (sv_now sv))) (\<lambda>((st, change), t).
     bindE (map_err publishing_error (get_delivery t scope did)) (\<lambda>found.
     bindE (map_err publishing_error (get_job t scope (v_job_id found))) (\<lambda>row.
     bindE (job_partial (w\<lparr>w_db := t\<rparr>) row (owner scope) change) (\<lambda>w.
       Inr (st, service_audit w A_DeliveryResolved scope
         [(''delivery_id'', AD_Id did), (''job_id'', AD_Id (v_job_id found)),
          (''account_id'', AD_Id (v_account_id found)), (''outcome'', AD_Text (state_str st))]))))))"

definition service_resolve ::
  "ServiceAnswers \<Rightarrow> OwnerScope \<Rightarrow> uuid \<Rightarrow> ResolvedOutcome \<Rightarrow> world \<Rightarrow> DeliveryState answer" where
  "service_resolve sv scope did outcome w =
     (case resolve_write sv scope did outcome w of
        Inl e \<Rightarrow> (Inl e, w)
      | Inr (st, w') \<Rightarrow> (Inr st, w'))"

section \<open>Users and accounts that go\<close>

definition no_natives :: NativeTally where
  "no_natives = \<lparr>nt_deleted = 0, nt_kept = 0, nt_transient = 0\<rparr>"

definition count_native :: "NativeTally \<Rightarrow> NativeDelete \<Rightarrow> NativeTally" where
  "count_native t outcome =
     (case outcome of
        ND_Cancelled \<Rightarrow> t\<lparr>nt_deleted := nt_deleted t + 1\<rparr>
      | ND_Kept \<Rightarrow> t\<lparr>nt_kept := nt_kept t + 1\<rparr>
      | ND_Transient \<Rightarrow> t\<lparr>nt_transient := nt_transient t + 1\<rparr>)"

fun delete_each ::
  "ServiceAnswers \<Rightarrow> (nat \<Rightarrow> world \<Rightarrow> world) \<Rightarrow> uuid \<Rightarrow> NativeTally \<Rightarrow> (job_row \<times> Delivery) list \<Rightarrow> world
   \<Rightarrow> NativeTally answer" where
  "delete_each sv meanwhile user tally [] w = (Inr tally, w)"
| "delete_each sv meanwhile user tally ((job, d) # rest) w =
     (case delete_native sv (meanwhile (length rest)) user None job d w of
        (Inl e, w) \<Rightarrow> (Inl e, w)
      | (Inr outcome, w) \<Rightarrow> delete_each sv meanwhile user (count_native tally outcome) rest w)"

definition delete_natives ::
  "ServiceAnswers \<Rightarrow> (nat \<Rightarrow> world \<Rightarrow> world) \<Rightarrow> uuid \<Rightarrow> uuid option \<Rightarrow> world \<Rightarrow> NativeTally answer" where
  "delete_natives sv meanwhile user account w =
     (case map_err publishing_error (mapE (\<lambda>d.
             bindE (get_job (w_db w) (own user) (v_job_id d)) (\<lambda>job. Inr (job, d)))
             (native_scheduled (w_db w) user account (sv_now sv))) of
        Inl e \<Rightarrow> (Inl e, w)
      | Inr natives \<Rightarrow> delete_each sv meanwhile user no_natives natives w)"

definition record_cancel_partial :: "uuid \<Rightarrow> world \<Rightarrow> CancelResult \<Rightarrow> PublishingError + world" where
  "record_cancel_partial user w r =
     (case cr_change r of
        None \<Rightarrow> Inr w
      | Some change \<Rightarrow>
          if \<not> became_partial change then Inr w
          else
            bindE (map_err publishing_error (get_job (w_db w) (own user) (cr_job r))) (\<lambda>job.
              job_partial w job user change))"

definition record_cancel_partials :: "uuid \<Rightarrow> CancelResult list \<Rightarrow> world \<Rightarrow> PublishingError + world" where
  "record_cancel_partials user results w = foldE (record_cancel_partial user) w results"

definition deletion_write :: "uuid \<Rightarrow> timestamp \<Rightarrow> world \<Rightarrow> JobError + world" where
  "deletion_write user now w =
     bindE (map_err data_error (cancel_for_owner_with_status (w_db w) user now)) (\<lambda>(results, t).
       map_err (\<lambda>_. JE_Retry) (record_cancel_partials user results (w\<lparr>w_db := t\<rparr>)))"

definition run_deletion ::
  "ServiceAnswers \<Rightarrow> (nat \<Rightarrow> world \<Rightarrow> world) \<Rightarrow> (nat \<Rightarrow> world \<Rightarrow> world) \<Rightarrow> uuid \<Rightarrow> world \<Rightarrow> JobError option \<times> world" where
  "run_deletion sv meanwhile elsewhere user w =
     (case deletion_write user (sv_now sv) w of
        Inl e \<Rightarrow> (Some e, w)
      | Inr w \<Rightarrow>
          (case delete_natives sv meanwhile user None (elsewhere 0 w) of
             (Inl _, w) \<Rightarrow> (Some JE_Retry, w)
           | (Inr tally, w) \<Rightarrow>
               if 0 < nt_transient tally then (Some JE_Retry, w)
               else
                 let w = elsewhere 1 w
                 in if owner_has_in_flight (w_db w) user then (Some JE_Retry, w) else (None, w)))"

definition disconnect_error :: "PublishingError \<Rightarrow> AccountError" where
  "disconnect_error e =
     (case e of PE_Data d \<Rightarrow> AE_Data d | PE_Notify \<Rightarrow> AE_Notify | _ \<Rightarrow> AE_Internal [])"

definition before_disconnect ::
  "ServiceAnswers \<Rightarrow> (nat \<Rightarrow> world \<Rightarrow> world) \<Rightarrow> uuid \<Rightarrow> uuid \<Rightarrow> world \<Rightarrow> (AccountError + NativeCleanup) \<times> world" where
  "before_disconnect sv meanwhile user account w =
     (case delete_natives sv meanwhile user (Some account) w of
        (Inl e, w) \<Rightarrow> (Inl (disconnect_error e), w)
      | (Inr tally, w) \<Rightarrow> (Inr (cleanup tally), w))"

definition deliveries_cancelled :: "uuid \<Rightarrow> CancelResult list \<Rightarrow> world \<Rightarrow> AccountError + world" where
  "deliveries_cancelled user cancelled w = map_err disconnect_error (record_cancel_partials user cancelled w)"

section \<open>Preflight\<close>

definition PREFLIGHT_WINDOW :: int where
  "PREFLIGHT_WINDOW = seconds 3600"

definition PREFLIGHT_LIMIT :: int where
  "PREFLIGHT_LIMIT = 500"

text \<open>\<open>lo\<close> and \<open>hi\<close> are the ends of \<^verbatim>\<open>chrono\<close>'s range.\<close>

definition shifted :: "timestamp \<Rightarrow> timestamp \<Rightarrow> timestamp \<Rightarrow> int \<Rightarrow> timestamp" where
  "shifted lo hi now delta =
     (if lo \<le> now + delta \<and> now + delta \<le> hi then now + delta else if delta < 0 then lo else hi)"

text \<open>\<open>check\<close> is the account service's check of one account: whether it got an answer, and what it wrote.\<close>

definition run_preflight ::
  "timestamp \<Rightarrow> timestamp \<Rightarrow> (uuid \<times> uuid \<Rightarrow> world \<Rightarrow> bool \<times> world) \<Rightarrow> timestamp \<Rightarrow> world
     \<Rightarrow> (JobError + nat) \<times> world" where
  "run_preflight lo hi check now w =
     (case preflight_accounts (w_db w) (shifted lo hi now PREFLIGHT_WINDOW)
             (shifted lo hi now (- PREFLIGHT_WINDOW)) PREFLIGHT_LIMIT of
        Inl e \<Rightarrow> (Inl (data_error e), w)
      | Inr accounts \<Rightarrow>
          (case foldl (\<lambda>(answered, w) account.
                  case check account w of (ok, w) \<Rightarrow> (if ok then answered + 1 else answered, w))
                (0, w) accounts of
             (answered, w) \<Rightarrow> (Inr answered, w)))"

end
