(* ===== verification/Service_Run.thy ===== *)
theory Service_Run
  imports Service
begin

text \<open>
  The calls of the publishing service meet the engine's contract \<open>leads\<close>: each is a sequence of the
  store's transactions that leaves every pending delivery with a job of its own, whatever the rest
  of the engine commits where the call holds no connection. After them, what a call that succeeded
  had checked, and that a refused one wrote nothing.
\<close>

section \<open>What the store's actions leave pending\<close>

abbreviation publish_jobs_of :: "Dispatch list \<Rightarrow> (EngineJob \<times> timestamp) set" where
  "publish_jobs_of ds \<equiv> (\<lambda>d. (publish_job_of d, dp_run_at d)) ` set ds"

lemma insert_rows:
  assumes "foldE (\<lambda>s target. insert_delivery_row s (row target)) s targets = Inr t"
  shows "deliveries t = deliveries s @ map row targets"
  using assms
proof (induction targets arbitrary: s)
  case (Cons target targets)
  then obtain u where "insert_delivery_row s (row target) = Inr u" and "deliveries t = deliveries u @ map row targets"
    by (auto simp: bindE_Inr_iff)
  then show ?case by (auto simp: insert_delivery_row_def split: if_splits)
qed simp

lemma create_job_queued:
  assumes left: "queued Q s" and run: "create_job sha256 s scope locked new clock now = Inr (created, t)"
  shows "queued (Q \<union> publish_jobs_of (cj_deliveries created)) t"
proof -
  let ?row = "new_delivery_row sha256 (owner scope) (Some (actor scope)) locked new clock"
  from run obtain s1 s2 st where
    job: "insert_job_row s (new_job_row (owner scope) (Some (actor scope)) locked new clock) = Inr s1"
    and rows: "foldE (\<lambda>s target. insert_delivery_row s (?row target)) s1 (nj_targets new) = Inr s2"
    and refresh: "refresh_job_status s2 (nj_id new) now = Inr (st, t)"
    and created: "cj_deliveries created = map (\<lambda>target. \<lparr>dp_delivery = nd_id target, dp_dispatch_gen = 0,
        dp_run_at = due_of new target\<rparr>) (nj_targets new)"
    by (auto simp: create_job_def insert_job_def result_simps split: if_splits)
  have "deliveries s1 = deliveries s"
    using job by (auto simp: insert_job_row_def split: if_splits)
  then have t: "deliveries t = deliveries s @ map ?row (nj_targets new)"
    using insert_rows [OF rows] refresh by (auto dest: refresh_tables(1))
  have new_row: "has_job (publish_jobs_of (cj_deliveries created)) (?row target)" if "target \<in> set (nj_targets new)" for target
    using that
    by (auto simp: has_job_def created new_delivery_row_def publish_job_of_def image_image
        intro!: exI [of _ "due_of new target"])
  show ?thesis
    unfolding queued_def
  proof (intro allI impI)
    fix d q assume q: "row_by d_id d (deliveries t) = Some q \<and> d_state q = S_Pending"
    show "has_job (Q \<union> publish_jobs_of (cj_deliveries created)) q"
    proof (cases "row_by d_id d (deliveries s)")
      case None
      then have "q \<in> ?row ` set (nj_targets new)"
        using q row_by_mem [of d_id d "map ?row (nj_targets new)" q] by (simp add: t row_by_def find_append_None)
      then show ?thesis using new_row by (auto intro: has_job_mono)
    next
      case (Some r)
      then have "q = r" using q row_by_append [OF Some] by (simp add: t)
      then show ?thesis using q queued_row [OF left Some] by (auto intro: has_job_mono)
    qed
  qed
qed

lemma reschedule_queued:
  assumes left: "queued Q s" and run: "reschedule_pending_with s scope job at now ups = Inr (r, t)"
  shows "queued (Q \<union> publish_jobs_of (rs_dispatches r)) t"
proof -
  let ?f = "reschedule_row at now ups (actor scope)"
  from run obtain p c where
    touch: "touch_job (s\<lparr>deliveries := sql_update p ?f (deliveries s),
        publish_jobs := sql_update (\<lambda>k. j_id k = job)
          (\<lambda>k. k\<lparr>j_scheduled_at := at, j_updated_at := now, j_updated_by := Some (actor scope)\<rparr>)
          (publish_jobs s)\<rparr>) job now = Inr (c, t)"
    and sent: "rs_dispatches r = map (\<lambda>r. \<lparr>dp_delivery = d_id r, dp_dispatch_gen = d_dispatch_gen r,
        dp_run_at = the (d_next_attempt_at r)\<rparr>) (sql_returning p ?f (deliveries s))"
    by (auto simp: reschedule_pending_with_def Let_def result_simps split: if_splits)
  then have t: "deliveries t = sql_update p ?f (deliveries s)" by (auto dest: touch_job_tables(1))
  show ?thesis
    unfolding queued_def
  proof (intro allI impI)
    fix d q assume q: "row_by d_id d (deliveries t) = Some q \<and> d_state q = S_Pending"
    then obtain old where old: "row_by d_id d (deliveries s) = Some old" and q_eq: "q = (if p old then ?f old else old)"
      by (auto simp: t row_by_write keeps_keys_def reschedule_row_def)
    show "has_job (Q \<union> publish_jobs_of (rs_dispatches r)) q"
    proof (cases "p old")
      case True
      then have "?f old \<in> set (sql_returning p ?f (deliveries s))"
        using row_by_mem [OF old] by (auto simp: sql_returning_def)
      then have "(PublishDelivery (d_id q) (d_dispatch_gen q), the (d_next_attempt_at q)) \<in> publish_jobs_of (rs_dispatches r)"
        using True by (force simp: sent q_eq publish_job_of_def)
      then show ?thesis using True by (auto simp: has_job_def q_eq reschedule_row_def)
    next
      case False
      then show ?thesis using queued_row [OF left old] q q_eq by (auto intro: has_job_mono)
    qed
  qed
qed

lemma retry_queued:
  assumes ok: "db_ok s" and left: "queued Q s" and run: "retry s scope did ack now = Inr (dispatch, t)"
  shows "queued (Q \<union> {(publish_job_of dispatch, dp_run_at dispatch)}) t"
  using run
proof (rule retry_cases)
  fix d st change u
  assume "apply_event s (fence_of d) (E_UserRetry ack)
       (td_default\<lparr>td_reset_attempts := True, td_actor := Some (actor scope)\<rparr>) now = Inr (Done st (Some dispatch) change, u)"
    and t: "t = (if v_operation d = Op_Direct then forget_counts u did else u)"
  from apply_event_queued [OF ok left this(1)]
  have u: "queued (Q \<union> {(publish_job_of dispatch, dp_run_at dispatch)}) u" by (simp add: redispatched_def)
  have "queued (Q \<union> {(publish_job_of dispatch, dp_run_at dispatch)}) (forget_counts u did)"
    by (rule queued_update [OF u, of _ "\<lambda>r. d_id r = did" "d_direct_counts_update (\<lambda>_. None)"])
      (auto simp: forget_counts_def keeps_keys_def)
  with u t show ?thesis by simp
qed

lemma resolve_queued:
  assumes ok: "db_ok s" and left: "queued Q s" and run: "resolve_with_status s scope did outcome now = Inr (r, t)"
  shows "queued Q t"
proof -
  obtain st change where r: "r = (st, change)" by (cases r)
  from run [unfolded r] show ?thesis
  proof (rule resolve_cases)
    fix d dispatch
    assume ev: "apply_event s (fence_of d) (E_UserResolve outcome)
           (td_default\<lparr>td_actor := Some (actor scope)\<rparr>) now = Inr (Done st dispatch change, t)"
    have "transition (f_expected (fence_of d)) (E_UserResolve outcome) \<noteq> Inr S_Pending"
      by (auto simp: transition_iff_move elim: move_elim)
    then show ?thesis
      using apply_event_queued [OF ok left ev] no_redispatch [OF ok ev] by simp
  qed
qed

lemma cancel_not_pending: "transition st E_Cancel \<noteq> Inr S_Pending"
  by (auto simp: transition_iff_move elim: move_elim)

lemma cancel_now_queued:
  assumes ok: "db_inv X s" and left: "queued Q s" and run: "cancel_now s d act now = Inr (r, t)"
  shows "queued Q t"
  using run
proof (rule cancel_now_cases)
  fix applied
  assume ev: "apply_event s (fence_of d) E_Cancel (td_default\<lparr>td_actor := act\<rparr>) now = Inr (applied, t)"
  show ?thesis
    using apply_event_queued [OF ok left ev] no_redispatch [OF ok ev cancel_not_pending] by simp
qed

lemma request_cancel_queued:
  assumes "queued Q s" and "request_cancel s d act now = Inr (r, t)"
  shows "queued Q t"
proof -
  let ?f = "\<lambda>r. r\<lparr>d_cancel_requested_at := Some now, d_updated_at := now,
                 d_updated_by := coalesce act (d_updated_by r)\<rparr>"
  from assms(2) obtain c where
    "touch_job (write_deliveries s (\<lambda>r. d_id r = v_id d) ?f) (v_job_id d) now = Inr (c, t)"
    by (auto simp: request_cancel_def Let_def result_simps)
  then have "deliveries t = sql_update (\<lambda>r. d_id r = v_id d) ?f (deliveries s)"
    by (auto dest: touch_job_tables(1))
  then show ?thesis by (rule queued_update [OF assms(1)]) (auto simp: keeps_keys_def)
qed

lemma cancel_loaded_queued:
  assumes "db_inv X s" and "queued Q s" and "cancel_loaded s d act now = Inr (r, t)"
  shows "queued Q t"
  using assms cancel_now_queued [OF assms(1,2)] request_cancel_queued [OF assms(2)]
  by (auto simp: cancel_loaded_def split: DeliveryState.splits if_splits)

lemma cancel_queued:
  "db_ok s \<Longrightarrow> queued Q s \<Longrightarrow> cancel_with_status s scope did now = Inr (r, t) \<Longrightarrow> queued Q t"
  by (auto simp: cancel_with_status_def bindE_Inr_iff dest: cancel_loaded_queued)

lemma cancel_rows_queued:
  assumes "db_ok s" and "queued Q s" and "cancel_rows s rows now = Inr (r, t)"
  shows "queued Q t"
proof -
  have "(\<lambda>(results :: CancelResult list, s). db_ok s \<and> queued Q s) (r, t)"
    using assms(3) unfolding cancel_rows_def
    by (rule foldE_invariant)
      (use assms(1,2) in \<open>auto simp: Let_def result_simps intro: cancel_loaded_ok cancel_loaded_queued\<close>)
  then show ?thesis by simp
qed

lemma cancel_each_queued:
  assumes "db_inv X s" and "queued Q s" and "foldE (cancel_each act now) (acc, s) ds = Inr (acc', t)"
  shows "queued Q t"
proof -
  have "(\<lambda>(acc :: (uuid \<times> CancelOutcome) list \<times> JobStatus option, s). db_inv X s \<and> queued Q s) (acc', t)"
    using assms(3)
    by (rule foldE_invariant)
      (use assms(1,2) in \<open>auto simp: cancel_each_def result_simps split: prod.splits
        intro: cancel_loaded_ok cancel_loaded_queued\<close>)
  then show ?thesis by simp
qed

lemma cancel_job_queued:
  assumes ok: "db_ok s" and left: "queued Q s" and run: "cancel_job_with_status s scope job now = Inr (r, t)"
  shows "queued Q t"
proof -
  let ?s0 = "mark_cancelled s job now (actor scope)"
  from run obtain ds acc s1 c where fold: "foldE (cancel_each (actor scope) now) (([], None), ?s0) ds = Inr (acc, s1)"
    and touch: "touch_job s1 job now = Inr (c, t)"
    by (auto simp: cancel_job_with_status_def result_simps)
  have "queued Q ?s0" using left queued_same [of ?s0 s] by (simp add: mark_cancelled_def)
  with mark_cancelled_inv [OF ok, of job UNIV] have "queued Q s1"
    using fold by (auto intro: cancel_each_queued)
  moreover have "deliveries t = deliveries s1" using touch by (auto dest: touch_job_tables(1))
  ultimately show ?thesis using queued_same [of t s1 Q] by simp
qed

lemma native_time_queued:
  assumes "queued Q s" and "set_remote_publish_at s f at now = Inr (c, t)"
  shows "queued Q t"
proof (cases "find (native_matches f) (deliveries s)")
  case None
  then show ?thesis using assms by (simp add: set_remote_publish_at_def)
next
  case (Some old)
  let ?f = "\<lambda>r. r\<lparr>d_remote_publish_at := Some at, d_updated_at := now\<rparr>"
  have "deliveries t = sql_update (native_matches f) ?f (deliveries s)"
    using assms(2) Some by (auto simp: set_remote_publish_at_def Let_def result_simps dest: touch_job_tables(1))
  then show ?thesis by (rule queued_update [OF assms(1)]) (auto simp: keeps_keys_def)
qed

section \<open>The calls meet the contract\<close>

lemma service_audit_core [simp]: "same_core w (service_audit w kind scope details)"
  by (simp add: service_audit_def same_core_def)

lemma job_partial_core: "job_partial w job user change = Inr w' \<Longrightarrow> same_core w w'"
  by (auto simp: job_partial_def map_err_Inr_iff split: if_splits dest: record_job_partial_core)

text \<open>A transaction that leaves nothing new pending, and what is handed over beside it.\<close>

lemma leads_quiet:
  assumes "tx (w_db w) Other t" and "same_core (w\<lparr>w_db := t\<rparr>) w'"
    and "db_ok (w_db w) \<Longrightarrow> queued (set (w_queue w)) (w_db w) \<Longrightarrow> queued (set (w_queue w)) t"
  shows "leads w w'"
  using leads_jobs [OF assms(1,2), of "{}"] assms(3) by simp

lemma create_write_leads:
  assumes "create_write sha256 sv scope post inp at targets w = Inr (created, w')"
  shows "leads w w'"
proof -
  from assms obtain locked t where
    run: "create_job sha256 (w_db w) scope locked (new_job_of sv post inp at targets) (sv_db_clock sv) (sv_later sv post)
      = Inr (created, t)"
    and core: "same_core (put_dispatches publish_job_of (w\<lparr>w_db := t\<rparr>) (cj_deliveries created)) w'"
    by (auto simp: create_write_def Let_def result_simps split: if_splits)
  let ?u = "put_dispatches publish_job_of (w\<lparr>w_db := t\<rparr>) (cj_deliveries created)"
  show ?thesis
  proof (rule leads_jobs [OF tx.create [OF run]])
    show "same_core (w\<lparr>w_db := t\<rparr>) w'"
      using core put_dispatches_core [of "w\<lparr>w_db := t\<rparr>"] same_core_trans by blast
    show "publish_jobs_of (cj_deliveries created) \<subseteq> set (w_queue w')"
      using put_dispatches_core [of "w\<lparr>w_db := t\<rparr>"] same_core_queue [OF core] by blast
  qed (rule create_job_queued [OF _ run])
qed

lemma service_create_job_leads:
  assumes "\<And>i. engine_handler (meanwhile i)"
  shows "leads w (snd (service_create_job sha256 sv meanwhile scope post inp w))"
proof -
  have first: "leads w (meanwhile 0 w)" using assms by (rule handler_leads)
  show ?thesis
    using first leads_trans [OF first create_write_leads]
    by (auto simp: service_create_job_def Let_def split: sum.split)
qed

section \<open>Natively scheduled uploads\<close>

lemma move_write_leads:
  assumes "move_write sv d moved w = Inr (written, w')"
  shows "leads w w'"
proof -
  from assms obtain c t where
    run: "set_remote_publish_at (w_db w) (processing_fence d) moved (sv_later sv (v_id d)) = Inr (c, t)"
    and w': "w' = w \<or> same_core (w\<lparr>w_db := t\<rparr>) w'"
    by (auto simp: move_write_def Let_def result_simps split: if_splits option.splits)
  from w' show ?thesis
  proof
    assume "same_core (w\<lparr>w_db := t\<rparr>) w'"
    with tx.native_time [OF run] show ?thesis
      by (rule leads_quiet) (rule native_time_queued [OF _ run])
  qed simp
qed

lemma move_native_leads:
  assumes "engine_handler elsewhere"
  shows "leads w (snd (move_native sv elsewhere d at w))"
proof -
  have first: "leads w (elsewhere w)" using assms by (rule handler_leads)
  then show ?thesis
    using leads_trans [OF first move_write_leads]
    by (auto simp: move_native_def Let_def split: sum.split)
qed

lemma move_natives_leads:
  assumes "\<And>i. engine_handler (meanwhile i)"
  shows "leads w (snd (move_natives sv meanwhile at outcome ds w))"
proof (induction ds arbitrary: outcome w)
  case (Cons d ds)
  show ?case
    using move_native_leads [OF assms, of w sv "length ds" d at] leads_trans Cons.IH
    by (auto split: prod.split sum.split)
qed simp

lemma delete_write_leads:
  assumes "delete_write sv user act job d w = Inr (outcome, w')"
  shows "leads w w'"
proof -
  from assms obtain applied t where
    run: "apply_event (w_db w) (processing_fence d) E_Cancel (td_default\<lparr>td_actor := act\<rparr>) (sv_later sv (v_id d))
      = Inr (applied, t)"
    and rest: "(case applied of
        Done _ _ change \<Rightarrow> bindE (job_partial (w\<lparr>w_db := t\<rparr>) job user change) (\<lambda>w. Inr (ND_Cancelled, w))
      | Stale \<Rightarrow> Inr (ND_Kept, w\<lparr>w_db := t\<rparr>)) = Inr (outcome, w')"
    by (auto simp: delete_write_def Let_def result_simps)
  from rest have core: "same_core (w\<lparr>w_db := t\<rparr>) w'"
    by (cases applied) (auto simp: bindE_Inr_iff dest: job_partial_core)
  then have db: "w_db w' = t" and calls: "w_calls w' = w_calls w" and queue: "set (w_queue w) \<subseteq> set (w_queue w')"
    by (simp_all add: same_core_def)
  show ?thesis
  proof (rule leads_apply [OF run [folded db] _ calls])
    show "set (w_queue w) \<union> redispatched applied \<subseteq> set (w_queue w')" if "db_ok (w_db w)"
      using no_redispatch [OF that run cancel_not_pending] queue by simp
  qed simp
qed

lemma delete_native_leads:
  assumes "engine_handler elsewhere"
  shows "leads w (snd (delete_native sv elsewhere user act job d w))"
proof -
  have first: "leads w (elsewhere w)" using assms by (rule handler_leads)
  then show ?thesis
    using leads_trans [OF first delete_write_leads]
    by (auto simp: delete_native_def Let_def split: sum.split AccountError.split)
qed

lemma cancel_natives_leads:
  assumes "\<And>i. engine_handler (meanwhile i)"
  shows "leads w (snd (cancel_natives sv meanwhile scope job ds (report, w)))"
proof (induction ds arbitrary: report w)
  case (Cons d ds)
  obtain r u where step: "cancel_native sv (meanwhile (length ds)) scope job d (report, w) = (r, u)" by fastforce
  then have "u = snd (delete_native sv (meanwhile (length ds)) (owner scope) (Some (actor scope)) job d w)"
    by (auto simp: cancel_native_def split: prod.split_asm sum.split_asm NativeDelete.split_asm)
  then have "leads w u" by (simp add: delete_native_leads [OF assms])
  then show ?case using Cons.IH leads_trans by (simp add: step)
qed simp

lemma delete_each_leads:
  assumes "\<And>i. engine_handler (meanwhile i)"
  shows "leads w (snd (delete_each sv meanwhile user tally ds w))"
proof (induction ds arbitrary: tally w)
  case (Cons jd ds)
  obtain job d where jd: "jd = (job, d)" by (cases jd)
  show ?case
    using delete_native_leads [OF assms, of w sv "length ds" user None job d] leads_trans Cons.IH
    by (auto simp: jd split: prod.split sum.split)
qed simp

lemma delete_natives_leads:
  assumes "\<And>i. engine_handler (meanwhile i)"
  shows "leads w (snd (delete_natives sv meanwhile user account w))"
  using delete_each_leads [OF assms] by (simp add: delete_natives_def split: sum.split)

section \<open>The other calls\<close>

lemma reschedule_write_leads:
  assumes "reschedule_write sv scope job at if_match ups w = Inr (r, w')"
  shows "leads w w'"
proof -
  from assms obtain moved t where
    run: "reschedule_pending_with (w_db w) scope job at (sv_now sv) ups = Inr (moved, t)"
    and core: "same_core (put_dispatches publish_job_of (w\<lparr>w_db := t\<rparr>) (rs_dispatches moved)) w'"
    by (auto simp: reschedule_write_def Let_def result_simps split: if_splits)
  show ?thesis
  proof (rule leads_jobs [OF tx.reschedule [OF run]])
    show "same_core (w\<lparr>w_db := t\<rparr>) w'"
      using core put_dispatches_core [of "w\<lparr>w_db := t\<rparr>"] same_core_trans by blast
    show "publish_jobs_of (rs_dispatches moved) \<subseteq> set (w_queue w')"
      using put_dispatches_core [of "w\<lparr>w_db := t\<rparr>"] same_core_queue [OF core] by blast
  qed (rule reschedule_queued [OF _ run])
qed

lemma service_reschedule_leads:
  assumes "engine_handler elsewhere" and "\<And>i. engine_handler (meanwhile i)"
  shows "leads w (snd (service_reschedule sv elsewhere meanwhile scope job at if_match w))"
proof -
  have first: "leads w (elsewhere w)" using assms(1) by (rule handler_leads)
  have "leads w (snd (move_natives sv meanwhile due outcome natives w'))"
    if "reschedule_write sv scope job due if_match ups (elsewhere w) = Inr (r, w')" for due ups r w' outcome natives
    using leads_trans [OF leads_trans [OF first reschedule_write_leads [OF that]] move_natives_leads [OF assms(2)]] .
  with first show ?thesis by (auto simp: service_reschedule_def Let_def split: sum.split prod.split)
qed

lemma cancel_job_write_leads:
  assumes "cancel_job_write sv scope job w = Inr (r, w')"
  shows "leads w w'"
proof -
  from assms obtain c t u where run: "cancel_job_with_status (w_db w) scope job (sv_now sv) = Inr (c, t)"
    and "same_core (w\<lparr>w_db := t\<rparr>) u" and "same_core u w'"
    by (auto simp: cancel_job_write_def Let_def result_simps dest!: job_partial_core)
  from tx.cancel_job [OF run] same_core_trans [OF this(2,3)] show ?thesis
    by (rule leads_quiet) (rule cancel_job_queued [OF _ _ run])
qed

lemma cancel_delivery_write_leads:
  assumes "cancel_delivery_write sv scope did w = Inr (r, w')"
  shows "leads w w'"
proof -
  from assms obtain outcome change t job u f where
    run: "cancel_with_status (w_db w) scope did (sv_now sv) = Inr ((outcome, change), t)"
    and partial: "(case change of None \<Rightarrow> Inr (w\<lparr>w_db := t\<rparr>)
        | Some c \<Rightarrow> job_partial (w\<lparr>w_db := t\<rparr>) job (owner scope) c) = Inr u"
    and w': "w' = (case outcome_name outcome of None \<Rightarrow> u | Some name \<Rightarrow> service_audit u A_DeliveryCancelled scope (f name))"
    by (auto simp: cancel_delivery_write_def bindE_Inr_iff map_err_Inr_iff)
  have end_core: "same_core u w'" by (simp add: w' split: option.split)
  from partial have "same_core (w\<lparr>w_db := t\<rparr>) u" by (cases change) (auto dest: job_partial_core)
  from tx.cancel [OF run] same_core_trans [OF this end_core] show ?thesis
    by (rule leads_quiet) (rule cancel_queued [OF _ _ run])
qed

lemma service_cancel_leads:
  assumes "\<And>i. engine_handler (meanwhile i)"
  shows "leads w (snd (service_cancel_job sv meanwhile scope job w))"
    and "leads w (snd (service_cancel_delivery sv meanwhile scope did w))"
proof -
  have "leads w (snd (cancel_natives sv meanwhile scope row natives (report, w')))" if "leads w w'" for report row natives w'
    using that cancel_natives_leads [OF assms] by (rule leads_trans)
  note then_natives = this [OF cancel_job_write_leads] this [OF cancel_delivery_write_leads]
  show "leads w (snd (service_cancel_job sv meanwhile scope job w))"
    using then_natives(1)
    by (auto simp: service_cancel_job_def bindE_Inr_iff split: sum.split prod.split) (metis snd_conv)
  show "leads w (snd (service_cancel_delivery sv meanwhile scope did w))"
    using then_natives(2)
    by (auto simp: service_cancel_delivery_def bindE_Inr_iff split: sum.split prod.split) (metis snd_conv)
qed

lemma retry_write_leads:
  assumes "retry_write sv scope did ack found w = Inr (dispatch, w')"
  shows "leads w w'"
proof -
  from assms obtain t where run: "retry (w_db w) scope did ack (sv_later sv did) = Inr (dispatch, t)"
    and core: "same_core (enqueue (w\<lparr>w_db := t\<rparr>) (publish_job_of dispatch) (dp_run_at dispatch)) w'"
    by (auto simp: retry_write_def Let_def result_simps)
  show ?thesis
  proof (rule leads_jobs [OF tx.retry [OF run]])
    show "same_core (w\<lparr>w_db := t\<rparr>) w'" using core by (rule same_core_enqueue)
    show "{(publish_job_of dispatch, dp_run_at dispatch)} \<subseteq> set (w_queue w')"
      using same_core_queue [OF core] by (simp add: enqueue_def)
  qed (rule retry_queued [OF _ _ run])
qed

lemma service_retry_leads:
  assumes "engine_handler elsewhere"
  shows "leads w (snd (service_retry sv elsewhere scope did confirm ack w))"
proof -
  have first: "leads w (elsewhere w)" using assms by (rule handler_leads)
  then show ?thesis
    using leads_trans [OF first retry_write_leads]
    by (auto simp: service_retry_def Let_def split: sum.split)
qed

lemma service_resolve_leads: "leads w (snd (service_resolve sv scope did outcome w))"
proof (cases "resolve_write sv scope did outcome w")
  case (Inr r)
  then obtain st w' c t u where r: "r = (st, w')"
    and run: "resolve_with_status (w_db w) scope did outcome (sv_now sv) = Inr (c, t)"
    and "same_core (w\<lparr>w_db := t\<rparr>) u" and "same_core u w'"
    by (auto simp: resolve_write_def result_simps dest!: job_partial_core)
  from tx.resolve [OF run] same_core_trans [OF this(3,4)] have "leads w w'"
    by (rule leads_quiet) (rule resolve_queued [OF _ _ run])
  then show ?thesis by (simp add: service_resolve_def Inr r)
qed (simp add: service_resolve_def)

lemma record_cancel_partials_core:
  assumes "record_cancel_partials user results w = Inr w'"
  shows "same_core w w'"
  using assms unfolding record_cancel_partials_def
  by (rule foldE_invariant)
    (auto simp: record_cancel_partial_def bindE_Inr_iff split: option.splits if_splits
      dest!: job_partial_core intro: same_core_trans)

lemma deletion_write_leads:
  assumes "deletion_write user now w = Inr w'"
  shows "leads w w'"
proof -
  from assms obtain results t where run: "cancel_for_owner_with_status (w_db w) user now = Inr (results, t)"
    and "same_core (w\<lparr>w_db := t\<rparr>) w'"
    by (auto simp: deletion_write_def result_simps dest: record_cancel_partials_core)
  from tx.cancel_owner [OF run] this(2) show ?thesis
    by (rule leads_quiet)
      (rule cancel_rows_queued [OF _ _ run [unfolded cancel_for_owner_with_status_def]])
qed

lemma run_deletion_leads:
  assumes "\<And>i. engine_handler (meanwhile i)" and "\<And>i. engine_handler (elsewhere i)"
  shows "leads w (snd (run_deletion sv meanwhile elsewhere user w))"
proof (cases "deletion_write user (sv_now sv) w")
  case (Inr w1)
  let ?w2 = "snd (delete_natives sv meanwhile user None (elsewhere 0 w1))"
  have "leads w (elsewhere 0 w1)"
    using deletion_write_leads [OF Inr] handler_leads [OF assms(2)] by (rule leads_trans)
  then have natives: "leads w ?w2" using delete_natives_leads [OF assms(1)] by (rule leads_trans)
  then have "leads w (elsewhere 1 ?w2)" using handler_leads [OF assms(2)] by (rule leads_trans)
  with natives show ?thesis by (auto simp: run_deletion_def Inr Let_def split: prod.split sum.split)
qed (simp add: run_deletion_def)

lemma before_disconnect_leads:
  assumes "\<And>i. engine_handler (meanwhile i)"
  shows "leads w (snd (before_disconnect sv meanwhile user account w))"
  using delete_natives_leads [where meanwhile = meanwhile and account = "Some account", OF assms, of w sv user]
  by (auto simp: before_disconnect_def split: prod.split sum.split)

text \<open>The account service cancels an account's deliveries and tells this one within its transaction.\<close>

lemma deliveries_cancelled_leads:
  assumes run: "cancel_for_account_with_status (w_db w) account now = Inr (cancelled, t)"
    and "deliveries_cancelled user cancelled (w\<lparr>w_db := t\<rparr>) = Inr w'"
  shows "leads w w'"
proof -
  have "same_core (w\<lparr>w_db := t\<rparr>) w'"
    using assms(2) by (auto simp: deliveries_cancelled_def result_simps dest: record_cancel_partials_core)
  with tx.cancel_account [OF run] show ?thesis
    by (rule leads_quiet) (rule cancel_rows_queued [OF _ _ run [unfolded cancel_for_account_with_status_def]])
qed

lemma run_preflight_leads:
  assumes "\<And>account. engine_handler (\<lambda>w. snd (check account w))"
  shows "leads w (snd (run_preflight lo hi check now w))"
proof -
  define ask where "ask = (\<lambda>(answered :: nat, w) account. case check account w of
      (ok, w) \<Rightarrow> (if ok then answered + 1 else answered, w))"
  have "leads w (snd (foldl ask (n, w) accounts))" for n w accounts
  proof (induction accounts arbitrary: n w)
    case (Cons a accounts)
    have "leads w (snd (check a w))" using assms by (rule handler_leads)
    moreover obtain m where "ask (n, w) a = (m, snd (check a w))" by (cases "check a w") (simp add: ask_def)
    ultimately show ?case using Cons.IH leads_trans by simp
  qed simp
  then show ?thesis
    by (simp add: run_preflight_def flip: ask_def split: sum.split prod.split) (metis snd_conv)
qed

end
