(* ===== verification/Samples.thy ===== *)
theory Samples
  imports Service_Run Batch
begin

text \<open>
  A small world and what the worker and the service do in it, evaluated once: the examples of the
  theories on the engine and on the service rest on these facts.
\<close>

section \<open>A worker\<close>

definition sample_settings :: PublishingSettings where
  "sample_settings = \<lparr>ps_max_attempts = 5, ps_lease = 300, ps_processing_timeout = 600, ps_sweep_grace = 60,
     ps_park_grace = 60\<rparr>"

definition sample_world :: world where
  "sample_world = \<lparr>w_db = (sample_db [sample_row 10 S_Pending 3] (sample_job J_Publishing))
       \<lparr>app_settings := [(''publishing.live'', JBool True)]\<rparr>,
     w_queue = [(PublishDelivery 10 3, 100)], w_notices = [], w_audit = [], w_marks = [], w_calls = []\<rparr>"

definition sample_answers :: "AgentError + PublishOutcome \<Rightarrow> PublishAnswers" where
  "sample_answers answer =
     \<lparr>an_shutdown = False, an_available = Inr Available,
      an_bound = Inr \<lparr>bc_account = va_target sample_variant, bc_descriptor = sample_descriptor, bc_config = JObject [], bc_grant = 50,
        bc_commenter = False, bc_direct = False, bc_native = False\<rparr>,
      an_media = (\<lambda>_ _. Inr []), an_unicode = plain_unicode, an_uuid = Map.empty, an_validated = Inr [], an_attempt = 70, an_answer = answer,
      an_lost = False, an_cancel = False, an_stopping = False, an_saved = False, an_fresh = []\<rparr>"

definition sample_clocks :: Clocks where
  "sample_clocks = \<lparr>ck_claim = 200, ck_native = 201, ck_start = 202, ck_record = 203, ck_db = 203\<rparr>"

definition sample_run :: "PublishAnswers \<Rightarrow> world \<Rightarrow> JobError option \<times> world" where
  "sample_run an w =
     run_publish sample_cal (\<lambda>n. n) sample_settings [''x''] (\<lambda>_ w. w) an sample_clocks 10 3 w"

definition sample_receipt :: PublishReceipt where
  "sample_receipt = \<lparr>pr_remote_id = Some ''r1'', pr_remote_url = None, pr_container_ref = None, pr_remote_publish_at = None\<rparr>"

text \<open>The steps of the run, with the lease that is in range.\<close>

definition sample_prepare :: "PublishAnswers \<Rightarrow> world \<Rightarrow> (JobError + Prepared option) \<times> world" where
  "sample_prepare an w =
     (case claim (w_db w) 10 3 (ck_claim sample_clocks) 300 of
        Inl e \<Rightarrow> (Inl (data_error e), w)
      | Inr (None, t) \<Rightarrow> (Inr None, w\<lparr>w_db := t\<rparr>)
      | Inr (Some claimed, t) \<Rightarrow>
          prepare_claimed sample_cal [''x''] an (\<lambda>_ w. w) (ck_claim sample_clocks) claimed (w\<lparr>w_db := t\<rparr>))"

definition sample_steps :: "PublishAnswers \<Rightarrow> world \<Rightarrow> JobError option \<times> world" where
  "sample_steps an w =
     (case sample_prepare an w of
        (Inl e, w) \<Rightarrow> (Some e, w)
      | (Inr None, w) \<Rightarrow> (None, w)
      | (Inr (Some p), w) \<Rightarrow>
          publish sample_cal (\<lambda>n. n) sample_settings (\<lambda>_ w. w) an sample_clocks p w)"

lemma sample_prepare_eq:
  assumes "\<not> an_shutdown an"
  shows "prepare sample_cal sample_settings [''x''] an (\<lambda>_ w. w) sample_clocks 10 3 w = sample_prepare an w"
proof -
  have "\<not> time_delta_max < ps_lease sample_settings"
    by (simp add: sample_settings_def time_delta_max_def ns_per_ms_def)
  moreover have "ps_lease sample_settings = 300"
    by (simp add: sample_settings_def)
  ultimately show ?thesis using assms by (simp add: prepare_def sample_prepare_def)
qed

lemma sample_run_eq: "\<not> an_shutdown an \<Longrightarrow> sample_run an w = sample_steps an w"
  by (simp add: sample_run_def run_publish_def sample_prepare_eq sample_steps_def)

section \<open>A service\<close>

definition sample_content :: StoredContent where
  "sample_content = \<lparr>sc_kind = PK_Post, sc_text = ''hi'', sc_media = [], sc_link = None, sc_tags = [],
     sc_disclose_ai_generated = False, sc_reply_to = None, sc_overrides = []\<rparr>"

definition sample_service :: ServiceAnswers where
  "sample_service =
     \<lparr>sv_content = (\<lambda>_ _. sample_content), sv_url = (\<lambda>u. Some u), sv_reply_to = (\<lambda>_. None), sv_override = (\<lambda>_. None),
      sv_uuid = Map.empty, sv_unicode = plain_unicode, sv_media = (\<lambda>_ _. Inr []),
      sv_bound = (\<lambda>_. Inr \<lparr>bc_account = va_target sample_variant, bc_descriptor = sample_descriptor,
        bc_config = JObject [], bc_grant = 50, bc_commenter = False, bc_direct = False, bc_native = True\<rparr>),
      sv_bound_later = (\<lambda>_. Inl AE_NotFound), sv_moved = (\<lambda>_ _ _. Inl AgentCancelled), sv_deleted = (\<lambda>_ _. Inr ()),
      sv_job = 21, sv_fresh = (\<lambda>i. 11 + i), sv_now = 200, sv_later = (\<lambda>_. 201), sv_db_clock = 200\<rparr>"

definition idle_world :: "delivery_row list \<Rightarrow> JobStatus \<Rightarrow> world" where
  "idle_world rows st = \<lparr>w_db = sample_db rows (sample_job st), w_queue = [], w_notices = [], w_audit = [],
     w_marks = [], w_calls = []\<rparr>"

definition sample_input :: PublishInput where
  "sample_input = \<lparr>pi_targets = [40], pi_at = None, pi_native_schedule = False, pi_dry_run = False, pi_confirm = True,
     pi_if_match = 1\<rparr>"

abbreviation retried_world :: world where
  "retried_world \<equiv> idle_world [sample_row 10 S_OutcomeUnknown 3] J_Publishing"

definition busy_world :: "DeliveryState \<Rightarrow> world" where
  "busy_world st = (idle_world [sample_row 10 S_Pending 3, sample_row 11 st 2] J_Publishing)
     \<lparr>w_queue := [(PublishDelivery 10 3, 100)]\<rparr>"

section \<open>A batch\<close>

text \<open>Three recipients: one is sent, one fails for now, one is refused with a reason that names it.\<close>

definition batch_world :: world where
  "batch_world = \<lparr>w_db = (sample_campaign (map (\<lambda>i. sample_send i DS_Queued (Some 7)) [1, 2, 3]))
       \<lparr>contacts := map (\<lambda>i. sample_contact (100 + i) i) [1, 2, 3]\<rparr>,
     w_queue = [], w_notices = [], w_audit = [], w_marks = [], w_calls = []\<rparr>"

definition sample_sent :: "DirectRecipient list \<Rightarrow> AgentError + (uuid \<times> DirectSendOutcome) list" where
  "sample_sent _ = Inr [(1, DSO_Sent (Some ''m'')), (2, DSO_Failed True ''smtp_4_2_1''),
     (3, DSO_Failed False ''550 a@b.c unknown'')]"

definition sample_batch ::
  "(DirectRecipient list \<Rightarrow> AgentError + (uuid \<times> DirectSendOutcome) list) \<Rightarrow> JobError option \<times> world" where
  "sample_batch send = send_batch sample_cal (\<lambda>n. n) (\<lambda>_. []) send (\<lambda>fates. fates) (\<lambda>w. w)
     \<lparr>bk_start = 200, bk_fail = 200, bk_answer = 200, bk_record = 201, bk_finish = 202, bk_db = 202\<rparr>
     (sample_claim\<lparr>c_operation := Op_Direct\<rparr>)
     \<lparr>bc_account = va_target sample_variant, bc_descriptor = sample_descriptor, bc_config = JObject [], bc_grant = 50,
       bc_commenter = False, bc_direct = True, bc_native = False\<rparr>
     \<lparr>cap_key = \<lparr>qk_owner = 1, qk_account = 40, qk_platform = ''x'', qk_bucket = EMAIL_CAP_BUCKET, qk_period_start = 0\<rparr>,
       cap_limit = 500, cap_resume_at = 300\<rparr>
     7 (map send_view (direct_sends (w_db batch_world))) None batch_world"

section \<open>Evaluation\<close>

definition seen :: "world \<Rightarrow> (uuid \<times> int) list \<times> (uuid \<times> uuid \<times> DeliveryState \<times> int \<times> timestamp option) list" where
  "seen w = (w_calls w, map (\<lambda>r. (d_id r, d_owner_id r, d_state r, d_dispatch_gen r, d_next_attempt_at r)) (deliveries (w_db w)))"

text \<open>Where nothing was found there is nothing to tag, and no id to print.\<close>

lemma tagged_code [code]:
  "tagged found account =
     (if found = [] then [] else map (param ''account_id'' (JString (uuid_text account))) found)"
  by (simp add: tagged_def)

lemma sample_evaluations:
  shows sample_world_db: "db_ok (w_db sample_world)"
    and sample_prepared: "case fst (sample_prepare (sample_answers (Inl AgentCancelled)) sample_world) of
      Inr (Some p) \<Rightarrow> True | _ \<Rightarrow> False"
    and sample_published_steps: "seen (snd (sample_steps (sample_answers (Inr (PO_Published sample_receipt))) sample_world))
      = ([(10, 3)], [(10, 1, S_Published, 3, Some 100)])"
    and sample_stopped_steps: "seen (snd (sample_steps ((sample_answers (Inl AgentCancelled))\<lparr>an_stopping := True\<rparr>) sample_world))
      = ([(10, 3)], [(10, 1, S_Pending, 4, Some 203)])"
    and sample_created: "case service_create_job (\<lambda>_. []) sample_service (\<lambda>_ w. w) (own 1) 30 sample_input
        (idle_world [sample_row 10 S_Published 3] J_Published) of
      (Inr created, w') \<Rightarrow> w_queue w' = [(PublishDelivery 11 0, 200)] | _ \<Rightarrow> False"
    and retried_world_db: "db_ok (w_db retried_world)"
    and sample_retried: "case service_retry sample_service (\<lambda>w. w) (own 1) 10 True True retried_world of
      (Inr _, w') \<Rightarrow> map d_dispatch_gen (deliveries (w_db w')) = [4] | _ \<Rightarrow> False"
    and busy_world_db: "db_ok (w_db (busy_world S_InFlight)) \<and> db_ok (w_db (busy_world S_Published))"
    and sample_cancelled: "case service_cancel_job sample_service (\<lambda>_ w. w) (own 1) 20 (busy_world S_InFlight) of
      (Inr report, _) \<Rightarrow> rep_cancelled report = [10] \<and> rep_requested report = [11] | _ \<Rightarrow> False"
    and sample_deleted: "case run_deletion sample_service (\<lambda>_ w. w) (\<lambda>_ w. w) 1 (busy_world S_Published) of
      (None, w') \<Rightarrow> map (\<lambda>r. (d_id r, d_owner_id r)) (deliveries (w_db w')) = [(10, 1), (11, 1)] | _ \<Rightarrow> False"
    and sample_batch_rows: "case sample_batch sample_sent of
      (None, w') \<Rightarrow> map (\<lambda>r. (s_id r, s_state r, s_tries r, s_error_code r)) (direct_sends (w_db w'))
        = [(1, DS_Sent, 0, None), (2, DS_Queued, 1, None), (3, DS_Failed, 0, Some ''rejected'')] | _ \<Rightarrow> False"
  by code_simp+

lemma busy_world_ok: "world_ok (busy_world S_InFlight)" "world_ok (busy_world S_Published)"
proof -
  have "queued (set (w_queue (busy_world st))) (w_db (busy_world st))" if "st \<noteq> S_Pending" for st
    using that
    by (auto simp: busy_world_def queued_def has_job_def idle_world_def sample_db_def sample_row_def table_simps
        split: if_splits)
  then show "world_ok (busy_world S_InFlight)" "world_ok (busy_world S_Published)"
    using busy_world_db by (simp_all add: world_ok_def)
qed

end
