(* ===== verification/Service_Spec.thy ===== *)
theory Service_Spec
  imports Samples
begin

text \<open>
  What a call of the publishing service that succeeded had checked and what it left behind: a job is
  created only from a post and targets that passed, a retry is confirmed, allowed and queued under a
  new generation, and the report of a cancelled job accounts for each of its open deliveries.
\<close>

section \<open>Checked targets\<close>

text \<open>The variant \<open>v\<close> of the post for \<open>account\<close> passed every check the service makes.\<close>

definition target_passed ::
  "ServiceAnswers \<Rightarrow> PublishInput \<Rightarrow> Post \<Rightarrow> (uuid \<times> PostOverride) list \<Rightarrow> timestamp option \<Rightarrow> MediaAsset list
   \<Rightarrow> uuid \<Rightarrow> Variant \<Rightarrow> bool" where
  "target_passed sv inp base overrides at assets account v \<longleftrightarrow>
     (\<exists>bound. sv_bound sv account = Inr bound
        \<and> resolve_variant base (bc_account bound) (map_of (rev overrides) account) = Inr v
        \<and> (let (wrong, checked) = audience_checked sv (operation_of (bc_descriptor bound) v) v
           in wrong = [] \<and> publishable (sv_unicode sv)
                (target_input (bc_descriptor bound) checked assets (schedule_of at (pi_native_schedule inp)) (sv_now sv))))"

lemma resolve_variant_refused: "resolve_variant post target over1 = Inl found \<Longrightarrow> found \<noteq> []"
  by (auto simp: resolve_variant_def Let_def split: option.splits if_splits)

lemma tagged_empty [simp]: "tagged found account = [] \<longleftrightarrow> found = []"
  by (simp add: tagged_def)

lemma bind_account_Inr [simp]: "bind_account sv account = Inr bound \<longleftrightarrow> sv_bound sv account = Inr bound"
  by (simp add: bind_account_def map_err_Inr_iff)

lemma resolve_fold:
  assumes "foldE (resolve_one sv base overrides) (unresolved, resolved) accounts = Inr ([], all_resolved)"
  shows "unresolved = [] \<and> (\<exists>new. all_resolved = resolved @ new
    \<and> list_all2 (\<lambda>account (bound, v). sv_bound sv account = Inr bound
        \<and> resolve_variant base (bc_account bound) (map_of (rev overrides) account) = Inr v) accounts new)"
  using assms
proof (induction accounts arbitrary: unresolved resolved)
  case (Cons account accounts)
  let ?ov = "map_of (rev overrides) account"
  from Cons.prems obtain u r where step: "resolve_one sv base overrides (unresolved, resolved) account = Inr (u, r)"
    and rest: "foldE (resolve_one sv base overrides) (u, r) accounts = Inr ([], all_resolved)"
    by (auto simp: bindE_Inr_iff)
  from Cons.IH [OF rest] obtain new where u: "u = []" and new: "all_resolved = r @ new"
    "list_all2 (\<lambda>account (bound, v). sv_bound sv account = Inr bound
        \<and> resolve_variant base (bc_account bound) (map_of (rev overrides) account) = Inr v) accounts new"
    by blast
  from step obtain bound where bound: "sv_bound sv account = Inr bound"
    by (auto simp: resolve_one_def bindE_Inr_iff)
  show ?case
  proof (cases "resolve_variant base (bc_account bound) ?ov")
    case (Inl found)
    then have "u = unresolved @ tagged found account"
      using step by (simp add: resolve_one_def bind_account_def bound)
    then show ?thesis using u resolve_variant_refused [OF Inl] by simp
  next
    case (Inr v)
    then have "u = unresolved" and "r = resolved @ [(bound, v)]"
      using step by (simp_all add: resolve_one_def bind_account_def bound)
    then show ?thesis using u new bound Inr by (intro conjI exI [of _ "(bound, v) # new"]) auto
  qed
qed simp

lemma check_targets_passed:
  assumes "check_targets sv base overrides inp at (sv_now sv) = Inr targets"
  shows "\<exists>assets. list_all2 (target_passed sv inp base overrides at assets) (pi_targets inp) (map tg_variant targets)"
proof -
  from assms obtain resolved assets where
    fold: "foldE (resolve_one sv base overrides) ([], []) (pi_targets inp) = Inr ([], resolved)"
    and clean: "concat (map fst (map (check_one sv inp at (sv_now sv) assets) resolved)) = []"
    and targets: "targets = map snd (map (check_one sv inp at (sv_now sv) assets) resolved)"
    by (auto simp: check_targets_def bindE_Inr_iff Let_def split: if_split_asm)
  let ?check = "check_one sv inp at (sv_now sv) assets"
  have one: "target_passed sv inp base overrides at assets account (tg_variant (snd (?check (bound, v))))"
    if "fst (?check (bound, v)) = []" and "sv_bound sv account = Inr bound"
      and "resolve_variant base (bc_account bound) (map_of (rev overrides) account) = Inr v" for account bound v
    using that by (auto simp: check_one_def target_passed_def Let_def validate_target_iff split: prod.splits)
  have "list_all2 (\<lambda>account (bound, v). sv_bound sv account = Inr bound
      \<and> resolve_variant base (bc_account bound) (map_of (rev overrides) account) = Inr v) (pi_targets inp) resolved"
    using resolve_fold [OF fold] by simp
  then have "list_all2 (target_passed sv inp base overrides at assets) (pi_targets inp)
      (map (\<lambda>bv. tg_variant (snd (?check bv))) resolved)"
    unfolding list.rel_map
  proof (rule list.rel_mono_strong)
    fix account bv
    assume "bv \<in> set resolved" and "case bv of (bound, v) \<Rightarrow> sv_bound sv account = Inr bound
      \<and> resolve_variant base (bc_account bound) (map_of (rev overrides) account) = Inr v"
    moreover from this(1) clean have "fst (?check bv) = []" by simp
    ultimately show "target_passed sv inp base overrides at assets account (tg_variant (snd (?check bv)))"
      using one by (auto split: prod.splits)
  qed
  then show ?thesis by (auto simp: targets comp_def)
qed

section \<open>The job that was created\<close>

lemma put_dispatches_db [simp]: "w_db (put_dispatches job_of w ds) = w_db w"
  using put_dispatches_core [of w job_of ds] by (simp add: same_core_def)

lemma service_audit_db [simp]: "w_db (service_audit w kind scope details) = w_db w"
  by (simp add: service_audit_def)

lemma refresh_keeps_snapshot:
  assumes "refresh_job_status s job now = Inr (status, t)"
  shows "map (\<lambda>j. (j_id j, j_snapshot j)) (publish_jobs t) = map (\<lambda>j. (j_id j, j_snapshot j)) (publish_jobs s)"
  using assms
  by (auto simp: refresh_job_status_def Let_def map_sql_update_same split: option.splits if_splits)

lemma insert_rows_jobs:
  assumes "foldE (\<lambda>s target. insert_delivery_row s (row target)) s targets = Inr t"
  shows "publish_jobs t = publish_jobs s"
  using assms
  by (rule foldE_invariant) (auto simp: insert_delivery_row_def split: if_splits)

lemma create_job_stores:
  assumes "create_job sha256 s scope locked new clock now = Inr (created, t)"
  shows "(nj_id new, nj_snapshot new) \<in> set (map (\<lambda>j. (j_id j, j_snapshot j)) (publish_jobs t))
    \<and> cj_job created = nj_id new \<and> nj_targets new \<noteq> []"
proof -
  from assms obtain s1 s2 st row where
    job: "insert_job_row s (new_job_row (owner scope) (Some (actor scope)) locked new clock) = Inr s1"
    and rows: "foldE (\<lambda>s target. insert_delivery_row s (row target)) s1 (nj_targets new) = Inr s2"
    and refresh: "refresh_job_status s2 (nj_id new) now = Inr (st, t)"
    and "cj_job created = nj_id new" and "nj_targets new \<noteq> []"
    by (auto simp: create_job_def insert_job_def result_simps split: if_splits)
  moreover have "(nj_id new, nj_snapshot new) \<in> set (map (\<lambda>j. (j_id j, j_snapshot j)) (publish_jobs s1))"
    using job by (auto simp: insert_job_row_def new_job_row_def split: if_splits)
  ultimately show ?thesis
    using insert_rows_jobs [OF rows] refresh_keeps_snapshot [OF refresh] by simp
qed

lemma create_checks_passed:
  assumes "create_checks sv s scope post inp = Inr (at, targets)"
  shows "(pi_dry_run inp \<or> pi_confirm inp) \<and> require scope (if pi_dry_run inp then Cap_Edit else Cap_Publish) = Inr ()
    \<and> list_all (allows_account scope) (pi_targets inp) \<and> due_time (pi_at inp) (sv_now sv) = Inr at
    \<and> (\<exists>base overrides assets. read_post sv s scope post (pi_if_match inp) = Inr (base, overrides)
         \<and> list_all2 (target_passed sv inp base overrides at assets) (pi_targets inp) (map tg_variant targets))"
  using assms check_targets_passed [of sv _ _ inp at targets]
  by (auto simp: create_checks_def require_cap_def result_simps list_ex_iff list_all_iff split: if_split_asm)

lemma lock_post_passed:
  assumes "lock_post s scope post (Some version) = Inr row"
  shows "row \<in> set (posts s) \<and> p_owner_id row = owner scope \<and> p_id row = post \<and> p_version row = version
    \<and> (\<forall>j \<in> set (publish_jobs s). j_post_id j = post \<longrightarrow> j_status j \<noteq> J_Scheduled \<and> j_status j \<noteq> J_Publishing)"
  using assms
  by (auto simp: lock_post_def lock_row_def result_simps list_ex_iff find_Some_iff split: if_split_asm)

lemma service_create_job_cases:
  assumes "service_create_job sha256 sv meanwhile scope post inp w = (Inr created, w')"
  obtains at targets where "create_checks sv (w_db w) scope post inp = Inr (at, targets)"
    and "create_write sha256 sv scope post inp at targets (meanwhile 0 w) = Inr (created, w')"
  using assms by (auto simp: service_create_job_def Let_def split: sum.split_asm)

lemma create_write_stores:
  assumes "create_write sha256 sv scope post inp at targets w = Inr (created, w')"
  shows "(\<exists>row. lock_post (w_db w) scope post (Some (pi_if_match inp)) = Inr row)
    \<and> (\<exists>j \<in> set (publish_jobs (w_db w')). j_id j = cj_job created \<and> sn_variants (j_snapshot j) = map tg_variant targets)"
proof -
  from assms obtain row t where lock: "lock_post (w_db w) scope post (Some (pi_if_match inp)) = Inr row"
    and create: "create_job sha256 (w_db w) scope row (new_job_of sv post inp at targets) (sv_db_clock sv) (sv_later sv post)
      = Inr (created, t)"
    and w': "w_db w' = t"
    by (auto simp: create_write_def Let_def result_simps split: if_splits)
  from create_job_stores [OF create] obtain j where "j \<in> set (publish_jobs t)" and "j_id j = cj_job created"
    and "j_snapshot j = nj_snapshot (new_job_of sv post inp at targets)"
    by auto
  with lock show ?thesis unfolding w' by (intro conjI exI bexI) (auto simp: new_job_of_def)
qed

section \<open>The delivery that is retried\<close>

text \<open>The variant of the job's snapshot passed the checks again, with all its media there and ready.\<close>

definition retry_passed :: "ServiceAnswers \<Rightarrow> db \<Rightarrow> Delivery \<Rightarrow> bool" where
  "retry_passed sv s d \<longleftrightarrow>
     (\<exists>bound snapshot whole. sv_bound sv (v_account_id d) = Inr bound \<and> job_snapshot s (v_job_id d) = Inr snapshot
        \<and> assemble (sv_media sv) snapshot (v_account_id d) = Inr whole \<and> list_all ready (asm_assets whole)
        \<and> (let (wrong, checked) = audience_checked sv (v_operation d) (asm_variant whole)
           in wrong = [] \<and> publishable (sv_unicode sv)
                (target_input (bc_descriptor bound) checked (asm_assets whole) Sch_Now (sv_now sv))))"

lemma retry_checks_passed:
  assumes "retry_checks sv s scope did confirm = Inr found"
  shows "confirm \<and> require scope Cap_Publish = Inr () \<and> get_delivery s scope did = Inr found \<and> retry_passed sv s found"
proof -
  from assms obtain d snapshot where first: "confirm" "require scope Cap_Publish = Inr ()" "get_delivery s scope did = Inr d"
      "job_snapshot s (v_job_id d) = Inr snapshot"
    and checks: "(case transition (v_state d) (E_UserRetry True) of
        Inl (NotAllowed _ _) \<Rightarrow> Inl PE_NotRetryable
      | _ \<Rightarrow> bindE (revalidate_retry sv d snapshot (sv_now sv)) (\<lambda>_. Inr d)) = Inr found"
    by (auto simp: retry_checks_def require_cap_def bindE_Inr_iff map_err_Inr_iff split: if_split_asm)
  have again: "revalidate_retry sv found snapshot (sv_now sv) = Inr ()" and "d = found"
    using checks
    by (cases "transition (v_state d) (E_UserRetry True)"; auto simp: bindE_Inr_iff split: TransitionError.split_asm)+
  note first = first [unfolded \<open>d = found\<close>]
  from again obtain bound where bound: "sv_bound sv (v_account_id found) = Inr bound"
    by (auto simp: revalidate_retry_def bindE_Inr_iff)
  note rest = again [unfolded revalidate_retry_def bind_account_def bound, simplified]
  from rest obtain whole where whole: "assemble (sv_media sv) snapshot (v_account_id found) = Inr whole"
    by (auto split: sum.split_asm AssembleError.split_asm)
  with rest first bound assembled [OF whole] show ?thesis
    by (auto simp: retry_passed_def Let_def validate_target_iff split: prod.splits if_split_asm)
qed

lemma lock_one_row:
  assumes "db_inv X s" and "lock_one s scope did = Inr d"
  obtains r where "row_by d_id did (deliveries s) = Some r" and "d = delivery_of r" and "visible scope r"
proof -
  from assms(2) obtain r where r: "r \<in> set (deliveries s)" "visible scope r" "d_id r = did" "d = delivery_of r"
    by (auto simp: lock_one_def ok_or_Inr_iff find_Some_iff dest: nth_mem)
  then show ?thesis using db_inv_unique [OF assms(1) r(1)] that by simp
qed

lemma retry_effect:
  assumes ok: "db_ok s" and run: "retry s scope did ack now = Inr (dispatch, t)"
  obtains old new where "row_by d_id did (deliveries s) = Some old" and "visible scope old"
    and "transition (d_state old) (E_UserRetry ack) = Inr S_Pending"
    and "row_by d_id did (deliveries t) = Some new" and "d_state new = S_Pending"
    and "d_dispatch_gen new = d_dispatch_gen old + 1" and "d_attempt_count new = 0"
    and "publish_job_of dispatch = PublishDelivery did (d_dispatch_gen new)"
  using run
proof (rule retry_cases)
  fix d st change u
  assume lock: "lock_one s scope did = Inr d"
    and ev: "apply_event s (fence_of d) (E_UserRetry ack)
       (td_default\<lparr>td_reset_attempts := True, td_actor := Some (actor scope)\<rparr>) now = Inr (Done st (Some dispatch) change, u)"
    and t: "t = (if v_operation d = Op_Direct then forget_counts u did else u)"
  from lock_one_row [OF ok lock] obtain r where r: "row_by d_id did (deliveries s) = Some r" "d = delivery_of r" "visible scope r" .
  have did: "d_id r = did" by (rule row_by_key [OF r(1)])
  from ok ev show ?thesis
  proof (rule apply_event_row)
    fix old cs to
    let ?data = "td_default\<lparr>td_reset_attempts := True, td_actor := Some (actor scope)\<rparr>"
    assume old: "row_by d_id (f_id (fence_of d)) (deliveries s) = Some old"
      and to: "transition (f_expected (fence_of d)) (E_UserRetry ack) = Inr to"
      and st: "st = apply_target s (fence_of d) to"
      and new: "row_by d_id (f_id (fence_of d)) (deliveries u) = Some ((apply_row st ?data now old)\<lparr>d_direct_counts := cs\<rparr>)"
      and dispatch: "Some dispatch = redispatch_of st (apply_row st ?data now old)"
    have [simp]: "old = r" using old r did by simp
    have pending: "st = S_Pending" using dispatch by (auto simp: redispatch_of_def split: option.split_asm if_split_asm)
    then have "to = S_Pending" using st by (auto simp: apply_target_def split: if_split_asm)
    moreover have "\<exists>cs. row_by d_id did (deliveries t) = Some ((apply_row st ?data now r)\<lparr>d_direct_counts := cs\<rparr>)"
      using new did r(2) by (auto simp: t forget_counts_def row_by_write keeps_keys_def)
    moreover have "publish_job_of dispatch = PublishDelivery did (d_dispatch_gen r + 1)"
      using dispatch pending did
      by (auto simp: redispatch_of_def publish_job_of_def apply_row_def split: option.split_asm)
    ultimately show ?thesis
      using that [OF r(1,3)] to pending r(2) by (auto simp: apply_row_def)
  qed
qed

lemma service_retry_cases:
  assumes "service_retry sv elsewhere scope did confirm ack w = (Inr dispatch, w')"
  obtains found where "retry_checks sv (w_db w) scope did confirm = Inr found"
    and "retry_write sv scope did ack found (elsewhere w) = Inr (dispatch, w')"
  using assms by (auto simp: service_retry_def Let_def split: sum.split_asm)

lemma retry_write_effect:
  assumes "retry_write sv scope did ack found w = Inr (dispatch, w')"
  obtains t where "retry (w_db w) scope did ack (sv_later sv did) = Inr (dispatch, t)" and "w_db w' = t"
    and "(publish_job_of dispatch, dp_run_at dispatch) \<in> set (w_queue w')"
  using assms by (auto simp: retry_write_def Let_def result_simps service_audit_def enqueue_def)

section \<open>The report of a cancelled job\<close>

definition reported :: "CancelReport \<Rightarrow> uuid list" where
  "reported report = rep_cancelled report @ rep_requested report @ rep_not_cancellable report"

definition is_cancelled :: "db \<Rightarrow> uuid \<Rightarrow> bool" where
  "is_cancelled s did \<longleftrightarrow> (\<exists>r. row_by d_id did (deliveries s) = Some r \<and> d_state r = S_Cancelled)"

lemma file_outcomes:
  "mset (reported (foldl file_outcome report outcomes))
     = mset (reported report) + mset (map fst (filter (\<lambda>r. \<not> needs_agent r) outcomes))
   \<and> set (rep_cancelled (foldl file_outcome report outcomes))
     = set (rep_cancelled report) \<union> {i. (i, Cancelled) \<in> set outcomes}"
proof (induction outcomes arbitrary: report)
  case (Cons r outcomes)
  obtain i outcome where r: "r = (i, outcome)" by (cases r)
  have "mset (reported (file_outcome report r)) = mset (reported report) + mset (if needs_agent r then [] else [i])"
    and "set (rep_cancelled (file_outcome report r)) = set (rep_cancelled report) \<union> {j. (j, Cancelled) = r}"
    by (cases outcome; auto simp: r file_outcome_def reported_def needs_agent_def)+
  then show ?case using Cons.IH [of "file_outcome report r"] by (auto simp: r)
qed simp

lemma file_outcomes_empty:
  "mset (reported (foldl file_outcome empty_report outcomes)) = mset (map fst (filter (\<lambda>r. \<not> needs_agent r) outcomes))"
  "set (rep_cancelled (foldl file_outcome empty_report outcomes)) = {i. (i, Cancelled) \<in> set outcomes}"
  using file_outcomes [of empty_report outcomes] by (simp_all add: empty_report_def reported_def)

lemma get_delivery_id: "get_delivery s scope did = Inr d \<Longrightarrow> v_id d = did"
  by (auto simp: get_delivery_def bindE_Inr_iff ok_or_Inr_iff find_Some_iff)

lemma get_deliveries_ids: "mapE (get_delivery s scope) ids = Inr ds \<Longrightarrow> map v_id ds = ids"
  by (induction ids arbitrary: ds) (auto simp: bindE_Inr_iff dest: get_delivery_id)

text \<open>A cancelled delivery stays so over whatever the engine does.\<close>

lemma no_regress_cancelled: "no_regress s t \<Longrightarrow> is_cancelled s did \<Longrightarrow> is_cancelled t did"
  unfolding is_cancelled_def by (metis no_regress_row ahead_settled settled_def)

lemma leads_cancelled:
  assumes "leads w w'" and "world_ok w" and "is_cancelled (w_db w) did"
  shows "is_cancelled (w_db w') did"
proof -
  from assms(1,2) obtain ls where "run tx (w_db w) ls (w_db w')" by (auto simp: leads_def accounted_def)
  moreover from assms(2) have "db_ok (w_db w)" by (simp add: world_ok_def)
  ultimately show ?thesis using starts.run_le no_regress_cancelled assms(3) by blast
qed

lemma apply_cancel:
  assumes "db_inv X s" and "apply_event s f E_Cancel data now = Inr (Done st dispatch change, t)"
  shows "is_cancelled t (f_id f)"
  using assms
proof (rule apply_event_row)
  fix old cs to
  assume "transition (f_expected f) E_Cancel = Inr to" and "st = apply_target s f to"
    and "row_by d_id (f_id f) (deliveries t) = Some ((apply_row st data now old)\<lparr>d_direct_counts := cs\<rparr>)"
  moreover from this(1) have "to = S_Cancelled" by (auto simp: transition_iff_move elim: move_elim)
  ultimately show ?thesis by (simp add: is_cancelled_def apply_target_def apply_row_def)
qed

lemma cancel_loaded_cancelled:
  assumes "db_inv X s" and "cancel_loaded s d act now = Inr ((Cancelled, change), t)"
  shows "is_cancelled t (v_id d)"
proof -
  from assms(2) have "cancel_now s d act now = Inr ((Cancelled, change), t)"
    by (auto simp: cancel_loaded_def request_cancel_def result_simps Let_def
        split: DeliveryState.split_asm if_split_asm option.split_asm)
  then show ?thesis
  proof (rule cancel_now_cases)
    fix applied
    assume "apply_event s (fence_of d) E_Cancel (td_default\<lparr>td_actor := act\<rparr>) now = Inr (applied, t)"
      and "fst (Cancelled, change) = (if applied = Stale then NotCancellable else Cancelled)"
    then show ?thesis using apply_cancel [OF assms(1), of "fence_of d"] by (cases applied) auto
  qed
qed

lemma cancel_each_outcomes:
  assumes "db_inv X s" and "foldE (cancel_each act now) ((outcomes, before), s) ds = Inr ((outcomes', before'), t)"
    and "\<And>i. (i, Cancelled) \<in> set outcomes \<Longrightarrow> is_cancelled s i"
  shows "map fst outcomes' = map fst outcomes @ map v_id ds \<and> (\<forall>i. (i, Cancelled) \<in> set outcomes' \<longrightarrow> is_cancelled t i)"
  using assms
proof (induction ds arbitrary: outcomes before s)
  case (Cons d ds)
  from Cons.prems(2) obtain outcome change u where load: "cancel_loaded s d (Some act) now = Inr ((outcome, change), u)"
    and rest: "foldE (cancel_each act now) ((outcomes @ [(v_id d, outcome)], coalesce before (map_option jc_before change)), u) ds
      = Inr ((outcomes', before'), t)"
    by (auto simp: cancel_each_def [of act now "((outcomes, before), s)"] bindE_Inr_iff)
  have "is_cancelled u i" if "(i, Cancelled) \<in> set (outcomes @ [(v_id d, outcome)])" for i
    using that cancel_loaded_cancelled [OF Cons.prems(1)] load Cons.prems(3)
      no_regress_cancelled [OF advance_no_regress [OF cancel_loaded_quiet [OF Cons.prems(1) load]]]
    by auto
  from Cons.IH [OF cancel_loaded_ok [OF Cons.prems(1) load] rest this] show ?case by simp
qed simp

definition open_ids :: "db \<Rightarrow> uuid \<Rightarrow> uuid list" where
  "open_ids s job = map d_id (filter (\<lambda>r. d_job_id r = job \<and> \<not> is_terminal (d_state r)) (deliveries s))"

lemma locked_open_ids:
  "mset (map v_id (filter (\<lambda>d. \<not> is_terminal (v_state d)) (lock_job_deliveries s job))) = mset (open_ids s job)"
  by (simp add: lock_job_deliveries_def open_ids_def filter_map comp_def filter_sort conj_commute)

lemma cancel_job_write_report:
  assumes ok: "db_ok (w_db w)" and run: "cancel_job_write sv scope job w = Inr ((report, row, natives), w')"
  shows "mset (reported report) + mset (map v_id natives) = mset (open_ids (w_db w) job)"
    and "\<And>i. i \<in> set (rep_cancelled report) \<Longrightarrow> is_cancelled (w_db w') i"
proof -
  from run obtain outcomes change t u where
    cancel: "cancel_job_with_status (w_db w) scope job (sv_now sv) = Inr ((outcomes, change), t)"
    and natives: "mapE (get_delivery t scope) (map fst (filter needs_agent outcomes)) = Inr natives"
    and report: "report = foldl file_outcome empty_report outcomes"
    and "same_core (w\<lparr>w_db := t\<rparr>) u" and "same_core u w'"
    by (auto simp: cancel_job_write_def Let_def result_simps dest!: job_partial_core)
  then have db: "w_db w' = t" by (simp add: same_core_def)
  let ?s0 = "mark_cancelled (w_db w) job (sv_now sv) (actor scope)"
  from cancel obtain s1 before c where
    fold: "foldE (cancel_each (actor scope) (sv_now sv)) (([], None), ?s0)
       (filter (\<lambda>d. \<not> is_terminal (v_state d)) (lock_job_deliveries (w_db w) job)) = Inr ((outcomes, before), s1)"
    and touch: "touch_job s1 job (sv_now sv) = Inr (c, t)"
    by (auto simp: cancel_job_with_status_def result_simps dest: lock_visible_job_deliveries)
  have start: "db_inv UNIV ?s0" using ok by (rule mark_cancelled_inv) simp
  from cancel_each_outcomes [OF start fold] have
    ids: "map fst outcomes = map v_id (filter (\<lambda>d. \<not> is_terminal (v_state d)) (lock_job_deliveries (w_db w) job))"
    and gone: "\<And>i. (i, Cancelled) \<in> set outcomes \<Longrightarrow> is_cancelled s1 i"
    by simp_all
  have "mset (reported report) + mset (map v_id natives) = mset (map fst outcomes)"
    using get_deliveries_ids [OF natives]
    by (simp add: report file_outcomes_empty add.commute flip: image_mset_union multiset_partition)
  then show "mset (reported report) + mset (map v_id natives) = mset (open_ids (w_db w) job)"
    unfolding ids locked_open_ids .
  show "is_cancelled (w_db w') i" if "i \<in> set (rep_cancelled report)" for i
    using that gone touch_job_tables(1) [OF touch] by (simp add: report file_outcomes_empty db is_cancelled_def)
qed

lemma delete_native_cancelled:
  assumes "world_ok (elsewhere w)" and "delete_native sv elsewhere user act job d w = (Inr ND_Cancelled, w')"
  shows "is_cancelled (w_db w') (v_id d)"
proof -
  have "delete_write sv user act job d (elsewhere w) = Inr (ND_Cancelled, w')"
    using assms(2)
    by (auto simp: delete_native_def delete_class_def Let_def
        split: sum.split_asm AccountError.split_asm RetryClass.split_asm if_split_asm)
  then obtain st dispatch change t where
    ev: "apply_event (w_db (elsewhere w)) (processing_fence d) E_Cancel (td_default\<lparr>td_actor := act\<rparr>) (sv_later sv (v_id d))
      = Inr (Done st dispatch change, t)"
    and "job_partial ((elsewhere w)\<lparr>w_db := t\<rparr>) job user change = Inr w'"
    by (cases "apply_event (w_db (elsewhere w)) (processing_fence d) E_Cancel (td_default\<lparr>td_actor := act\<rparr>) (sv_later sv (v_id d))")
      (auto simp: delete_write_def Let_def bindE_Inr_iff split: Applied.split_asm)
  from job_partial_core [OF this(2)] have "w_db w' = t" by (simp add: same_core_def)
  moreover have "db_ok (w_db (elsewhere w))" using assms(1) by (simp add: world_ok_def)
  ultimately show ?thesis using apply_cancel [OF _ ev] by (simp add: processing_fence_def)
qed

lemma cancel_natives_report:
  assumes hs: "\<And>i. engine_handler (meanwhile i)" and "world_ok w"
    and "\<And>i. i \<in> set (rep_cancelled report) \<Longrightarrow> is_cancelled (w_db w) i"
    and "cancel_natives sv meanwhile scope job ds (report, w) = (report', w')"
  shows "mset (reported report') = mset (reported report) + mset (map v_id ds)
    \<and> (\<forall>i \<in> set (rep_cancelled report'). is_cancelled (w_db w') i)"
  using assms(2-)
proof (induction ds arbitrary: report w)
  case (Cons d ds)
  let ?deleted = "delete_native sv (meanwhile (length ds)) (owner scope) (Some (actor scope)) job d w"
  obtain r u where step: "cancel_native sv (meanwhile (length ds)) scope job d (report, w) = (r, u)" by fastforce
  then have u: "u = snd ?deleted"
    and r: "mset (reported r) = mset (reported report) + {#v_id d#}"
    and filed: "set (rep_cancelled r) = set (rep_cancelled report) \<union> (if fst ?deleted = Inr ND_Cancelled then {v_id d} else {})"
    by (auto simp: cancel_native_def reported_def split: prod.split_asm sum.split_asm NativeDelete.split_asm)
  have lead: "leads w u" unfolding u by (rule delete_native_leads [OF hs])
  then have ok: "world_ok u" using Cons.prems(1) by (simp add: leads_def)
  have mid: "world_ok (meanwhile (length ds) w)" using handler_leads [OF hs] Cons.prems(1) by (simp add: leads_def)
  have "is_cancelled (w_db u) i" if "i \<in> set (rep_cancelled r)" for i
    using that filed leads_cancelled [OF lead Cons.prems(1)] Cons.prems(2) delete_native_cancelled [where elsewhere = "meanwhile (length ds)", OF mid] u
    by (cases ?deleted) (auto split: if_split_asm)
  from Cons.IH [OF ok this] Cons.prems(3) r show ?case by (simp add: step)
qed simp

section \<open>A deleted user's deliveries\<close>

definition at_rest :: "delivery_row \<Rightarrow> bool" where
  "at_rest r \<longleftrightarrow> d_state r \<noteq> S_Pending \<and> d_state r \<noteq> S_Claimed \<and> (\<forall>why. d_state r \<noteq> S_Parked why)
     \<and> \<not> (d_state r = S_Processing \<and> d_operation r = Op_Direct)"

text \<open>What the cancel of a user's rows makes of one it picked.\<close>

definition put_to_rest :: "delivery_row \<Rightarrow> delivery_row \<Rightarrow> bool" where
  "put_to_rest r q \<longleftrightarrow> at_rest q \<and> (\<not> at_rest r \<longrightarrow> d_state q = S_Cancelled)"

lemma cancel_loaded_at_rest:
  assumes "row_by d_id x (deliveries s) = Some r" and "cancel_loaded s (delivery_of r) act now = Inr (res, t)"
    and "row_by d_id x (deliveries t) = Some q"
  shows "put_to_rest r q"
  using assms cancel_now_cancels [OF assms(1), of act now res t]
    request_cancel_rows(2) [of s "delivery_of r" act now res t x]
  by (auto simp: cancel_loaded_def put_to_rest_def at_rest_def split: DeliveryState.split_asm if_split_asm)

lemma cancel_rows_at_rest:
  assumes "cancel_rows s rows now = Inr (results, t)" and "distinct (map d_id rows)"
    and "\<And>r. r \<in> set rows \<Longrightarrow> row_by d_id (d_id r) (deliveries s) = Some r"
    and "row_by d_id x (deliveries t) = Some q"
  shows "(\<exists>r \<in> set rows. d_id r = x \<and> put_to_rest r q) \<or> x \<notin> d_id ` set rows \<and> row_by d_id x (deliveries s) = Some q"
proof -
  define step where "step = (\<lambda>(results, s) row. let d = delivery_of row
       in bindE (cancel_loaded s d None now) (\<lambda>((outcome, change), t).
            Inr (results @ [\<lparr>cr_delivery = v_id d, cr_job = v_job_id d, cr_outcome = outcome,
                            cr_change = change\<rparr>], t)))"
  have "foldE step (acc, s) rows = Inr (results, t) \<Longrightarrow> ?thesis" for acc
    using assms(2,3)
  proof (induction rows arbitrary: acc s)
    case Nil
    then show ?case using assms(4) by simp
  next
    case (Cons r rows)
    from Cons.prems(1) obtain acc1 u where one: "step (acc, s) r = Inr (acc1, u)"
      and rest: "foldE step (acc1, u) rows = Inr (results, t)"
      by (auto simp: bindE_Inr_iff)
    from one obtain res where load: "cancel_loaded s (delivery_of r) None now = Inr (res, u)"
      by (auto simp: step_def Let_def bindE_Inr_iff)
    have other: "row_by d_id y (deliveries u) = row_by d_id y (deliveries s)" if "y \<noteq> d_id r" for y
      using cancel_loaded_other_rows [OF load] that by simp
    have "row_by d_id (d_id r') (deliveries u) = Some r'" if "r' \<in> set rows" for r'
    proof -
      have "d_id r' \<noteq> d_id r" using Cons.prems(2) imageI [OF that, of d_id] by auto
      then show ?thesis using other Cons.prems(3) that by simp
    qed
    with Cons.IH [OF rest] Cons.prems(2)
    have "(\<exists>r \<in> set rows. d_id r = x \<and> put_to_rest r q)
        \<or> x \<notin> d_id ` set rows \<and> row_by d_id x (deliveries u) = Some q" by simp
    then show ?case
      using cancel_loaded_at_rest [OF _ load] other [of x] Cons.prems(3) by (cases "x = d_id r") auto
  qed
  with assms(1) show ?thesis unfolding cancel_rows_def step_def by blast
qed

lemma owner_cancelled_at_rest:
  assumes ok: "db_ok s" and run: "cancel_for_owner_with_status s user now = Inr (results, t)"
    and q: "row_by d_id x (deliveries t) = Some q"
  shows "d_owner_id q = user \<Longrightarrow> at_rest q"
    and "row_by d_id x (deliveries s) = Some r \<Longrightarrow> d_owner_id r = user \<Longrightarrow> \<not> at_rest r \<Longrightarrow> d_state q = S_Cancelled"
proof -
  let ?picked = "\<lambda>r. d_owner_id r = user
          \<and> (d_state r = S_Pending \<or> d_state r = S_Claimed \<or> is_parked (d_state r)
             \<or> d_state r = S_Processing
             \<or> (d_state r = S_InFlight \<and> d_cancel_requested_at r = None))"
  let ?rows = "sort_key d_id (filter ?picked (deliveries s))"
  have "distinct (map d_id (deliveries s))" using ok by (simp add: db_inv_def keys_ok_def)
  then have "distinct (map d_id ?rows)" by (auto simp: distinct_map inj_on_def)
  moreover have here: "row_by d_id (d_id r) (deliveries s) = Some r" if "r \<in> set ?rows" for r
    using that db_inv_unique [OF ok] by simp
  ultimately have all: "(\<exists>r \<in> set ?rows. d_id r = x \<and> put_to_rest r q)
      \<or> x \<notin> d_id ` set ?rows \<and> row_by d_id x (deliveries s) = Some q"
    using cancel_rows_at_rest [OF run [unfolded cancel_for_owner_with_status_def]] q by blast
  show "at_rest q" if "d_owner_id q = user"
    using all
  proof
    assume "x \<notin> d_id ` set ?rows \<and> row_by d_id x (deliveries s) = Some q"
    then have "\<not> ?picked q" using row_by_mem row_by_key by force
    then show ?thesis using that by (auto simp: at_rest_def is_parked_def)
  qed (auto simp: put_to_rest_def)
  show "d_state q = S_Cancelled"
    if r: "row_by d_id x (deliveries s) = Some r" "d_owner_id r = user" "\<not> at_rest r"
  proof -
    have "r \<in> set ?rows" and x: "d_id r = x"
      using row_by_mem [OF r(1)] row_by_key [OF r(1)] r(2,3) by (auto simp: at_rest_def is_parked_def)
    then have "x \<in> d_id ` set ?rows" by blast
    with all obtain r' where "r' \<in> set ?rows" "d_id r' = x" "put_to_rest r' q" by blast
    moreover from this here r(1) have "r' = r" by fastforce
    ultimately show ?thesis using r(3) by (simp add: put_to_rest_def)
  qed
qed

lemma delete_native_rows:
  assumes ok: "world_ok w" and run: "delete_native sv (\<lambda>w. w) user act job d w = (res, w')"
    and q: "row_by d_id x (deliveries (w_db w')) = Some q"
  shows "row_by d_id x (deliveries (w_db w)) = Some q \<or> d_state q = S_Cancelled"
proof (cases "w_db w' = w_db w")
  case False
  then obtain outcome where "delete_write sv user act job d w = Inr (outcome, w')"
    using run by (auto simp: delete_native_def Let_def split: sum.split_asm AccountError.split_asm if_split_asm)
  then obtain applied t where
    ev: "apply_event (w_db w) (processing_fence d) E_Cancel (td_default\<lparr>td_actor := act\<rparr>) (sv_later sv (v_id d))
      = Inr (applied, t)"
    and rest: "(case applied of
        Done _ _ change \<Rightarrow> bindE (job_partial (w\<lparr>w_db := t\<rparr>) job user change) (\<lambda>w. Inr (ND_Cancelled, w))
      | Stale \<Rightarrow> Inr (ND_Kept, w\<lparr>w_db := t\<rparr>)) = Inr (outcome, w')"
    by (auto simp: delete_write_def Let_def result_simps)
  have db: "w_db w' = t"
    using rest by (cases applied) (auto simp: bindE_Inr_iff same_core_def dest: job_partial_core)
  show ?thesis
  proof (cases applied)
    case Stale
    then have "t = w_db w" using ev by (auto elim!: apply_event_cases simp: apply_write_Stale)
    then show ?thesis using False db by simp
  next
    case (Done st dispatch change)
    have "db_ok (w_db w)" using ok by (simp add: world_ok_def)
    from apply_cancel [OF this ev [unfolded Done]] have "is_cancelled t (v_id d)"
      by (simp add: processing_fence_def)
    then show ?thesis
      using apply_event_other_rows [OF ev, of x] q db
      by (cases "x = v_id d") (auto simp: is_cancelled_def processing_fence_def)
  qed
qed (use q in simp)

lemma delete_each_rows:
  assumes "world_ok w" and "delete_each sv (\<lambda>_ w. w) user tally ds w = (res, w')"
    and "row_by d_id x (deliveries (w_db w')) = Some q"
  shows "row_by d_id x (deliveries (w_db w)) = Some q \<or> d_state q = S_Cancelled"
  using assms
proof (induction ds arbitrary: tally w)
  case (Cons jd ds)
  obtain job d where jd: "jd = (job, d)" by (cases jd)
  obtain one u where step: "delete_native sv (\<lambda>w. w) user None job d w = (one, u)" by fastforce
  have idle: "engine_handler (\<lambda>w. w)" by (simp add: engine_handler_def)
  have "leads w u" using delete_native_leads [OF idle, of w sv user None job d] by (simp add: step)
  then have ok: "world_ok u" using Cons.prems(1) by (simp add: leads_def)
  have "row_by d_id x (deliveries (w_db u)) = Some q \<or> d_state q = S_Cancelled"
    using Cons.prems(2,3) Cons.IH [OF ok] by (cases one) (auto simp: jd step)
  then show ?case using delete_native_rows [OF Cons.prems(1) step] by blast
qed simp

lemma run_deletion_cases:
  assumes "run_deletion sv meanwhile elsewhere user w = (None, w')"
  obtains results u tally v where "cancel_for_owner_with_status (w_db w) user (sv_now sv) = Inr (results, w_db u)"
    and "leads w u" and "delete_natives sv meanwhile user None (elsewhere 0 u) = (Inr tally, v)"
    and "w' = elsewhere 1 v" and "\<not> owner_has_in_flight (w_db w') user"
proof -
  from assms obtain u tally v where stored: "deletion_write user (sv_now sv) w = Inr u"
    and rest: "delete_natives sv meanwhile user None (elsewhere 0 u) = (Inr tally, v)"
      "w' = elsewhere 1 v" "\<not> owner_has_in_flight (w_db w') user"
    by (auto simp: run_deletion_def Let_def split: sum.split_asm prod.split_asm if_split_asm)
  from stored obtain results where "cancel_for_owner_with_status (w_db w) user (sv_now sv) = Inr (results, w_db u)"
    by (auto simp: deletion_write_def result_simps same_core_def dest!: record_cancel_partials_core)
  from that [OF this deletion_write_leads [OF stored] rest] show ?thesis .
qed

lemma run_deletion_stops:
  assumes ok: "world_ok w" and run: "run_deletion sv meanwhile elsewhere user w = (None, w')"
    and others: "\<And>i. engine_handler (meanwhile i)" "\<And>i. engine_handler (elsewhere i)"
    and r: "row_by d_id x (deliveries (w_db w)) = Some r" "d_owner_id r = user" "\<not> at_rest r"
  shows "is_cancelled (w_db w') x"
  using run
proof (rule run_deletion_cases)
  fix results u tally v
  assume cancel: "cancel_for_owner_with_status (w_db w) user (sv_now sv) = Inr (results, w_db u)"
    and lead: "leads w u" and natives: "delete_natives sv meanwhile user None (elsewhere 0 u) = (Inr tally, v)"
    and w': "w' = elsewhere 1 v"
  have db: "db_ok (w_db w)" using ok by (simp add: world_ok_def)
  have "quiet (w_db w) (w_db u)"
    using cancel_rows_quiet [OF db cancel [unfolded cancel_for_owner_with_status_def]] .
  then obtain q where "row_by d_id x (deliveries (w_db u)) = Some q" using r(1) by (rule advance_row)
  then have gone: "is_cancelled (w_db u) x"
    using owner_cancelled_at_rest(2) [OF db cancel _ r] by (simp add: is_cancelled_def)
  have "leads u (elsewhere 0 u)" by (rule handler_leads [OF others(2)])
  also have "leads (elsewhere 0 u) (snd (delete_natives sv meanwhile user None (elsewhere 0 u)))"
    by (rule delete_natives_leads [OF others(1)])
  then have "leads (elsewhere 0 u) v" by (simp add: natives)
  also have "leads v w'" unfolding w' by (rule handler_leads [OF others(2)])
  finally have "leads u w'" .
  moreover have "world_ok u" using lead ok by (simp add: leads_def)
  ultimately show ?thesis using gone by (rule leads_cancelled)
qed

lemma run_deletion_at_rest:
  assumes ok: "world_ok w" and run: "run_deletion sv (\<lambda>_ w. w) (\<lambda>_ w. w) user w = (None, w')"
    and q: "row_by d_id x (deliveries (w_db w')) = Some q" "d_owner_id q = user"
  shows "at_rest q"
  using run
proof (rule run_deletion_cases)
  fix results u tally v
  assume cancel: "cancel_for_owner_with_status (w_db w) user (sv_now sv) = Inr (results, w_db u)"
    and lead: "leads w u" and natives: "delete_natives sv (\<lambda>_ w. w) user None u = (Inr tally, v)" and w': "w' = v"
  have "world_ok u" using lead ok by (simp add: leads_def)
  then have "row_by d_id x (deliveries (w_db u)) = Some q \<or> d_state q = S_Cancelled"
    using natives delete_each_rows [OF _ _ q(1), of u sv user] w'
    by (auto simp: delete_natives_def split: sum.split_asm)
  moreover have "db_ok (w_db w)" using ok by (simp add: world_ok_def)
  ultimately show ?thesis
    using owner_cancelled_at_rest(1) [OF _ cancel _ q(2)] by (auto simp: at_rest_def)
qed

section \<open>Properties\<close>

text \<open>
  C5: a job is created only from what was checked. When the service answers with a new job, the call
  was a dry run or confirmed, by an actor with the capability for it and access to every target; the
  post still had the version the user saw and no open job when the job was written; and the job's
  snapshot has one variant per target, in order, each the post's own variant for the account with
  its override and each \<open>publishable\<close> under the account's descriptor at the requested time.
\<close>

theorem created_job_was_checked:
  assumes "service_create_job sha256 sv meanwhile scope post inp w = (Inr created, w')"
  shows "(pi_dry_run inp \<or> pi_confirm inp) \<and> require scope (if pi_dry_run inp then Cap_Edit else Cap_Publish) = Inr ()
    \<and> list_all (allows_account scope) (pi_targets inp)
    \<and> (\<exists>row. row \<in> set (posts (w_db (meanwhile 0 w))) \<and> p_owner_id row = owner scope \<and> p_id row = post
         \<and> p_version row = pi_if_match inp)
    \<and> (\<forall>j \<in> set (publish_jobs (w_db (meanwhile 0 w))). j_post_id j = post
         \<longrightarrow> j_status j \<noteq> J_Scheduled \<and> j_status j \<noteq> J_Publishing)
    \<and> (\<exists>at base overrides assets j. due_time (pi_at inp) (sv_now sv) = Inr at
         \<and> read_post sv (w_db w) scope post (pi_if_match inp) = Inr (base, overrides)
         \<and> j \<in> set (publish_jobs (w_db w')) \<and> j_id j = cj_job created
         \<and> list_all2 (target_passed sv inp base overrides at assets) (pi_targets inp) (sn_variants (j_snapshot j)))"
  using assms
proof (rule service_create_job_cases)
  fix at targets
  assume checks: "create_checks sv (w_db w) scope post inp = Inr (at, targets)"
    and stored: "create_write sha256 sv scope post inp at targets (meanwhile 0 w) = Inr (created, w')"
  from create_write_stores [OF stored] obtain row j where
    lock: "lock_post (w_db (meanwhile 0 w)) scope post (Some (pi_if_match inp)) = Inr row"
    and j: "j \<in> set (publish_jobs (w_db w'))" "j_id j = cj_job created" "sn_variants (j_snapshot j) = map tg_variant targets"
    by blast
  from create_checks_passed [OF checks] lock_post_passed [OF lock] j show ?thesis by metis
qed

theorem created_job_was_checked_witness:
  "\<exists>created w'. service_create_job (\<lambda>_. []) sample_service (\<lambda>_ w. w) (own 1) 30 sample_input
       (idle_world [sample_row 10 S_Published 3] J_Published) = (Inr created, w')
     \<and> w_queue w' = [(PublishDelivery 11 0, 200)]
     \<and> (\<exists>j \<in> set (publish_jobs (w_db w')). j_id j = cj_job created)"
proof -
  let ?run = "service_create_job (\<lambda>_. []) sample_service (\<lambda>_ w. w) (own 1) 30 sample_input
       (idle_world [sample_row 10 S_Published 3] J_Published)"
  obtain created w' where run: "?run = (Inr created, w')" and queue: "w_queue w' = [(PublishDelivery 11 0, 200)]"
    using sample_created by (auto split: prod.splits sum.splits)
  from created_job_was_checked [OF run] run queue show ?thesis by auto
qed

text \<open>
  C6: a retry is deliberate and gets a fresh start. When the service answers a retry with a dispatch,
  it was confirmed, by an actor with the capability and access to the delivery; what it will send
  had passed the checks again; where the earlier outcome is unknown it was acknowledged; and the
  delivery is pending under the next generation with no attempts counted, queued as a job of that
  generation, so jobs of earlier ones claim nothing.
\<close>

theorem retry_is_deliberate:
  assumes run: "service_retry sv elsewhere scope did confirm ack w = (Inr dispatch, w')"
    and ok: "db_ok (w_db (elsewhere w))"
  shows "confirm \<and> require scope Cap_Publish = Inr ()
    \<and> (\<exists>found. get_delivery (w_db w) scope did = Inr found \<and> retry_passed sv (w_db w) found)
    \<and> (\<exists>old new at. row_by d_id did (deliveries (w_db (elsewhere w))) = Some old
         \<and> d_owner_id old = owner scope \<and> filter_admits (account_filter scope) (d_account_id old)
         \<and> (d_state old = S_OutcomeUnknown \<or> d_state old = S_Parked OutcomeUnresolvable \<longrightarrow> ack)
         \<and> \<not> settled (d_state old)
         \<and> row_by d_id did (deliveries (w_db w')) = Some new \<and> d_state new = S_Pending
         \<and> d_dispatch_gen new = d_dispatch_gen old + 1 \<and> d_attempt_count new = 0
         \<and> (PublishDelivery did (d_dispatch_gen new), at) \<in> set (w_queue w'))"
proof -
  from run obtain found where checks: "retry_checks sv (w_db w) scope did confirm = Inr found"
    and stored: "retry_write sv scope did ack found (elsewhere w) = Inr (dispatch, w')"
    by (rule service_retry_cases)
  from stored obtain t where retry: "retry (w_db (elsewhere w)) scope did ack (sv_later sv did) = Inr (dispatch, t)"
    and db: "w_db w' = t" and job: "(publish_job_of dispatch, dp_run_at dispatch) \<in> set (w_queue w')"
    by (rule retry_write_effect)
  from ok retry obtain old new where "row_by d_id did (deliveries (w_db (elsewhere w))) = Some old" "visible scope old"
    and tr: "transition (d_state old) (E_UserRetry ack) = Inr S_Pending"
    and "row_by d_id did (deliveries t) = Some new" "d_state new = S_Pending"
      "d_dispatch_gen new = d_dispatch_gen old + 1" "d_attempt_count new = 0"
      "publish_job_of dispatch = PublishDelivery did (d_dispatch_gen new)"
    by (rule retry_effect)
  moreover have "d_state old = S_OutcomeUnknown \<or> d_state old = S_Parked OutcomeUnresolvable \<longrightarrow> ack"
    using tr by (auto simp: transition_def split: if_split_asm)
  ultimately show ?thesis
    using retry_checks_passed [OF checks] settled_transition [OF tr] job
    by (auto simp: visible_def db intro!: exI [of _ old])
qed

theorem retry_is_deliberate_witness:
  "\<exists>dispatch w'. service_retry sample_service (\<lambda>w. w) (own 1) 10 True True
       retried_world = (Inr dispatch, w')
     \<and> (\<exists>new at. row_by d_id 10 (deliveries (w_db w')) = Some new \<and> d_dispatch_gen new = 4
          \<and> (PublishDelivery 10 (d_dispatch_gen new), at) \<in> set (w_queue w'))"
proof -
  let ?run = "service_retry sample_service (\<lambda>w. w) (own 1) 10 True True retried_world"
  obtain dispatch w' where run: "?run = (Inr dispatch, w')" and gen: "map d_dispatch_gen (deliveries (w_db w')) = [4]"
    using sample_retried by (auto split: prod.splits sum.splits)
  from retry_is_deliberate [OF run retried_world_db] obtain new at where new: "row_by d_id 10 (deliveries (w_db w')) = Some new"
    and "(PublishDelivery 10 (d_dispatch_gen new), at) \<in> set (w_queue w')"
    by blast
  moreover have "d_dispatch_gen new = 4" using row_by_mem [OF new] gen by auto
  ultimately show ?thesis using run by blast
qed

text \<open>
  C7: the report of a cancelled job accounts for the job. Each delivery that had not ended when the
  call wrote is in exactly one of the report's three lists, and those reported as cancelled are
  cancelled when the call returns, also the ones whose uploads the agents had to delete, whatever
  else ran in between.
\<close>

theorem cancel_report_accounts_for_job:
  assumes run: "service_cancel_job sv meanwhile scope job w = (Inr report, w')"
    and ok: "world_ok w" and others: "\<And>i. engine_handler (meanwhile i)"
  shows "mset (rep_cancelled report @ rep_requested report @ rep_not_cancellable report)
      = mset (map d_id (filter (\<lambda>r. d_job_id r = job \<and> \<not> is_terminal (d_state r)) (deliveries (w_db w))))
    \<and> (\<forall>d \<in> set (rep_cancelled report). \<exists>r. row_by d_id d (deliveries (w_db w')) = Some r \<and> d_state r = S_Cancelled)"
proof -
  from run obtain first row natives u where stored: "cancel_job_write sv scope job w = Inr ((first, row, natives), u)"
    and rest: "cancel_natives sv meanwhile scope row natives (first, u) = (report, w')"
    by (auto simp: service_cancel_job_def bindE_Inr_iff split: sum.split_asm prod.split_asm)
  have "db_ok (w_db w)" and "world_ok u"
    using ok cancel_job_write_leads [OF stored] by (auto simp: world_ok_def leads_def)
  from cancel_natives_report [OF others this(2) cancel_job_write_report(2) [OF this(1) stored] rest]
    cancel_job_write_report(1) [OF this(1) stored]
  show ?thesis by (simp add: reported_def open_ids_def is_cancelled_def)
qed

theorem cancel_report_accounts_for_job_witness:
  "\<exists>report w'. service_cancel_job sample_service (\<lambda>_ w. w) (own 1) 20 (busy_world S_InFlight) = (Inr report, w')
     \<and> rep_cancelled report = [10] \<and> rep_requested report = [11]
     \<and> (\<exists>r. row_by d_id 10 (deliveries (w_db w')) = Some r \<and> d_state r = S_Cancelled)"
proof -
  obtain report w' where
    run: "service_cancel_job sample_service (\<lambda>_ w. w) (own 1) 20 (busy_world S_InFlight) = (Inr report, w')"
    and lists: "rep_cancelled report = [10]" "rep_requested report = [11]"
    using sample_cancelled by (auto split: prod.splits sum.splits)
  have "engine_handler (\<lambda>w. w)" by (simp add: engine_handler_def)
  then show ?thesis
    using cancel_report_accounts_for_job [OF run busy_world_ok(1)] run lists by auto
qed

text \<open>
  C8: deleting a user stops their publishing. When the publishing step of a deletion reports success,
  whatever else the engine did meanwhile, every delivery of the user that was pending, claimed or
  parked when the step began, or a campaign that was mailing, is cancelled, and none of the user's
  deliveries is claimed or in flight, so no worker holds their credentials. A call in flight when the
  step began may end during it and leave its delivery to be tried again; where nothing else runs
  during the step, no delivery of the user is pending or parked after it either, and none of their
  campaigns is mailing.
\<close>

theorem deleted_user_is_at_rest:
  assumes "world_ok w" and "run_deletion sv meanwhile elsewhere user w = (None, w')"
    and "\<And>i. engine_handler (meanwhile i)" and "\<And>i. engine_handler (elsewhere i)"
  shows "(\<forall>did r. row_by d_id did (deliveries (w_db w)) = Some r \<and> d_owner_id r = user
        \<and> (d_state r = S_Pending \<or> d_state r = S_Claimed \<or> (\<exists>why. d_state r = S_Parked why)
           \<or> d_state r = S_Processing \<and> d_operation r = Op_Direct) \<longrightarrow>
        (\<exists>q. row_by d_id did (deliveries (w_db w')) = Some q \<and> d_state q = S_Cancelled))
    \<and> (\<forall>q \<in> set (deliveries (w_db w')). d_owner_id q = user \<longrightarrow> d_state q \<noteq> S_Claimed \<and> d_state q \<noteq> S_InFlight)
    \<and> (meanwhile = (\<lambda>_ w. w) \<and> elsewhere = (\<lambda>_ w. w) \<longrightarrow>
        (\<forall>did q. row_by d_id did (deliveries (w_db w')) = Some q \<and> d_owner_id q = user \<longrightarrow>
           d_state q \<noteq> S_Pending \<and> (\<forall>why. d_state q \<noteq> S_Parked why)
           \<and> \<not> (d_state q = S_Processing \<and> d_operation q = Op_Direct)))"
proof (intro conjI allI ballI impI)
  fix did r
  assume r: "row_by d_id did (deliveries (w_db w)) = Some r \<and> d_owner_id r = user
        \<and> (d_state r = S_Pending \<or> d_state r = S_Claimed \<or> (\<exists>why. d_state r = S_Parked why)
           \<or> d_state r = S_Processing \<and> d_operation r = Op_Direct)"
  then have "\<not> at_rest r" by (auto simp: at_rest_def)
  with r run_deletion_stops [OF assms, of did r]
  show "\<exists>q. row_by d_id did (deliveries (w_db w')) = Some q \<and> d_state q = S_Cancelled"
    by (auto simp: is_cancelled_def)
next
  fix q assume "q \<in> set (deliveries (w_db w'))" "d_owner_id q = user"
  then show "d_state q \<noteq> S_Claimed" and "d_state q \<noteq> S_InFlight"
    using assms(2) by (auto elim!: run_deletion_cases simp: owner_has_in_flight_def list_ex_iff)
next
  fix did q why
  assume alone: "meanwhile = (\<lambda>_ w. w) \<and> elsewhere = (\<lambda>_ w. w)"
    and q: "row_by d_id did (deliveries (w_db w')) = Some q \<and> d_owner_id q = user"
  have "run_deletion sv (\<lambda>_ w. w) (\<lambda>_ w. w) user w = (None, w')" using assms(2) alone by simp
  from run_deletion_at_rest [OF assms(1) this] q
  show "d_state q \<noteq> S_Pending" and "d_state q \<noteq> S_Parked why"
    and "\<not> (d_state q = S_Processing \<and> d_operation q = Op_Direct)" by (auto simp: at_rest_def)
qed

theorem deleted_user_is_at_rest_witness:
  "\<exists>w' q. run_deletion sample_service (\<lambda>_ w. w) (\<lambda>_ w. w) 1 (busy_world S_Published) = (None, w')
     \<and> row_by d_id 10 (deliveries (w_db (busy_world S_Published))) = Some (sample_row 10 S_Pending 3)
     \<and> row_by d_id 10 (deliveries (w_db w')) = Some q \<and> d_state q = S_Cancelled"
proof -
  let ?run = "run_deletion sample_service (\<lambda>_ w. w) (\<lambda>_ w. w) 1 (busy_world S_Published)"
  obtain w' where run: "?run = (None, w')"
    using sample_deleted by (cases ?run) (auto split: option.split_asm)
  have idle: "engine_handler (\<lambda>w. w)" by (simp add: engine_handler_def)
  have row: "row_by d_id 10 (deliveries (w_db (busy_world S_Published))) = Some (sample_row 10 S_Pending 3)"
    by (simp add: busy_world_def idle_world_def sample_db_def row_by_Cons sample_row_def)
  moreover have "d_owner_id (sample_row 10 S_Pending 3) = 1" "d_state (sample_row 10 S_Pending 3) = S_Pending"
    by (simp_all add: sample_row_def)
  ultimately obtain q where "row_by d_id 10 (deliveries (w_db w')) = Some q" "d_state q = S_Cancelled"
    using deleted_user_is_at_rest [OF busy_world_ok(2) run idle idle] by blast
  with run row show ?thesis by blast
qed

end
