(* ===== verification/Handlers.thy ===== *)
theory Handlers
  imports Checks Batch Samples
begin

text \<open>
  The engine as a whole: runs of its handlers (\<^verbatim>\<open>publish_delivery\<close>, \<^verbatim>\<open>poll_delivery_status\<close>,
  \<^verbatim>\<open>reconcile_delivery\<close>, \<^verbatim>\<open>direct_send_batch\<close>, \<^verbatim>\<open>delivery_due_sweep\<close>, \<^verbatim>\<open>account_preflight\<close>,
  \<^verbatim>\<open>user_deletion\<close>), of the calls users make and of an account's disconnection, in any order, each
  with any answers of the platforms, any readings of the clock and any other transactions of the
  engine between its own (a rely condition: what happens meanwhile meets the contract
  \<open>engine_handler\<close>, which every one of them is shown to meet itself).
\<close>

section \<open>Runs of the engine\<close>

inductive engine_step :: "'z calendar \<Rightarrow> world \<Rightarrow> world \<Rightarrow> bool" for cal :: "'z calendar" where
  publish: "(\<And>i. engine_handler (meanwhile i))
    \<Longrightarrow> engine_step cal w (snd (run_publish cal pick settings compiled meanwhile an ck did gen w))"
| poll: "(\<And>i. engine_handler (meanwhile i))
    \<Longrightarrow> engine_step cal w (snd (run_poll cal settings meanwhile status now now2 did gen seq w))"
| reconcile: "(\<And>i. engine_handler (meanwhile i))
    \<Longrightarrow> engine_step cal w (snd (run_reconcile cal pick settings meanwhile found now now2 did gen seq w))"
| batch: "(\<And>i. engine_handler (meanwhile i))
    \<Longrightarrow> engine_step cal w (snd (run_batch cal pick settings batch_size meanwhile ba bk did gen w))"
| sweep: "(\<And>d. engine_handler (between d))
    \<Longrightarrow> engine_step cal w (snd (run_sweep settings compiled held between now w))"
| preflight: "(\<And>account. engine_handler (\<lambda>w. snd (check account w)))
    \<Longrightarrow> engine_step cal w (snd (run_preflight lo hi check now w))"
| create: "(\<And>i. engine_handler (meanwhile i))
    \<Longrightarrow> engine_step cal w (snd (service_create_job sha256 sv meanwhile scope post inp w))"
| reschedule: "engine_handler elsewhere \<Longrightarrow> (\<And>i. engine_handler (meanwhile i))
    \<Longrightarrow> engine_step cal w (snd (service_reschedule sv elsewhere meanwhile scope job at if_match w))"
| cancel_job: "(\<And>i. engine_handler (meanwhile i))
    \<Longrightarrow> engine_step cal w (snd (service_cancel_job sv meanwhile scope job w))"
| cancel_delivery: "(\<And>i. engine_handler (meanwhile i))
    \<Longrightarrow> engine_step cal w (snd (service_cancel_delivery sv meanwhile scope did w))"
| retry: "engine_handler elsewhere
    \<Longrightarrow> engine_step cal w (snd (service_retry sv elsewhere scope did confirm ack w))"
| resolve: "engine_step cal w (snd (service_resolve sv scope did outcome w))"
| deletion: "(\<And>i. engine_handler (meanwhile i)) \<Longrightarrow> (\<And>i. engine_handler (elsewhere i))
    \<Longrightarrow> engine_step cal w (snd (run_deletion sv meanwhile elsewhere user w))"
| disconnect: "(\<And>i. engine_handler (meanwhile i))
    \<Longrightarrow> engine_step cal w (snd (before_disconnect sv meanwhile user account w))"
| disconnected: "cancel_for_account_with_status (w_db w) account now = Inr (cancelled, t)
    \<Longrightarrow> deliveries_cancelled user cancelled (w\<lparr>w_db := t\<rparr>) = Inr w' \<Longrightarrow> engine_step cal w w'"

lemma engine_step_leads: "engine_step cal w w' \<Longrightarrow> leads w w'"
  by (induction rule: engine_step.induct)
    (rule run_publish_leads run_poll_leads run_reconcile_leads run_batch_leads run_sweep_leads run_preflight_leads
      service_create_job_leads service_reschedule_leads service_cancel_leads service_retry_leads
      service_resolve_leads run_deletion_leads before_disconnect_leads deliveries_cancelled_leads; assumption)+

lemma engine_runs_lead: "(engine_step cal)\<^sup>*\<^sup>* w w' \<Longrightarrow> leads w w'"
  by (induction rule: rtranclp_induct) (auto intro: leads_trans engine_step_leads)

lemma idle_handler [simp]: "engine_handler (\<lambda>w. w)"
  by (simp add: engine_handler_def)

section \<open>A concrete run\<close>

lemma sample_run_step: "(engine_step sample_cal)\<^sup>*\<^sup>* w (snd (sample_run an w))"
proof (rule r_into_rtranclp)
  show "engine_step sample_cal w (snd (sample_run an w))"
    unfolding sample_run_def by (rule engine_step.publish) simp
qed

text \<open>A run that publishes, and one that the server's shutdown cuts short.\<close>

abbreviation published_world :: world where
  "published_world \<equiv> snd (sample_run (sample_answers (Inr (PO_Published sample_receipt))) sample_world)"

abbreviation stopped_world :: world where
  "stopped_world \<equiv> snd (sample_run ((sample_answers (Inl AgentCancelled))\<lparr>an_stopping := True\<rparr>) sample_world)"

lemma sample_published: "w_calls published_world = [(10, 3)] \<and> map d_state (deliveries (w_db published_world)) = [S_Published]"
proof -
  have "\<not> an_shutdown (sample_answers (Inr (PO_Published sample_receipt)))" by (simp add: sample_answers_def)
  from sample_published_steps [folded sample_run_eq [OF this]] show ?thesis by (auto simp: seen_def)
qed

lemma sample_stopped:
  "map (\<lambda>r. (d_id r, d_state r, d_dispatch_gen r)) (deliveries (w_db stopped_world)) = [(10, S_Pending, 4)]"
proof -
  have "\<not> an_shutdown ((sample_answers (Inl AgentCancelled))\<lparr>an_stopping := True\<rparr>)" by (simp add: sample_answers_def)
  from sample_stopped_steps [folded sample_run_eq [OF this]] show ?thesis by (auto simp: seen_def)
qed

lemma sample_world_ok: "world_ok sample_world" and sample_no_calls: "w_calls sample_world = []"
proof -
  have "queued (set (w_queue sample_world)) (w_db sample_world)"
    by (auto simp: queued_def has_job_def sample_world_def sample_db_def sample_row_def table_simps split: if_splits)
  with sample_world_db show "world_ok sample_world" by (simp add: world_ok_def)
qed (simp add: sample_world_def)

lemma distinct_submset:
  assumes "mset xs \<subseteq># mset ys" and "distinct ys"
  shows "distinct xs"
  unfolding distinct_count_atmost_1
proof
  fix a
  have "count (mset xs) a \<le> count (mset ys) a" using assms(1) by (rule mset_subset_eq_count)
  also have "count (mset ys) a \<le> 1" using assms(2) by (simp add: distinct_count_atmost_1)
  finally have le: "count (mset xs) a \<le> 1" .
  show "count (mset xs) a = (if a \<in> set xs then 1 else 0)"
  proof (cases "a \<in> set xs")
    case True
    then have "count (mset xs) a \<noteq> 0" by (simp add: count_mset_0_iff)
    then have "count (mset xs) a = 1" using le by linarith
    then show ?thesis using True by simp
  qed (simp add: count_mset_0_iff)
qed

section \<open>Properties\<close>

text \<open>
  C1: over any run of the engine, the platform is asked to publish at most once per delivery and
  dispatch generation. Whatever the handlers answer, however often a job is delivered, whatever
  leases run out and whatever transactions commit in between, the log of publish and comment calls
  that starts empty never repeats a pair of a delivery and its generation.
\<close>

theorem platform_called_at_most_once:
  assumes "(engine_step cal)\<^sup>*\<^sup>* w w'" and "world_ok w" and "w_calls w = []"
  shows "distinct (w_calls w')"
proof -
  from engine_runs_lead [OF assms(1)] assms(2) obtain ls where ls: "accounted w ls w'"
    by (auto simp: leads_def)
  then have run: "run tx (w_db w) ls (w_db w')" and calls: "mset (w_calls w') \<subseteq># mset (List.map_filter start_key ls)"
    using assms(3) by (auto simp: accounted_def)
  have "db_ok (w_db w)" using assms(2) by (simp add: world_ok_def)
  then have "distinct (List.map_filter start_key ls)"
    unfolding distinct_somes using run starts.fires_at_most_once by blast
  with calls show ?thesis by (rule distinct_submset)
qed

theorem platform_called_at_most_once_witness:
  "(engine_step sample_cal)\<^sup>*\<^sup>* sample_world published_world \<and> w_calls published_world = [(10, 3)]
   \<and> distinct (w_calls published_world)"
  using platform_called_at_most_once [OF sample_run_step sample_world_ok sample_no_calls]
    sample_run_step sample_published by blast

text \<open>
  C2: no delivery is forgotten. After any run of the engine every \<^verbatim>\<open>pending\<close> delivery was handed to
  the queue as a \<^verbatim>\<open>publish_delivery\<close> job that carries the delivery's current generation and does
  not run before the delivery is due, so that job's claim is not refused as early or outdated.
\<close>

theorem no_pending_delivery_is_forgotten:
  assumes "(engine_step cal)\<^sup>*\<^sup>* w w'" and "world_ok w"
    and "row_by d_id did (deliveries (w_db w')) = Some r" and "d_state r = S_Pending"
  shows "\<exists>at. (PublishDelivery did (d_dispatch_gen r), at) \<in> set (w_queue w')
    \<and> (case d_next_attempt_at r of None \<Rightarrow> True | Some due \<Rightarrow> due \<le> at)"
proof -
  have "world_ok w'" using engine_runs_lead [OF assms(1)] assms(2) by (simp add: leads_def)
  then have "has_job (set (w_queue w')) r"
    using queued_row assms(3,4) by (auto simp: world_ok_def)
  moreover have "d_id r = did" using assms(3) by (rule row_by_key)
  ultimately show ?thesis by (simp add: has_job_def)
qed

theorem no_pending_delivery_is_forgotten_witness:
  "\<exists>r at. row_by d_id 10 (deliveries (w_db stopped_world)) = Some r \<and> d_state r = S_Pending
     \<and> d_dispatch_gen r = 4 \<and> (PublishDelivery 10 (d_dispatch_gen r), at) \<in> set (w_queue stopped_world)"
proof -
  obtain r where r: "row_by d_id 10 (deliveries (w_db stopped_world)) = Some r" "d_state r = S_Pending" "d_dispatch_gen r = 4"
    using sample_stopped by (cases "deliveries (w_db stopped_world)") (auto simp: row_by_Cons)
  with no_pending_delivery_is_forgotten [OF sample_run_step sample_world_ok r(1,2)]
  show ?thesis by blast
qed

text \<open>
  C3: the handlers implement the transition table. Over any run of the engine there is a list of
  platform calls started, none of them twice, which accounts for every publish and comment call the handlers made, such
  that each delivery went along a course of the machine of one delivery that starts exactly its calls
  of that list: it changes state only by events the table allows, its generation rises exactly where
  it is handed out again or cancelled, none disappears, and new ones begin as \<^verbatim>\<open>pending\<close> under
  generation 0. A delivery that was not with a platform before and has no call in that list is not
  in flight, processing, of unknown outcome, published, simulated or dead-lettered. The database
  stays consistent.
\<close>

theorem handlers_implement_transition_table:
  assumes "(engine_step cal)\<^sup>*\<^sup>* w w'" and "world_ok w"
  shows "\<exists>ks. distinct ks \<and> mset (w_calls w') \<subseteq># mset (w_calls w @ ks)
    \<and> abstract_run ks (standing (w_db w)) (standing (w_db w'))
    \<and> (\<forall>d st g. standing (w_db w') d = Some (st, g) \<and> starts_of d ks = []
         \<and> (case standing (w_db w) d of None \<Rightarrow> True | Some a \<Rightarrow> untouched (fst a)) \<longrightarrow> untouched st)
    \<and> db_ok (w_db w')"
proof -
  from engine_runs_lead [OF assms(1)] assms(2) obtain ls where ls: "run tx (w_db w) ls (w_db w')"
    and calls: "mset (w_calls w') \<subseteq># mset (w_calls w @ calls_of ls)" and "world_ok w'"
    by (auto simp: leads_def accounted_def)
  from assms(2) have "db_ok (w_db w)" by (simp add: world_ok_def)
  with ls have run: "abstract_run (calls_of ls) (standing (w_db w)) (standing (w_db w'))"
    by (rule advance_abstract [OF run_advance])
  moreover from ls \<open>db_ok (w_db w)\<close> have "distinct (calls_of ls)"
    unfolding distinct_somes by (rule starts.fires_at_most_once)
  ultimately show ?thesis using calls abstract_untouched [OF run] \<open>world_ok w'\<close>
    unfolding world_ok_def by blast
qed

theorem handlers_implement_transition_table_witness:
  "map d_state (deliveries (w_db published_world)) = [S_Published]
   \<and> (\<exists>ks. mset (w_calls published_world) \<subseteq># mset (w_calls sample_world @ ks)
        \<and> abstract_run ks (standing (w_db sample_world)) (standing (w_db published_world)))"
  using handlers_implement_transition_table [OF sample_run_step sample_world_ok]
    sample_published by blast

text \<open>
  C4: nothing goes to a platform unchecked. When a run of \<^verbatim>\<open>publish_delivery\<close> gets as far as
  publishing, it claimed the delivery itself, and after the claim its owner was active, its account
  belonged to the owner and was active, its platform was compiled in, live publishing was switched
  on (or the job is a dry run). The request it publishes is for that account, obeys every rule
  of the descriptor (\<open>publishable\<close>), has media that are all ready and, for a campaign, an audience,
  and the agent found no violation.
\<close>

theorem prepared_delivery_passed_every_check:
  assumes "prepare cal settings compiled an meanwhile ck did gen w = (Inr (Some p), w')"
  shows "\<exists>t. claim (w_db w) did gen (ck_claim ck) (int (ps_lease settings)) = Inr (Some (pp_claimed p), t)
    \<and> may_send (w_db (meanwhile 0 (w\<lparr>w_db := t\<rparr>))) compiled (pp_claimed p) \<and> validated an (ck_claim ck) p"
  using assms by (rule prepared_delivery)

theorem prepared_delivery_passed_every_check_witness:
  "\<exists>p w' t. prepare sample_cal sample_settings [''x''] (sample_answers (Inl AgentCancelled)) (\<lambda>_ w. w) sample_clocks 10 3
       sample_world = (Inr (Some p), w')
     \<and> may_send t [''x''] (pp_claimed p)"
proof -
  let ?an = "sample_answers (Inl AgentCancelled)"
  have "\<not> an_shutdown ?an" by (simp add: sample_answers_def)
  from sample_prepared [folded sample_prepare_eq [OF this]]
  obtain p w' where run: "prepare sample_cal sample_settings [''x''] ?an (\<lambda>_ w. w) sample_clocks 10 3 sample_world
      = (Inr (Some p), w')"
    by (cases "prepare sample_cal sample_settings [''x''] ?an (\<lambda>_ w. w) sample_clocks 10 3 sample_world")
      (auto split: sum.splits option.splits)
  from prepared_delivery_passed_every_check [OF run] run show ?thesis by blast
qed



lemma settled_row_code:
  "settled_row n batch r q \<Longrightarrow> s_error_code q = s_error_code r \<or> s_error_code q = None
     \<or> (\<exists>code. s_error_code q = Some code \<and> proper_code code)"
  by (cases "s_error_code q") (auto simp: settled_row_def)

text \<open>
  C26: what a batch stores as an error code is a code, whatever text the agent gave as its reason or
  its error. After a batch every row has the code it had before, none, or one of at most 64 characters
  that are lower-case letters, digits and underscores, so no address gets there. A reason of that form
  is kept as it is; any other is replaced by the code for its kind.
\<close>

theorem stored_error_codes_are_codes:
  assumes "send_batch cal pick render send order meanwhile bk claimed bound cap batch rows retain w = (None, w')"
    and "\<And>fates. set (order fates) = set fates"
  shows "list_all2 (\<lambda>r q. s_error_code q = s_error_code r \<or> s_error_code q = None
       \<or> (\<exists>code. s_error_code q = Some code \<and> code \<noteq> [] \<and> length code \<le> 64
            \<and> set code \<subseteq> set ''abcdefghijklmnopqrstuvwxyz0123456789_''))
       (direct_sends (w_db (meanwhile w))) (direct_sends (w_db w'))
    \<and> (\<forall>reason fallback. stored_code reason fallback =
         (if reason \<noteq> [] \<and> length reason \<le> 64 \<and> set reason \<subseteq> set ''abcdefghijklmnopqrstuvwxyz0123456789_''
          then reason else fallback))"
proof
  show "list_all2 (\<lambda>r q. s_error_code q = s_error_code r \<or> s_error_code q = None
       \<or> (\<exists>code. s_error_code q = Some code \<and> code \<noteq> [] \<and> length code \<le> 64
            \<and> set code \<subseteq> set ''abcdefghijklmnopqrstuvwxyz0123456789_''))
       (direct_sends (w_db (meanwhile w))) (direct_sends (w_db w'))"
    by (rule list_all2_mono [OF send_batch_settles(1) [OF assms refl]])
      (rule settled_row_code [unfolded proper_code_def])
  show "\<forall>reason fallback. stored_code reason fallback =
         (if reason \<noteq> [] \<and> length reason \<le> 64 \<and> set reason \<subseteq> set ''abcdefghijklmnopqrstuvwxyz0123456789_''
          then reason else fallback)"
    unfolding stored_code_iff proper_code_def by blast
qed

theorem stored_error_codes_are_codes_witness:
  "\<exists>w'. sample_batch sample_sent = (None, w')
     \<and> map s_error_code (direct_sends (w_db w')) = [None, None, Some ''rejected'']
     \<and> stored_code ''550 a@b.c unknown'' ''rejected'' = ''rejected''"
proof -
  obtain w' where run: "sample_batch sample_sent = (None, w')"
    and rows: "map (\<lambda>r. (s_id r, s_state r, s_tries r, s_error_code r)) (direct_sends (w_db w'))
        = [(1, DS_Sent, 0, None), (2, DS_Queued, 1, None), (3, DS_Failed, 0, Some ''rejected'')]"
    using sample_batch_rows by (cases "sample_batch sample_sent") (auto split: option.split_asm)
  from stored_error_codes_are_codes [OF run [unfolded sample_batch_def] refl, THEN conjunct2]
  have "stored_code ''550 a@b.c unknown'' ''rejected'' = ''rejected''" by simp
  moreover have "map s_error_code (direct_sends (w_db w')) = [None, None, Some ''rejected'']"
    using rows by auto
  ultimately show ?thesis using run by (intro exI [of _ w'] conjI)
qed

end
