(* ===== verification/Spec2Isabelle.thy ===== *)
theory Spec2Isabelle
  imports Delivery Agent_Error Backoff Scope Quota_Store Store Store_Inv Store_Actions Sweep_Store Direct_Store
    Json Schema Schema_Round Unicode Post Descriptor Validation Validation_Spec Request
    Delivery_Quota Notification Outcome Progress Engine World Worker Worker_Run Checks Batch Sweeper Service Service_Run Samples Service_Spec Handlers
begin

text \<open>
  A verification library of the publishing engine of postit, a self-hosted tool that publishes posts
  to social platforms and sends email campaigns. Paths below are under \<^verbatim>\<open>src/backend/crates/\<close>.

  \<^bold>\<open>The program.\<close> A user composes a post and asks to publish it, now or later, to some accounts. The
  request becomes a \<^emph>\<open>job\<close> with one \<^emph>\<open>delivery\<close> per account, rows of PostgreSQL tables. A queue of
  background jobs drives every delivery through a state machine: a \<^verbatim>\<open>publish_delivery\<close> job claims it
  under a lease, checks it again, reserves quota and calls the platform's agent; \<^verbatim>\<open>poll_delivery_status\<close>
  and \<^verbatim>\<open>reconcile_delivery\<close> jobs ask the platform what became of it; \<^verbatim>\<open>direct_send_batch\<close> jobs send a
  campaign batch by batch; \<^verbatim>\<open>delivery_due_sweep\<close> finds deliveries nobody works on. Several workers run
  at once, jobs may be delivered twice or never, leases run out while a call is under way, users
  cancel, retry and reschedule at any moment. What makes the engine correct: no post goes out twice,
  none is forgotten, none goes out unchecked, quotas hold, and the stored tables stay consistent.

  \<^bold>\<open>How the code is modelled.\<close> A table is a list of row records; the database \<open>db\<close> is a record of the
  tables (\<open>Store\<close>). A repository method is a function from the database to a result
  \<open>DataError + answer \<times> db\<close>, written from its SQL statements: a statement is atomic, an \<^verbatim>\<open>UPDATE\<close> is
  \<open>sql_update\<close>, a method that opens a transaction returns the old database on an error. Rows that
  \<^verbatim>\<open>SKIP LOCKED\<close> passes over are given by an argument \<open>held\<close>. Fresh ids, clock readings and random
  picks are arguments. Times are integers in nanoseconds without bounds, except where the code
  saturates (\<open>later\<close>, with the end of time \<open>max_utc\<close> of the calendar; \<open>shifted\<close>). \<^verbatim>\<open>chrono\<close>'s calendar
  and time zones, \<^verbatim>\<open>uuid\<close>'s and \<^verbatim>\<open>url\<close>'s parsers, \<^verbatim>\<open>serde\<close>'s derived readers and Unicode's tables (grapheme
  clusters, normal form, letters and digits) are third-party code and arguments. A handler is
  a function on the \<open>world\<close>: the database and the logs of what was handed to the queue, the notifier,
  the audit log, the account service and the platforms. Where a handler holds no connection, other
  transactions commit: the argument \<open>meanwhile\<close> is what they did, and theorems hold for every such
  function that meets the contract \<open>engine_handler\<close>, which the handlers are shown to meet themselves.

  \<^bold>\<open>Theories.\<close>

  \<^item> \<open>Prelude\<close>: results (\<open>bindE\<close>, \<open>foldE\<close>), tables, and the collections of rewrite rules.
  \<^item> \<open>Delivery\<close> (\<^verbatim>\<open>core/src/delivery.rs\<close>): states, events, \<open>transition\<close>, the stored names, the status of
    a job. Terminal states are final, a possibly live post is never sent again, every delivery can
    end, the stored form round-trips, and what each job status means.
  \<^item> \<open>Agent_Error\<close> (\<^verbatim>\<open>core/src/error.rs\<close>, \<^verbatim>\<open>receipt.rs\<close>, \<^verbatim>\<open>validation/violation.rs\<close>): errors of the agents, their
    retry classes, and \<open>after_send\<close>, which never leaves a lost request blindly retryable.
  \<^item> \<open>Backoff\<close> (\<^verbatim>\<open>publishing/src/backoff.rs\<close>) and \<open>Outcome\<close> (\<^verbatim>\<open>publishing/src/outcome.rs\<close>): delays and their
    bounds; what the result of a call means, that the follow-up fits the new state, and that the
    retry loop ends.
  \<^item> \<open>Scope\<close> (\<^verbatim>\<open>data/src/scope.rs\<close>), \<open>Text\<close>, \<open>Data_Error\<close>, \<open>Notification\<close> (\<^verbatim>\<open>core/src/notification.rs\<close>): access of
    owners and delegates, JSON values and text, errors of the data layer, notification kinds.
  \<^item> \<open>Json\<close>, \<open>Schema\<close>, \<open>Schema_Round\<close> (\<^verbatim>\<open>core/src/schema/\<close>, \<^verbatim>\<open>message.rs\<close>): option schemas, their parser and
    printer, the checker of option values, and the split of credentials. What parsed prints back, the
    checker agrees with the reference reading \<open>conforms\<close> (and with the documented reading of consent
    where consent must be given), and no secret is in the plain part.
  \<^item> \<open>Unicode\<close>, \<open>Post\<close> (\<^verbatim>\<open>core/src/validation/text.rs\<close>, \<^verbatim>\<open>post.rs\<close>, \<^verbatim>\<open>email.rs\<close>, \<^verbatim>\<open>compose.rs\<close>): measures of a text;
    posts, overrides and the variant of an account, which publishes only media of the post.
  \<^item> \<open>Descriptor\<close> (\<^verbatim>\<open>core/src/descriptor.rs\<close>, \<^verbatim>\<open>format.rs\<close>, \<^verbatim>\<open>media.rs\<close>, \<^verbatim>\<open>agent/registry.rs\<close>), \<open>Validation\<close>,
    \<open>Validation_Spec\<close> (\<^verbatim>\<open>core/src/validation/\<close>): what a platform accepts, and the check of a target, shown
    equivalent to the rules stated without the order of the checks (\<open>publishable\<close>, which has its own
    account of the chosen format, \<open>chosen\<close>), with the error bound of its floating-point ratio test.
    \<open>window_panics\<close> says for which native windows the check panics instead of answering.
  \<^item> \<open>Request\<close> (\<^verbatim>\<open>publishing/src/request.rs\<close>): the request assembled from a snapshot, with media that are
    all there and ready.
  \<^item> \<open>Quota_Store\<close> (\<^verbatim>\<open>data/src/publishing/quota.rs\<close>) and \<open>Delivery_Quota\<close> (\<^verbatim>\<open>publishing/src/quota.rs\<close>): buckets,
    never exceeded under any interleaving; reservations that charge all buckets or none, and their
    release.
  \<^item> \<open>Store\<close>, \<open>Store_Inv\<close>, \<open>Store_Actions\<close> (\<^verbatim>\<open>data/src/publishing/deliveries.rs\<close>, \<^verbatim>\<open>jobs.rs\<close>): claims, leases, the
    fenced write \<open>apply_event\<close>, check chains, receipts, attempts, the roll-up of the job, user actions,
    creation and rescheduling; the invariant \<open>db_ok\<close> and its preservation.
  \<^item> \<open>Sweep_Store\<close> (\<^verbatim>\<open>data/src/publishing/sweep.rs\<close>) and \<open>Direct_Store\<close> (\<^verbatim>\<open>data/src/publishing/direct.rs\<close>): the
    queries and writes of the sweep and of campaigns.
  \<^item> \<open>Progress\<close> and \<open>Engine\<close>: the order in which rows move, the step relation \<open>tx\<close> of all transactions, the
    locale \<open>one_shot\<close> for events that happen at most once, and its interpretations: a remote call is
    started once per generation, a check step is taken once, the invariant holds over every
    interleaving, settled deliveries stay settled, and the tables refine the machine of one delivery
    (\<open>course\<close>: its state and generation under the transition table, with the platform calls it starts).
  \<^item> \<open>World\<close> (\<^verbatim>\<open>publishing/src/worker.rs\<close>, \<^verbatim>\<open>notices.rs\<close>, \<^verbatim>\<open>jobs.rs\<close>): what the handlers share, and the contract
    \<open>leads\<close>/\<open>engine_handler\<close>.
  \<^item> \<open>Worker\<close>, \<open>Worker_Run\<close> (\<^verbatim>\<open>worker.rs\<close>, \<^verbatim>\<open>checks.rs\<close>, \<^verbatim>\<open>progress.rs\<close>, the start of \<^verbatim>\<open>direct.rs\<close>), \<open>Checks\<close>
    (\<^verbatim>\<open>poll.rs\<close>, \<^verbatim>\<open>reconcile.rs\<close>), \<open>Batch\<close> (\<^verbatim>\<open>direct.rs\<close>), \<open>Sweeper\<close> (\<^verbatim>\<open>sweep.rs\<close>): the five handlers, each shown to
    meet the contract; what a batch may make of the rows of the table (\<open>settled_row\<close>).
  \<^item> \<open>Service\<close>, \<open>Service_Run\<close>, \<open>Service_Spec\<close> (\<^verbatim>\<open>publishing/src/service.rs\<close>, \<^verbatim>\<open>error.rs\<close>, \<^verbatim>\<open>deletion.rs\<close>,
    \<^verbatim>\<open>disconnect.rs\<close>, \<^verbatim>\<open>preflight.rs\<close>): the calls users make (create, reschedule, cancel, retry, resolve), the
    publishing step of a user deletion, the hooks of a disconnection and the preflight. Each meets the
    contract; a job is created only from what was checked, a retry is deliberate, the report of a
    cancelled job accounts for each of its open deliveries, and a deleted user's publishing stops.
  \<^item> \<open>Samples\<close>: a small world and the evaluation of the runs the examples use.
  \<^item> \<open>Handlers\<close>: the engine as any sequence of handler runs and user calls: the platform is asked at most
    once per generation, no pending delivery is forgotten, nothing goes out unchecked, a batch lets go
    of every row it leased and stores only codes.

  \<^bold>\<open>Bounds and loops.\<close> Every definition terminates: loops over rows, targets and duties recurse on the
  list, \<open>trim_front\<close> and \<open>ilog2\<close> by a measure, the retry loop of a delivery is bounded by the configured
  attempts (\<open>Outcome\<close>), and no fuel is used. Counters of the tables keep their 32-bit range through \<open>row_fits\<close>/\<open>i32_ok\<close>, versions through
  \<open>i64_ok\<close>, and an overflow is the database's error, as in PostgreSQL.

  \<^bold>\<open>Where the model is coarser than the code.\<close> Numbers of \<^verbatim>\<open>serde_json\<close> are integers: a float in an option
  value, a quota override or a \<^verbatim>\<open>depends_on\<close> has no counterpart. The weights of a text are summed as
  naturals and saturate at the end, where the code sums \<^verbatim>\<open>u32\<close> values, which no text below two gigabytes
  overflows. \<open>pre_send_checks\<close> reads the account and its owner from one state of the database, the code
  by two queries one after the other. The content of a post (text, media, overrides) is an answer,
  \<open>sv_content\<close>, that depends on the post and its version, for its tables are the composer's; how long a
  batch keeps the images of an email is the media store's, of which only the error matters here.

  \<^bold>\<open>Not modelled.\<close> The HTTP API and its generated description, the web and mobile clients, the agents
  of the single platforms and the HTTP client under them, OAuth, identity, the vault's cryptography,
  media processing, mail transport, the drafter's calls to language models, the settings loader, the
  job runner itself, recurrences (calendar arithmetic over \<^verbatim>\<open>chrono\<close>), and the data layer's tables outside
  publishing: they are either input and output or separate parts with their own state, which the
  engine reaches only through the arguments named above. The tracing of the handlers and the request
  context of audit events are left out.
\<close>

end
